(* ===== verification/Prelude.thy ===== *)
theory Prelude
  imports Main "HOL-Library.Multiset" "HOL-Library.Char_ord" "HOL-Library.List_Lexorder"
begin

text \<open>
  Shared vocabulary of the development: the Go types that occur everywhere (byte
  slices, strings, UUIDs, instants, durations), the error values that the layers of
  the server pass to each other, and SQL tables as lists of rows with the three
  statement shapes that the repositories use (filtering, conditional update,
  conditional delete), with the lemmas that carry the component proofs.

  A Go \<open>string\<close> and a Go \<open>[]byte\<close> are both sequences of bytes; an Isabelle
  \<^typ>\<open>char\<close> is exactly one byte, so both are \<^typ>\<open>string\<close> here and the
  conversions between them are the identity.  A UUID is its 128-bit value as a number
  (\<open>uuid.Nil\<close> is 0).  Instants and durations are counted in microseconds, the
  resolution of Postgres' \<open>timestamptz\<close>.
\<close>

named_theorems tbl "rewrite rules for SQL statements on tables"
named_theorems wps "weakest precondition rules of the action monad"

type_synonym bytes = string
type_synonym uuid = nat
type_synonym time = int
type_synonym duration = int

definition uuid_Nil :: uuid where
  "uuid_Nil = 0"

definition microsecond :: duration where "microsecond = 1"
definition second :: duration where "second = 1000000"
definition minute :: duration where "minute = 60 * second"
definition hour :: duration where "hour = 60 * minute"

lemmas duration_defs = microsecond_def second_def minute_def hour_def

section \<open>Errors\<close>

text \<open>The status codes of connectrpc that the handlers use.\<close>

datatype code =
    CodeCanceled | CodeInvalidArgument | CodeNotFound | CodeAlreadyExists
  | CodePermissionDenied | CodeResourceExhausted | CodeFailedPrecondition
  | CodeInternal | CodeUnauthenticated

text \<open>
  Go errors.  \<open>NoRows\<close> is \<open>pgx.ErrNoRows\<close>, \<open>PgError\<close> a \<open>pgconn.PgError\<close> with
  its SQLSTATE, \<open>Fault\<close> a connection or server failure, \<open>Msg\<close> an
  \<open>errors.New\<close>, \<open>Wrap\<close> a \<open>fmt.Errorf("msg: %w", err)\<close>, \<open>CtxCanceled\<close> a
  \<open>context.Canceled\<close> or \<open>context.DeadlineExceeded\<close> and \<open>Connect\<close> a
  \<open>connect.NewError\<close>; the other constructors are the sentinel values of
  \<open>internal/auth\<close>.
\<close>

datatype err =
    NoRows | PgError string | Fault | Msg string | Wrap string err
  | Connect code err | CtxCanceled
  | ErrRefreshReuse | ErrChallengeNotFound | ErrChallengeExpired | ErrChallengeBurned
  | ErrAuthKeyMismatch | ErrKeyNotFound

text \<open>\<open>errors.Is\<close>: the target or anything it is wrapped in.\<close>

fun errors_is :: "err \<Rightarrow> err \<Rightarrow> bool" where
  "errors_is (Wrap m e) t = (Wrap m e = t \<or> errors_is e t)"
| "errors_is (Connect c e) t = (Connect c e = t \<or> errors_is e t)"
| "errors_is e t = (e = t)"

text \<open>\<open>errors.As(err, &pgErr)\<close> followed by the test of \<open>pgErr.Code\<close>.\<close>

fun pg_code :: "err \<Rightarrow> string option" where
  "pg_code (Wrap m e) = pg_code e"
| "pg_code (Connect c e) = pg_code e"
| "pg_code (PgError c) = Some c"
| "pg_code e = None"

section \<open>Tables\<close>

definition del_where :: "('r \<Rightarrow> bool) \<Rightarrow> 'r list \<Rightarrow> 'r list" where
  "del_where p rows = filter (\<lambda>r. \<not> p r) rows"

definition upd_where :: "('r \<Rightarrow> bool) \<Rightarrow> ('r \<Rightarrow> 'r) \<Rightarrow> 'r list \<Rightarrow> 'r list" where
  "upd_where p f rows = map (\<lambda>r. if p r then f r else r) rows"

definition count_where :: "('r \<Rightarrow> bool) \<Rightarrow> 'r list \<Rightarrow> nat" where
  "count_where p rows = length (filter p rows)"

text \<open>
  \<open>INSERT ... ON CONFLICT (k) DO UPDATE\<close>: the merged row replaces the conflicting
  one where there is one, and the new row is added otherwise.
\<close>

definition upsert :: "('r \<Rightarrow> bool) \<Rightarrow> ('r \<Rightarrow> 'r) \<Rightarrow> 'r \<Rightarrow> 'r list \<Rightarrow> 'r list" where
  "upsert p f new rows =
     (if (\<exists>r \<in> set rows. p r) then upd_where p f rows else rows @ [new])"

lemma set_del_where [tbl]: "set (del_where p rows) = {r \<in> set rows. \<not> p r}"
  by (auto simp: del_where_def)

lemma set_upd_where [tbl]:
  "set (upd_where p f rows) = (\<lambda>r. if p r then f r else r) ` set rows"
  by (auto simp: upd_where_def)

lemma length_upd_where [tbl]: "length (upd_where p f rows) = length rows"
  by (simp add: upd_where_def)

lemma del_where_Nil [tbl]: "del_where p [] = []"
  by (simp add: del_where_def)

lemma upd_where_Nil [tbl]: "upd_where p f [] = []"
  by (simp add: upd_where_def)

lemma del_where_id: "(\<And>r. r \<in> set rows \<Longrightarrow> \<not> p r) \<Longrightarrow> del_where p rows = rows"
  by (simp add: del_where_def)

lemma upd_where_id: "(\<And>r. r \<in> set rows \<Longrightarrow> \<not> p r) \<Longrightarrow> upd_where p f rows = rows"
  by (simp add: upd_where_def map_idI)

lemma find_None_iff_all: "List.find p rows = None \<longleftrightarrow> (\<forall>r \<in> set rows. \<not> p r)"
  by (auto simp: find_None_iff)

lemma find_SomeD: "List.find p rows = Some r \<Longrightarrow> r \<in> set rows \<and> p r"
  by (auto simp: find_Some_iff)

lemma find_del_where [tbl]:
  "List.find q (del_where p rows) = List.find (\<lambda>r. q r \<and> \<not> p r) rows"
  by (induction rows) (auto simp: del_where_def)

lemma find_upd_where:
  "List.find q (upd_where p f rows) =
     map_option (\<lambda>r. if p r then f r else r) (List.find (\<lambda>r. q (if p r then f r else r)) rows)"
  by (induction rows) (auto simp: upd_where_def)

lemma find_cong_pred:
  "(\<And>r. r \<in> set rows \<Longrightarrow> p r = q r) \<Longrightarrow> List.find p rows = List.find q rows"
  by (induction rows) auto

lemma find_append:
  "List.find p (xs @ ys) = (case List.find p xs of None \<Rightarrow> List.find p ys | Some r \<Rightarrow> Some r)"
  by (induction xs) auto

lemma distinct_map_del_where:
  "distinct (map k rows) \<Longrightarrow> distinct (map k (del_where p rows))"
  by (simp add: del_where_def distinct_map_filter)

lemma map_upd_where:
  "(\<And>r. k (f r) = k r) \<Longrightarrow> map k (upd_where p f rows) = map k rows"
  by (simp add: upd_where_def comp_def if_distrib cong: if_cong)

lemma distinct_map_upsert:
  assumes "distinct (map k rows)" and "\<And>r. k (f r) = k r"
    and "\<And>r. r \<in> set rows \<Longrightarrow> k r = k new \<Longrightarrow> p r"
  shows "distinct (map k (upsert p f new rows))"
proof (cases "\<exists>r \<in> set rows. p r")
  case True
  with assms(1,2) show ?thesis by (simp add: upsert_def map_upd_where)
next
  case False
  with assms(3) have "k new \<notin> k ` set rows" by force
  with False assms(1) show ?thesis by (simp add: upsert_def)
qed

lemma distinct_map_eqD:
  "distinct (map k rows) \<Longrightarrow> r \<in> set rows \<Longrightarrow> s \<in> set rows \<Longrightarrow> k r = k s \<Longrightarrow> r = s"
  by (auto simp: distinct_map inj_on_def)

lemma find_unique:
  assumes "distinct (map k rows)" and "r \<in> set rows"
  shows "List.find (\<lambda>s. k s = k r) rows = Some r"
proof -
  have "\<exists>s. List.find (\<lambda>s. k s = k r) rows = Some s"
    using assms(2) by (cases "List.find (\<lambda>s. k s = k r) rows") (auto simp: find_None_iff)
  then obtain s where s: "List.find (\<lambda>s. k s = k r) rows = Some s" ..
  then have "s \<in> set rows" and "k s = k r" by (auto dest: find_SomeD)
  with assms have "s = r" by (auto dest: distinct_map_eqD)
  with s show ?thesis by simp
qed

lemma ball_upsert:
  "(\<And>r. r \<in> set rows \<Longrightarrow> Q r) \<Longrightarrow> Q new \<Longrightarrow> (\<And>r. r \<in> set rows \<Longrightarrow> p r \<Longrightarrow> Q (f r)) \<Longrightarrow>
     \<forall>r \<in> set (upsert p f new rows). Q r"
  by (auto simp: upsert_def upd_where_def)

text \<open>The rows of other keys are a frame of every statement.\<close>

lemma filter_del_where_frame:
  "(\<And>r. q r \<Longrightarrow> \<not> p r) \<Longrightarrow> filter q (del_where p rows) = filter q rows"
  by (induction rows) (auto simp: del_where_def)

lemma filter_upd_where_frame:
  "(\<And>r. p r \<Longrightarrow> \<not> q r \<and> \<not> q (f r)) \<Longrightarrow> filter q (upd_where p f rows) = filter q rows"
  by (induction rows) (auto simp: upd_where_def)

end
