(* ===== verification/Models.thy ===== *)
theory Models
  imports Prelude
begin

text \<open>
  The rows of the database, one record per table, with the columns of
  \<open>internal/models/models_gen.go\<close>.  A nullable column is an \<open>option\<close>; a JSONB
  column is the JSON value it holds; \<open>INT\<close> and \<open>BIGINT\<close> columns are integers whose
  range the statements that compute with them check.  An IP address is its textual
  form.  Column names carry the initials of their table, since fields of different
  records share one name space.
\<close>

section \<open>Enumerations\<close>

datatype AuditAction =
    AuditActionRegister | AuditActionLogin | AuditActionLogout | AuditActionRefresh
  | AuditActionPasswordChange | AuditActionRecoveryStart | AuditActionRecoveryComplete
  | AuditActionWebauthnRegister | AuditActionWebauthnRemove
  | AuditActionTotpEnable | AuditActionTotpDisable
  | AuditActionProjectCreate | AuditActionProjectUpdate | AuditActionProjectDelete
  | AuditActionEntryCreate | AuditActionEntryUpdate | AuditActionEntryView
  | AuditActionEntryDelete | AuditActionSessionTerminate | AuditActionAccountDelete
  | AuditActionAccountDeleteAttemptFailed | AuditActionEmailVerify
  | AuditActionEmailResend | AuditActionLoginFailed | AuditActionMfaFailed
  | AuditActionRecoveryFailed

text \<open>\<open>string(action)\<close>: the constant's text.\<close>

fun action_string :: "AuditAction \<Rightarrow> string" where
  "action_string AuditActionRegister = ''register''"
| "action_string AuditActionLogin = ''login''"
| "action_string AuditActionLogout = ''logout''"
| "action_string AuditActionRefresh = ''refresh''"
| "action_string AuditActionPasswordChange = ''password_change''"
| "action_string AuditActionRecoveryStart = ''recovery_start''"
| "action_string AuditActionRecoveryComplete = ''recovery_complete''"
| "action_string AuditActionWebauthnRegister = ''webauthn_register''"
| "action_string AuditActionWebauthnRemove = ''webauthn_remove''"
| "action_string AuditActionTotpEnable = ''totp_enable''"
| "action_string AuditActionTotpDisable = ''totp_disable''"
| "action_string AuditActionProjectCreate = ''project_create''"
| "action_string AuditActionProjectUpdate = ''project_update''"
| "action_string AuditActionProjectDelete = ''project_delete''"
| "action_string AuditActionEntryCreate = ''entry_create''"
| "action_string AuditActionEntryUpdate = ''entry_update''"
| "action_string AuditActionEntryView = ''entry_view''"
| "action_string AuditActionEntryDelete = ''entry_delete''"
| "action_string AuditActionSessionTerminate = ''session_terminate''"
| "action_string AuditActionAccountDelete = ''account_delete''"
| "action_string AuditActionAccountDeleteAttemptFailed = ''account_delete_attempt_failed''"
| "action_string AuditActionEmailVerify = ''email_verify''"
| "action_string AuditActionEmailResend = ''email_resend''"
| "action_string AuditActionLoginFailed = ''login_failed''"
| "action_string AuditActionMfaFailed = ''mfa_failed''"
| "action_string AuditActionRecoveryFailed = ''recovery_failed''"

datatype EntryKind =
    EntryKindLogin | EntryKindTotp | EntryKindCard | EntryKindIdentity
  | EntryKindSshKey | EntryKindNote

section \<open>JSON values\<close>

text \<open>
  What \<open>encoding/json\<close> decodes into an \<open>any\<close>.  A number is kept as the text that
  the encoder prints for it; an object is its list of members (a Go map has no
  duplicate keys and no order: \<open>range\<close> may deliver the members in any order).
\<close>

datatype json =
    JNull | JBool bool | JNumber string | JString string
  | JArray "json list" | JObject "(string \<times> json) list"

section \<open>Rows\<close>

record AuditChainAnchor =
  aa_id :: int
  aa_head :: bytes
  aa_signature :: bytes
  aa_signed_at :: time
  aa_signer_id :: string

record AuditLog =
  al_id :: int
  al_user_id :: "uuid option"
  al_action :: AuditAction
  al_target_id :: "uuid option"
  al_ip :: "string option"
  al_user_agent :: "string option"
  al_metadata :: "json option"
  al_prev_hash :: bytes
  al_self_hash :: bytes
  al_created_at :: time

record AuthSession =
  as_id :: uuid
  as_user_id :: uuid
  as_device_id :: string
  as_device_type :: string
  as_device_name :: "string option"
  as_ip :: "string option"
  as_country :: "string option"
  as_access_token_hash :: "bytes option"
  as_refresh_token_hash :: "bytes option"
  as_current_refresh_key :: "bytes option"
  as_access_expires_at :: time
  as_refresh_expires_at :: time
  as_revoked_at :: "time option"
  as_created_at :: time
  as_last_seen_at :: time

record AuthToken =
  at_key :: bytes
  at_value :: bytes
  at_user_id :: "uuid option"
  at_session_id :: "uuid option"
  at_token_type :: string
  at_expires_at :: time
  at_created_at :: time

record EmailVerificationToken =
  ev_token_hash :: bytes
  ev_user_id :: uuid
  ev_purpose :: string
  ev_expires_at :: time
  ev_consumed_at :: "time option"

record Entry =
  en_id :: uuid
  en_user_id :: uuid
  en_project_id :: "uuid option"
  en_kind :: EntryKind
  en_encrypted_blob :: bytes
  en_wrapped_item_key :: bytes
  en_title_hash :: bytes
  en_domain_hash :: "bytes option"
  en_has_totp :: bool
  en_is_favorite :: bool
  en_version :: int
  en_created_at :: time
  en_updated_at :: time

record IdempotencyKey =
  ik_key :: string
  ik_user_id :: uuid
  ik_procedure :: string
  ik_request_hash :: bytes
  ik_response_status :: int
  ik_response_body :: bytes
  ik_created_at :: time
  ik_expires_at :: time

record MfaChallenge =
  mc_id :: uuid
  mc_user_id :: uuid
  mc_email :: string
  mc_auth_key_ct :: "bytes option"
  mc_device_id :: string
  mc_device_type :: string
  mc_device_name :: string
  mc_totp_required :: bool
  mc_webauthn_state :: "json option"
  mc_expires_at :: time
  mc_failed_attempts :: int

record Project =
  pr_id :: uuid
  pr_user_id :: uuid
  pr_encrypted_blob :: bytes
  pr_wrapped_item_key :: bytes
  pr_name_hash :: bytes
  pr_version :: int
  pr_sort_order :: int
  pr_created_at :: time
  pr_updated_at :: time

record RecoverySession =
  rs_id :: uuid
  rs_user_id :: uuid
  rs_email :: string
  rs_expires_at :: time

record SystemState =
  ss_key :: string
  ss_value :: json
  ss_updated_at :: time

record User =
  us_id :: uuid
  us_email :: string
  us_email_verified_at :: "time option"
  us_is_active :: bool
  us_created_at :: time
  us_updated_at :: time

record UserAuth =
  ua_user_id :: uuid
  ua_auth_key_hash :: string
  ua_failed_attempts :: int
  ua_locked_until :: "time option"
  ua_recovery_failed_attempts :: int
  ua_recovery_locked_until :: "time option"

record UserKdfParam =
  uk_user_id :: uuid
  uk_salt_user :: bytes
  uk_argon2_t :: int
  uk_argon2_m_kib :: int
  uk_argon2_p :: int
  uk_algo :: string
  uk_blind_pepper :: bytes

record UserLoginTotp =
  ul_user_id :: uuid
  ul_encrypted_secret :: bytes
  ul_nonce :: bytes
  ul_enabled :: bool
  ul_created_at :: time

record UserVault =
  uv_user_id :: uuid
  uv_verifier :: bytes
  uv_wrapped_vault_key :: bytes
  uv_vault_key_version :: int
  uv_recovery_salt :: bytes
  uv_recovery_wrapped_vault_key :: bytes
  uv_recovery_proof_hash :: string
  uv_recovery_used_at :: "time option"

record UserWebauthnCredential =
  wc_id :: uuid
  wc_user_id :: uuid
  wc_name :: string
  wc_credential_id :: bytes
  wc_public_key :: bytes
  wc_aaguid :: "bytes option"
  wc_sign_count :: int
  wc_transports :: "string list"
  wc_created_at :: time
  wc_last_used_at :: "time option"
  wc_flags :: int
  wc_unlock_wrapped_vault_key :: "bytes option"
  wc_prf_salt :: "bytes option"

section \<open>The database\<close>

record db =
  audit_chain_anchors :: "AuditChainAnchor list"
  audit_log :: "AuditLog list"
  auth_sessions :: "AuthSession list"
  auth_tokens :: "AuthToken list"
  email_verification_tokens :: "EmailVerificationToken list"
  entries :: "Entry list"
  idempotency_keys :: "IdempotencyKey list"
  mfa_challenges :: "MfaChallenge list"
  projects :: "Project list"
  recovery_sessions :: "RecoverySession list"
  system_state :: "SystemState list"
  users :: "User list"
  user_auth :: "UserAuth list"
  user_kdf_params :: "UserKdfParam list"
  user_login_totp :: "UserLoginTotp list"
  user_vault :: "UserVault list"
  user_webauthn_credentials :: "UserWebauthnCredential list"

definition empty_db :: db where
  "empty_db = \<lparr>audit_chain_anchors = [], audit_log = [], auth_sessions = [],
     auth_tokens = [], email_verification_tokens = [], entries = [],
     idempotency_keys = [], mfa_challenges = [], projects = [],
     recovery_sessions = [],
     system_state = [\<lparr>ss_key = ''audit_chain_head'',
        ss_value = JString (replicate 64 CHR ''0''), ss_updated_at = 0\<rparr>],
     users = [], user_auth = [], user_kdf_params = [], user_login_totp = [],
     user_vault = [], user_webauthn_credentials = []\<rparr>"

end
