(* ===== verification/Store.thy ===== *)
theory Store
  imports Models
begin

text \<open>
  The database connection and the effects of a handler, after
  \<open>internal/store/store.go\<close>.  An action reads and changes a \<open>world\<close> and ends in an
  error or a value.  Every call to the database first consumes an entry of the fault
  plan of the world: the call may fail before it has any effect, or take effect and
  have its answer lost, so that theorems about a handler cover every pattern of
  failures.  A transaction keeps the database it started from; a rollback restores it.
  \<open>SET LOCAL\<close> settings (the row level security bypass, the current user) live until
  the transaction ends.  Time does not advance inside one action.

  The last part is a calculus of weakest preconditions for actions, as rewrite rules
  in the collection \<open>wps\<close>, and the composition rules for invariants.
\<close>

section \<open>Worlds and actions\<close>

datatype fault = NoFault | FailBefore | FailAfter

record world =
  w_db :: db
  w_now :: time
  w_faults :: "fault list"
  w_tx :: "db option"
  w_bypass :: bool
  w_user :: "uuid option"
  w_audit_seq :: int
  w_anchor_seq :: int
  w_rand :: "nat \<Rightarrow> char"
  w_rand_pos :: nat
  w_uuids :: "nat \<Rightarrow> uuid"
  w_uuid_pos :: nat

text \<open>Updates of different fields commute; they are kept in one order.\<close>

lemma w_order [simp]:
  "w\<lparr>w_db := d, w_faults := fs\<rparr> = w\<lparr>w_faults := fs, w_db := d\<rparr>"
  "w\<lparr>w_tx := t, w_faults := fs\<rparr> = w\<lparr>w_faults := fs, w_tx := t\<rparr>"
  "w\<lparr>w_bypass := b, w_faults := fs\<rparr> = w\<lparr>w_faults := fs, w_bypass := b\<rparr>"
  "w\<lparr>w_user := u, w_faults := fs\<rparr> = w\<lparr>w_faults := fs, w_user := u\<rparr>"
  "w\<lparr>w_audit_seq := m, w_faults := fs\<rparr> = w\<lparr>w_faults := fs, w_audit_seq := m\<rparr>"
  "w\<lparr>w_anchor_seq := n, w_faults := fs\<rparr> = w\<lparr>w_faults := fs, w_anchor_seq := n\<rparr>"
  "w\<lparr>w_rand_pos := p, w_faults := fs\<rparr> = w\<lparr>w_faults := fs, w_rand_pos := p\<rparr>"
  "w\<lparr>w_uuid_pos := q, w_faults := fs\<rparr> = w\<lparr>w_faults := fs, w_uuid_pos := q\<rparr>"
  "w\<lparr>w_tx := t, w_db := d\<rparr> = w\<lparr>w_db := d, w_tx := t\<rparr>"
  "w\<lparr>w_bypass := b, w_db := d\<rparr> = w\<lparr>w_db := d, w_bypass := b\<rparr>"
  "w\<lparr>w_user := u, w_db := d\<rparr> = w\<lparr>w_db := d, w_user := u\<rparr>"
  "w\<lparr>w_audit_seq := m, w_db := d\<rparr> = w\<lparr>w_db := d, w_audit_seq := m\<rparr>"
  "w\<lparr>w_anchor_seq := n, w_db := d\<rparr> = w\<lparr>w_db := d, w_anchor_seq := n\<rparr>"
  "w\<lparr>w_rand_pos := p, w_db := d\<rparr> = w\<lparr>w_db := d, w_rand_pos := p\<rparr>"
  "w\<lparr>w_uuid_pos := q, w_db := d\<rparr> = w\<lparr>w_db := d, w_uuid_pos := q\<rparr>"
  "w\<lparr>w_bypass := b, w_tx := t\<rparr> = w\<lparr>w_tx := t, w_bypass := b\<rparr>"
  "w\<lparr>w_user := u, w_tx := t\<rparr> = w\<lparr>w_tx := t, w_user := u\<rparr>"
  "w\<lparr>w_audit_seq := m, w_tx := t\<rparr> = w\<lparr>w_tx := t, w_audit_seq := m\<rparr>"
  "w\<lparr>w_anchor_seq := n, w_tx := t\<rparr> = w\<lparr>w_tx := t, w_anchor_seq := n\<rparr>"
  "w\<lparr>w_rand_pos := p, w_tx := t\<rparr> = w\<lparr>w_tx := t, w_rand_pos := p\<rparr>"
  "w\<lparr>w_uuid_pos := q, w_tx := t\<rparr> = w\<lparr>w_tx := t, w_uuid_pos := q\<rparr>"
  "w\<lparr>w_user := u, w_bypass := b\<rparr> = w\<lparr>w_bypass := b, w_user := u\<rparr>"
  "w\<lparr>w_audit_seq := m, w_bypass := b\<rparr> = w\<lparr>w_bypass := b, w_audit_seq := m\<rparr>"
  "w\<lparr>w_anchor_seq := n, w_bypass := b\<rparr> = w\<lparr>w_bypass := b, w_anchor_seq := n\<rparr>"
  "w\<lparr>w_rand_pos := p, w_bypass := b\<rparr> = w\<lparr>w_bypass := b, w_rand_pos := p\<rparr>"
  "w\<lparr>w_uuid_pos := q, w_bypass := b\<rparr> = w\<lparr>w_bypass := b, w_uuid_pos := q\<rparr>"
  "w\<lparr>w_audit_seq := m, w_user := u\<rparr> = w\<lparr>w_user := u, w_audit_seq := m\<rparr>"
  "w\<lparr>w_anchor_seq := n, w_user := u\<rparr> = w\<lparr>w_user := u, w_anchor_seq := n\<rparr>"
  "w\<lparr>w_rand_pos := p, w_user := u\<rparr> = w\<lparr>w_user := u, w_rand_pos := p\<rparr>"
  "w\<lparr>w_uuid_pos := q, w_user := u\<rparr> = w\<lparr>w_user := u, w_uuid_pos := q\<rparr>"
  "w\<lparr>w_anchor_seq := n, w_audit_seq := m\<rparr> = w\<lparr>w_audit_seq := m, w_anchor_seq := n\<rparr>"
  "w\<lparr>w_rand_pos := p, w_audit_seq := m\<rparr> = w\<lparr>w_audit_seq := m, w_rand_pos := p\<rparr>"
  "w\<lparr>w_uuid_pos := q, w_audit_seq := m\<rparr> = w\<lparr>w_audit_seq := m, w_uuid_pos := q\<rparr>"
  "w\<lparr>w_rand_pos := p, w_anchor_seq := n\<rparr> = w\<lparr>w_anchor_seq := n, w_rand_pos := p\<rparr>"
  "w\<lparr>w_uuid_pos := q, w_anchor_seq := n\<rparr> = w\<lparr>w_anchor_seq := n, w_uuid_pos := q\<rparr>"
  "w\<lparr>w_uuid_pos := q, w_rand_pos := p\<rparr> = w\<lparr>w_rand_pos := p, w_uuid_pos := q\<rparr>"
  by simp_all

type_synonym 'a result = "err + 'a"
type_synonym 'a act = "world \<Rightarrow> 'a result \<times> world"

definition returnE :: "'a \<Rightarrow> 'a act" where
  "returnE x w = (Inr x, w)"

definition raiseE :: "err \<Rightarrow> 'a act" where
  "raiseE e w = (Inl e, w)"

definition bindE :: "'a act \<Rightarrow> ('a \<Rightarrow> 'b act) \<Rightarrow> 'b act" where
  "bindE m f w = (case m w of (Inl e, w') \<Rightarrow> (Inl e, w') | (Inr x, w') \<Rightarrow> f x w')"

definition thenE :: "'a act \<Rightarrow> 'b act \<Rightarrow> 'b act" where
  "thenE m n = bindE m (\<lambda>_. n)"

text \<open>\<open>if cond { return err }\<close>\<close>

definition rejectIf :: "bool \<Rightarrow> err \<Rightarrow> unit act" where
  "rejectIf c e = (if c then raiseE e else returnE ())"

definition liftE :: "'a result \<Rightarrow> 'a act" where
  "liftE r w = (r, w)"

text \<open>The caller inspects the error instead of returning it.\<close>

definition tryE :: "'a act \<Rightarrow> 'a result act" where
  "tryE m w = (case m w of (r, w') \<Rightarrow> (Inr r, w'))"

text \<open>\<open>if err != nil { return h(err) }\<close>: the error is translated on its way out.\<close>

definition mapErr :: "(err \<Rightarrow> err) \<Rightarrow> 'a act \<Rightarrow> 'a act" where
  "mapErr h m w = (case m w of (Inl e, w') \<Rightarrow> (Inl (h e), w') | (Inr x, w') \<Rightarrow> (Inr x, w'))"

definition getsE :: "(world \<Rightarrow> 'a) \<Rightarrow> 'a act" where
  "getsE f w = (Inr (f w), w)"

definition now :: "time act" where
  "now = getsE w_now"

text \<open>\<open>crypto/rand.Read\<close> into a buffer of the given size.\<close>

definition randRead :: "nat \<Rightarrow> bytes act" where
  "randRead n w = (Inr (map (w_rand w) [w_rand_pos w..<w_rand_pos w + n]),
                   w\<lparr>w_rand_pos := w_rand_pos w + n\<rparr>)"

text \<open>\<open>uuid.New\<close> and Postgres' \<open>gen_random_uuid()\<close>.\<close>

definition uuidNew :: "uuid act" where
  "uuidNew w = (Inr (w_uuids w (w_uuid_pos w)), w\<lparr>w_uuid_pos := w_uuid_pos w + 1\<rparr>)"

fun forE :: "('a \<Rightarrow> unit act) \<Rightarrow> 'a list \<Rightarrow> unit act" where
  "forE f [] = returnE ()"
| "forE f (x # xs) = thenE (f x) (forE f xs)"

section \<open>Statements\<close>

definition stmt :: "'a act \<Rightarrow> 'a act" where
  "stmt f w = (case w_faults w of
       [] \<Rightarrow> f w
     | NoFault # fs \<Rightarrow> f (w\<lparr>w_faults := fs\<rparr>)
     | FailBefore # fs \<Rightarrow> (Inl Fault, w\<lparr>w_faults := fs\<rparr>)
     | FailAfter # fs \<Rightarrow> (Inl Fault, snd (f (w\<lparr>w_faults := fs\<rparr>))))"

text \<open>A statement that only reads, one that changes rows, and one that may refuse.\<close>

definition query :: "(world \<Rightarrow> 'a) \<Rightarrow> 'a act" where
  "query f = stmt (getsE f)"

definition queryRow :: "(world \<Rightarrow> 'a option) \<Rightarrow> 'a act" where
  "queryRow f = stmt (\<lambda>w. (case f w of None \<Rightarrow> Inl NoRows | Some x \<Rightarrow> Inr x, w))"

definition exec :: "(world \<Rightarrow> db) \<Rightarrow> unit act" where
  "exec f = stmt (\<lambda>w. (Inr (), w\<lparr>w_db := f w\<rparr>))"

text \<open>A statement that may be refused and otherwise changes rows and returns a result.\<close>

definition dml :: "(world \<Rightarrow> err + ('a \<times> db)) \<Rightarrow> 'a act" where
  "dml f = stmt (\<lambda>w. case f w of Inl e \<Rightarrow> (Inl e, w) | Inr (x, d) \<Rightarrow> (Inr x, w\<lparr>w_db := d\<rparr>))"

section \<open>Transactions\<close>

text \<open>Where \<open>BeginTx\<close> reports an error, the connection is discarded.\<close>

definition BeginTx :: "unit act" where
  "BeginTx = thenE (stmt (returnE ()))
     (\<lambda>w. (Inr (), w\<lparr>w_tx := Some (w_db w), w_bypass := False, w_user := None\<rparr>))"

definition set_bypass :: "unit act" where
  "set_bypass = stmt (\<lambda>w. (Inr (), w\<lparr>w_bypass := True\<rparr>))"

definition set_current_user :: "uuid \<Rightarrow> unit act" where
  "set_current_user u = stmt (\<lambda>w. (Inr (), w\<lparr>w_user := Some u\<rparr>))"

definition Commit :: "unit act" where
  "Commit = stmt (\<lambda>w. (Inr (), w\<lparr>w_tx := None, w_bypass := False, w_user := None\<rparr>))"

text \<open>\<open>tx.Rollback\<close>: without effect on a transaction that has been committed.\<close>

definition Rollback :: "world \<Rightarrow> world" where
  "Rollback w = (case w_tx w of None \<Rightarrow> w
     | Some d \<Rightarrow> w\<lparr>w_db := d, w_tx := None, w_bypass := False, w_user := None\<rparr>)"

text \<open>\<open>defer func() { _ = tx.Rollback(ctx) }()\<close> around the rest of the function.\<close>

definition defer_rollback :: "'a act \<Rightarrow> 'a act" where
  "defer_rollback m w = (case m w of (r, w') \<Rightarrow> (r, Rollback w'))"

definition SystemDo :: "'a act \<Rightarrow> 'a act" where
  "SystemDo fn =
     thenE (mapErr (Wrap ''system tx: begin'') BeginTx)
       (defer_rollback
          (thenE (mapErr (Wrap ''system tx: set bypass'') set_bypass)
             (bindE fn (\<lambda>x. thenE Commit (returnE x)))))"

text \<open>
  The policies of migration 005 on the tenant tables: a row is visible to (and may be
  written by) the system and its owner.
\<close>

definition rls_visible :: "world \<Rightarrow> uuid \<Rightarrow> bool" where
  "rls_visible w owner \<longleftrightarrow> w_bypass w \<or> w_user w = Some owner"

section \<open>Other connections\<close>

text \<open>
  A request that holds a transaction may call code that works on another connection of
  the pool.  Such a call starts from the committed database, not from the state inside
  the transaction; at the isolation level READ COMMITTED the transaction sees what the
  call has committed, next to its own changes.  The two never write the same table.
\<close>

definition theirs_or_mine :: "'r list \<Rightarrow> 'r list \<Rightarrow> 'r list \<Rightarrow> 'r list" where
  "theirs_or_mine base mine theirs = (if theirs = base then mine else theirs)"

definition merge_tables :: "db \<Rightarrow> db \<Rightarrow> db \<Rightarrow> db" where
  "merge_tables base mine theirs = mine\<lparr>
     audit_chain_anchors := theirs_or_mine (audit_chain_anchors base) (audit_chain_anchors mine) (audit_chain_anchors theirs),
     audit_log := theirs_or_mine (audit_log base) (audit_log mine) (audit_log theirs),
     auth_sessions := theirs_or_mine (auth_sessions base) (auth_sessions mine) (auth_sessions theirs),
     auth_tokens := theirs_or_mine (auth_tokens base) (auth_tokens mine) (auth_tokens theirs),
     email_verification_tokens := theirs_or_mine (email_verification_tokens base) (email_verification_tokens mine) (email_verification_tokens theirs),
     entries := theirs_or_mine (entries base) (entries mine) (entries theirs),
     idempotency_keys := theirs_or_mine (idempotency_keys base) (idempotency_keys mine) (idempotency_keys theirs),
     mfa_challenges := theirs_or_mine (mfa_challenges base) (mfa_challenges mine) (mfa_challenges theirs),
     projects := theirs_or_mine (projects base) (projects mine) (projects theirs),
     recovery_sessions := theirs_or_mine (recovery_sessions base) (recovery_sessions mine) (recovery_sessions theirs),
     system_state := theirs_or_mine (system_state base) (system_state mine) (system_state theirs),
     users := theirs_or_mine (users base) (users mine) (users theirs),
     user_auth := theirs_or_mine (user_auth base) (user_auth mine) (user_auth theirs),
     user_kdf_params := theirs_or_mine (user_kdf_params base) (user_kdf_params mine) (user_kdf_params theirs),
     user_login_totp := theirs_or_mine (user_login_totp base) (user_login_totp mine) (user_login_totp theirs),
     user_vault := theirs_or_mine (user_vault base) (user_vault mine) (user_vault theirs),
     user_webauthn_credentials := theirs_or_mine (user_webauthn_credentials base) (user_webauthn_credentials mine) (user_webauthn_credentials theirs)\<rparr>"

definition on_pool :: "'a act \<Rightarrow> 'a act" where
  "on_pool m w = (case w_tx w of
     None \<Rightarrow> m w
   | Some d \<Rightarrow> (case m (w\<lparr>w_db := d, w_tx := None, w_bypass := False, w_user := None\<rparr>) of
       (r, w') \<Rightarrow> (r, w'\<lparr>w_db := merge_tables d (w_db w) (w_db w'), w_tx := Some (w_db w'),
                        w_bypass := w_bypass w, w_user := w_user w\<rparr>)))"

lemma merge_tables_simps [simp]:
  "audit_chain_anchors (merge_tables b m t) = theirs_or_mine (audit_chain_anchors b) (audit_chain_anchors m) (audit_chain_anchors t)"
  "audit_log (merge_tables b m t) = theirs_or_mine (audit_log b) (audit_log m) (audit_log t)"
  "auth_sessions (merge_tables b m t) = theirs_or_mine (auth_sessions b) (auth_sessions m) (auth_sessions t)"
  "auth_tokens (merge_tables b m t) = theirs_or_mine (auth_tokens b) (auth_tokens m) (auth_tokens t)"
  "email_verification_tokens (merge_tables b m t) = theirs_or_mine (email_verification_tokens b) (email_verification_tokens m) (email_verification_tokens t)"
  "entries (merge_tables b m t) = theirs_or_mine (entries b) (entries m) (entries t)"
  "idempotency_keys (merge_tables b m t) = theirs_or_mine (idempotency_keys b) (idempotency_keys m) (idempotency_keys t)"
  "mfa_challenges (merge_tables b m t) = theirs_or_mine (mfa_challenges b) (mfa_challenges m) (mfa_challenges t)"
  "projects (merge_tables b m t) = theirs_or_mine (projects b) (projects m) (projects t)"
  "recovery_sessions (merge_tables b m t) = theirs_or_mine (recovery_sessions b) (recovery_sessions m) (recovery_sessions t)"
  "system_state (merge_tables b m t) = theirs_or_mine (system_state b) (system_state m) (system_state t)"
  "users (merge_tables b m t) = theirs_or_mine (users b) (users m) (users t)"
  "user_auth (merge_tables b m t) = theirs_or_mine (user_auth b) (user_auth m) (user_auth t)"
  "user_kdf_params (merge_tables b m t) = theirs_or_mine (user_kdf_params b) (user_kdf_params m) (user_kdf_params t)"
  "user_login_totp (merge_tables b m t) = theirs_or_mine (user_login_totp b) (user_login_totp m) (user_login_totp t)"
  "user_vault (merge_tables b m t) = theirs_or_mine (user_vault b) (user_vault m) (user_vault t)"
  "user_webauthn_credentials (merge_tables b m t) = theirs_or_mine (user_webauthn_credentials b) (user_webauthn_credentials m) (user_webauthn_credentials t)"
  by (simp_all add: merge_tables_def)

lemma theirs_or_mine_same [simp]: "theirs_or_mine b m b = m"
  by (simp add: theirs_or_mine_def)

lemma theirs_or_mine_base [simp]: "theirs_or_mine b b t = t"
  by (simp add: theirs_or_mine_def)

section \<open>Weakest preconditions\<close>

definition wp :: "'a act \<Rightarrow> ('a result \<Rightarrow> world \<Rightarrow> bool) \<Rightarrow> world \<Rightarrow> bool" where
  "wp m Q w = (case m w of (r, w') \<Rightarrow> Q r w')"

lemma wp_iff: "wp m Q w \<longleftrightarrow> Q (fst (m w)) (snd (m w))"
  by (simp add: wp_def split: prod.split)

lemma wp_mono: "wp m P w \<Longrightarrow> (\<And>r w'. P r w' \<Longrightarrow> Q r w') \<Longrightarrow> wp m Q w"
  by (simp add: wp_iff)

lemma wp_returnE [wps]: "wp (returnE x) Q w = Q (Inr x) w"
  by (simp add: wp_def returnE_def)

lemma wp_raiseE [wps]: "wp (raiseE e) Q w = Q (Inl e) w"
  by (simp add: wp_def raiseE_def)

lemma wp_step [wps]: "wp (\<lambda>w. (r w, g w)) Q w = Q (r w) (g w)"
  by (simp add: wp_def)

lemma wp_bindE [wps]:
  "wp (bindE m f) Q w =
     wp m (\<lambda>r w'. case r of Inl e \<Rightarrow> Q (Inl e) w' | Inr x \<Rightarrow> wp (f x) Q w') w"
  by (simp add: wp_def bindE_def split: prod.splits sum.splits)

lemma wp_thenE [wps]:
  "wp (thenE m n) Q w =
     wp m (\<lambda>r w'. case r of Inl e \<Rightarrow> Q (Inl e) w' | Inr x \<Rightarrow> wp n Q w') w"
  by (simp add: thenE_def wps)

lemma wp_liftE [wps]: "wp (liftE r) Q w = Q r w"
  by (simp add: wp_def liftE_def)

lemma wp_tryE [wps]: "wp (tryE m) Q w = wp m (\<lambda>r. Q (Inr r)) w"
  by (simp add: wp_def tryE_def split: prod.splits)

lemma wp_mapErr [wps]:
  "wp (mapErr h m) Q w =
     wp m (\<lambda>r w'. case r of Inl e \<Rightarrow> Q (Inl (h e)) w' | Inr x \<Rightarrow> Q (Inr x) w') w"
  by (simp add: wp_def mapErr_def split: prod.splits sum.splits)

lemma wp_getsE [wps]: "wp (getsE f) Q w = Q (Inr (f w)) w"
  by (simp add: wp_def getsE_def)

lemma wp_now [wps]: "wp now Q w = Q (Inr (w_now w)) w"
  by (simp add: now_def wps)

lemma wp_rejectIf [wps]:
  "wp (rejectIf c e) Q w = (if c then Q (Inl e) w else Q (Inr ()) w)"
  by (simp add: rejectIf_def wps)

lemma wp_if [wps]: "wp (if c then m else n) Q w = (if c then wp m Q w else wp n Q w)"
  by simp

lemma wp_case_option [wps]:
  "wp (case x of None \<Rightarrow> m | Some y \<Rightarrow> f y) Q w =
     (case x of None \<Rightarrow> wp m Q w | Some y \<Rightarrow> wp (f y) Q w)"
  by (simp split: option.split)

lemma wp_case_sum [wps]:
  "wp (case x of Inl e \<Rightarrow> m e | Inr y \<Rightarrow> f y) Q w =
     (case x of Inl e \<Rightarrow> wp (m e) Q w | Inr y \<Rightarrow> wp (f y) Q w)"
  by (simp split: sum.split)

lemma wp_case_prod [wps]:
  "wp (case x of (a, b) \<Rightarrow> m a b) Q w = (case x of (a, b) \<Rightarrow> wp (m a b) Q w)"
  by (simp split: prod.split)

lemma wp_stmt:
  "wp (stmt f) Q w = (case w_faults w of
       [] \<Rightarrow> wp f Q w
     | NoFault # fs \<Rightarrow> wp f Q (w\<lparr>w_faults := fs\<rparr>)
     | FailBefore # fs \<Rightarrow> Q (Inl Fault) (w\<lparr>w_faults := fs\<rparr>)
     | FailAfter # fs \<Rightarrow> wp f (\<lambda>_. Q (Inl Fault)) (w\<lparr>w_faults := fs\<rparr>))"
  by (simp add: wp_def stmt_def split: list.split fault.split prod.split)

lemma wp_defer_rollback [wps]:
  "wp (defer_rollback m) Q w = wp m (\<lambda>r w'. Q r (Rollback w')) w"
  by (simp add: wp_def defer_rollback_def split: prod.splits)

text \<open>Statements in a run without faults.\<close>

lemma wp_stmt_ok [wps]: "w_faults w = [] \<Longrightarrow> wp (stmt f) Q w = wp f Q w"
  by (simp add: wp_stmt)

lemma wp_query_ok [wps]: "w_faults w = [] \<Longrightarrow> wp (query f) Q w = Q (Inr (f w)) w"
  by (simp add: query_def wps)

lemma wp_queryRow_ok [wps]:
  "w_faults w = [] \<Longrightarrow>
     wp (queryRow f) Q w = Q (case f w of None \<Rightarrow> Inl NoRows | Some x \<Rightarrow> Inr x) w"
  by (simp add: queryRow_def stmt_def wp_def)

lemma wp_exec_ok [wps]:
  "w_faults w = [] \<Longrightarrow> wp (exec f) Q w = Q (Inr ()) (w\<lparr>w_db := f w\<rparr>)"
  by (simp add: exec_def stmt_def wp_def)

lemma wp_dml_ok [wps]:
  "w_faults w = [] \<Longrightarrow>
     wp (dml f) Q w = (case f w of Inl e \<Rightarrow> Q (Inl e) w | Inr (x, d) \<Rightarrow> Q (Inr x) (w\<lparr>w_db := d\<rparr>))"
  by (simp add: dml_def stmt_def wp_def split: sum.split prod.split)

lemma wp_BeginTx_ok [wps]:
  "w_faults w = [] \<Longrightarrow>
     wp BeginTx Q w = Q (Inr ()) (w\<lparr>w_tx := Some (w_db w), w_bypass := False, w_user := None\<rparr>)"
  by (simp add: BeginTx_def thenE_def bindE_def returnE_def stmt_def wp_def)

lemma wp_set_bypass_ok [wps]:
  "w_faults w = [] \<Longrightarrow> wp set_bypass Q w = Q (Inr ()) (w\<lparr>w_bypass := True\<rparr>)"
  by (simp add: set_bypass_def stmt_def wp_def)

lemma wp_set_current_user_ok [wps]:
  "w_faults w = [] \<Longrightarrow> wp (set_current_user u) Q w = Q (Inr ()) (w\<lparr>w_user := Some u\<rparr>)"
  by (simp add: set_current_user_def stmt_def wp_def)

lemma wp_Commit_ok [wps]:
  "w_faults w = [] \<Longrightarrow>
     wp Commit Q w = Q (Inr ()) (w\<lparr>w_tx := None, w_bypass := False, w_user := None\<rparr>)"
  by (simp add: Commit_def stmt_def wp_def)

lemma wp_randRead [wps]:
  "wp (randRead n) Q w =
     Q (Inr (map (w_rand w) [w_rand_pos w..<w_rand_pos w + n])) (w\<lparr>w_rand_pos := w_rand_pos w + n\<rparr>)"
  by (simp add: wp_def randRead_def)

lemma wp_uuidNew [wps]:
  "wp uuidNew Q w = Q (Inr (w_uuids w (w_uuid_pos w))) (w\<lparr>w_uuid_pos := w_uuid_pos w + 1\<rparr>)"
  by (simp add: wp_def uuidNew_def)

lemma Rollback_None [simp]: "w_tx w = None \<Longrightarrow> Rollback w = w"
  by (simp add: Rollback_def)

lemma Rollback_Some [simp]:
  "w_tx w = Some d \<Longrightarrow>
     Rollback w = w\<lparr>w_db := d, w_tx := None, w_bypass := False, w_user := None\<rparr>"
  by (simp add: Rollback_def)

section \<open>Runs with faults\<close>

text \<open>
  To establish a postcondition whatever the fault plan holds, it is enough to establish
  it for the three outcomes of the statement, with any remaining plan.
\<close>

named_theorems wpi "introduction rules for weakest preconditions under faults"

lemma wp_stmt_any:
  assumes "\<And>fs. wp f Q (w\<lparr>w_faults := fs\<rparr>)"
    and "\<And>fs. wp f (\<lambda>_. Q (Inl Fault)) (w\<lparr>w_faults := fs\<rparr>)"
    and "\<And>fs. Q (Inl Fault) (w\<lparr>w_faults := fs\<rparr>)"
  shows "wp (stmt f) Q w"
proof (cases "w_faults w")
  case Nil
  then have "w = w\<lparr>w_faults := []\<rparr>" by simp
  with assms(1) [of "[]"] Nil show ?thesis by (simp add: wp_stmt)
next
  case (Cons a fs)
  with assms show ?thesis by (cases a) (simp_all add: wp_stmt)
qed

lemma wp_query_any [wpi]:
  assumes "\<And>fs. Q (Inr (f (w\<lparr>w_faults := fs\<rparr>))) (w\<lparr>w_faults := fs\<rparr>)"
    and "\<And>fs. Q (Inl Fault) (w\<lparr>w_faults := fs\<rparr>)"
  shows "wp (query f) Q w"
  unfolding query_def by (rule wp_stmt_any) (simp_all add: assms wps)

lemma wp_queryRow_any [wpi]:
  assumes "\<And>fs x. f (w\<lparr>w_faults := fs\<rparr>) = Some x \<Longrightarrow> Q (Inr x) (w\<lparr>w_faults := fs\<rparr>)"
    and "\<And>fs. f (w\<lparr>w_faults := fs\<rparr>) = None \<Longrightarrow> Q (Inl NoRows) (w\<lparr>w_faults := fs\<rparr>)"
    and "\<And>fs. Q (Inl Fault) (w\<lparr>w_faults := fs\<rparr>)"
  shows "wp (queryRow f) Q w"
  unfolding queryRow_def
  by (rule wp_stmt_any) (auto simp: wp_def assms split: option.split)

lemma wp_exec_any [wpi]:
  assumes "\<And>fs. Q (Inr ()) (w\<lparr>w_faults := fs, w_db := f (w\<lparr>w_faults := fs\<rparr>)\<rparr>)"
    and "\<And>fs. Q (Inl Fault) (w\<lparr>w_faults := fs, w_db := f (w\<lparr>w_faults := fs\<rparr>)\<rparr>)"
    and "\<And>fs. Q (Inl Fault) (w\<lparr>w_faults := fs\<rparr>)"
  shows "wp (exec f) Q w"
  unfolding exec_def by (rule wp_stmt_any) (simp_all add: assms wp_def)

lemma wp_dml_any [wpi]:
  assumes "\<And>fs x d. f (w\<lparr>w_faults := fs\<rparr>) = Inr (x, d) \<Longrightarrow> Q (Inr x) (w\<lparr>w_faults := fs, w_db := d\<rparr>)"
    and "\<And>fs x d. f (w\<lparr>w_faults := fs\<rparr>) = Inr (x, d) \<Longrightarrow> Q (Inl Fault) (w\<lparr>w_faults := fs, w_db := d\<rparr>)"
    and "\<And>fs e. f (w\<lparr>w_faults := fs\<rparr>) = Inl e \<Longrightarrow> Q (Inl e) (w\<lparr>w_faults := fs\<rparr>)"
    and "\<And>fs. Q (Inl Fault) (w\<lparr>w_faults := fs\<rparr>)"
  shows "wp (dml f) Q w"
  unfolding dml_def
  by (rule wp_stmt_any) (auto simp: wp_def assms split: sum.split)

text \<open>
  A transaction: the body starts from a world that differs only in its fault plan and
  its connection.  If the body fails, or the commit is refused, the database is the one
  before; after a commit, confirmed or not, it is the one the body left.
\<close>

definition tx_start :: "bool \<Rightarrow> uuid option \<Rightarrow> fault list \<Rightarrow> world \<Rightarrow> world" where
  "tx_start b u fs w = w\<lparr>w_faults := fs, w_tx := Some (w_db w), w_bypass := b, w_user := u\<rparr>"

definition tx_end :: "db \<Rightarrow> fault list \<Rightarrow> world \<Rightarrow> world" where
  "tx_end d fs w = w\<lparr>w_faults := fs, w_db := d, w_tx := None, w_bypass := False, w_user := None\<rparr>"

lemmas tx_simps = tx_start_def tx_end_def

lemma wp_Commit_any:
  assumes "\<And>fs. Q (Inr ()) (tx_end (w_db w) fs w)"
    and "\<And>fs. Q (Inl Fault) (tx_end (w_db w) fs w)"
    and "\<And>fs. Q (Inl Fault) (w\<lparr>w_faults := fs\<rparr>)"
  shows "wp Commit Q w"
  unfolding Commit_def using assms
  by (intro wp_stmt_any) (simp_all add: wp_def tx_end_def)

lemma wp_set_bypass_any [wpi]:
  assumes "\<And>fs. Q (Inr ()) (w\<lparr>w_faults := fs, w_bypass := True\<rparr>)"
    and "\<And>fs b. Q (Inl Fault) (w\<lparr>w_faults := fs, w_bypass := b\<rparr>)"
  shows "wp set_bypass Q w"
proof -
  have "Q (Inl Fault) (w\<lparr>w_faults := fs\<rparr>)" for fs
    using assms(2) [where fs = fs and b = "w_bypass w"] by simp
  with assms show ?thesis
    unfolding set_bypass_def by (intro wp_stmt_any) (simp_all add: wp_def)
qed

lemma wp_BeginTx_any [wpi]:
  assumes "\<And>fs. Q (Inr ()) (tx_start False None fs w)"
    and "\<And>fs. Q (Inl Fault) (w\<lparr>w_faults := fs\<rparr>)"
  shows "wp BeginTx Q w"
proof -
  have "wp (stmt (returnE ())) (\<lambda>r w'. case r of Inl e \<Rightarrow> Q (Inl e) w'
      | Inr _ \<Rightarrow> Q (Inr ()) (w'\<lparr>w_tx := Some (w_db w'), w_bypass := False, w_user := None\<rparr>)) w"
    using assms by (intro wp_stmt_any) (simp_all add: wps tx_start_def)
  then show ?thesis
    by (simp add: BeginTx_def wps split: sum.splits)
qed

text \<open>
  The rule for \<^const>\<open>SystemDo\<close>: errors leave the database as it was, unless the
  confirmation of the commit was lost.
\<close>

lemma wp_SystemDo_any:
  assumes body: "\<And>fs. wp fn (\<lambda>r w'. w_tx w' = Some (w_db w) \<and>
       (case r of
          Inl e \<Rightarrow> \<forall>fs. Q (Inl e) (tx_end (w_db w) fs w')
        | Inr x \<Rightarrow> \<forall>fs. Q (Inr x) (tx_end (w_db w') fs w') \<and> Q (Inl Fault) (tx_end (w_db w') fs w')
            \<and> Q (Inl Fault) (tx_end (w_db w) fs w'))) (tx_start True None fs w)"
    and begin_fails: "\<And>fs m. Q (Inl (Wrap m Fault)) (w\<lparr>w_faults := fs\<rparr>)"
    and set_fails: "\<And>fs m. Q (Inl (Wrap m Fault)) (tx_end (w_db w) fs w)"
  shows "wp (SystemDo fn) Q w"
proof -
  have "wp (bindE fn (\<lambda>x. thenE Commit (returnE x))) (\<lambda>r w'. Q r (Rollback w'))
          (tx_start True None fs w)" for fs
    unfolding wps
  proof (rule wp_mono [OF body], goal_cases)
    case (1 r w')
    show ?case
    proof (cases r)
      case (Inl e)
      with 1 have "Q (Inl e) (tx_end (w_db w) (w_faults w') w')" by simp
      moreover have "tx_end (w_db w) (w_faults w') w' = Rollback w'"
        using 1 by (simp add: tx_end_def)
      ultimately show ?thesis using Inl by simp
    next
      case (Inr x)
      with 1 show ?thesis
        by (auto intro!: wp_Commit_any simp: wps tx_end_def)
    qed
  qed
  then show ?thesis
    unfolding SystemDo_def wps
    using set_fails begin_fails
    by (auto intro!: wpi simp: tx_start_def tx_end_def)
qed

section \<open>Actions that keep an invariant\<close>

text \<open>Whatever the outcome and the faults, the invariant holds afterwards.\<close>

definition keeps :: "(world \<Rightarrow> bool) \<Rightarrow> 'a act \<Rightarrow> bool" where
  "keeps I m \<longleftrightarrow> (\<forall>w. I w \<longrightarrow> I (snd (m w)))"

lemma keepsD: "keeps I m \<Longrightarrow> I w \<Longrightarrow> m w = (r, w') \<Longrightarrow> I w'"
  by (metis keeps_def snd_conv)

lemma keeps_returnE: "keeps I (returnE x)" by (simp add: keeps_def returnE_def)
lemma keeps_raiseE: "keeps I (raiseE e)" by (simp add: keeps_def raiseE_def)
lemma keeps_rejectIf: "keeps I (rejectIf c e)" by (simp add: rejectIf_def keeps_returnE keeps_raiseE)
lemma keeps_getsE: "keeps I (getsE f)" by (simp add: keeps_def getsE_def)
lemma keeps_now: "keeps I now" by (simp add: now_def keeps_getsE)
lemma keeps_bindE: "keeps I m \<Longrightarrow> (\<And>x. keeps I (f x)) \<Longrightarrow> keeps I (bindE m f)"
  by (fastforce simp: keeps_def bindE_def split: prod.splits sum.splits)
lemma keeps_thenE: "keeps I m \<Longrightarrow> keeps I n \<Longrightarrow> keeps I (thenE m n)"
  by (simp add: thenE_def keeps_bindE)
lemma keeps_mapErr: "keeps I m \<Longrightarrow> keeps I (mapErr h m)"
  by (fastforce simp: keeps_def mapErr_def split: prod.splits sum.splits)
lemma keeps_tryE: "keeps I m \<Longrightarrow> keeps I (tryE m)"
  by (fastforce simp: keeps_def tryE_def split: prod.splits)

lemma keeps_case_option: "keeps I m \<Longrightarrow> (\<And>x. keeps I (f x)) \<Longrightarrow> keeps I (case y of None \<Rightarrow> m | Some x \<Rightarrow> f x)"
  by (cases y) simp_all

lemma keeps_case_sum: "(\<And>e. keeps I (g e)) \<Longrightarrow> (\<And>x. keeps I (f x)) \<Longrightarrow> keeps I (case y of Inl e \<Rightarrow> g e | Inr x \<Rightarrow> f x)"
  by (cases y) simp_all

lemma keeps_case_prod: "(\<And>a b. keeps I (f a b)) \<Longrightarrow> keeps I (case y of (a, b) \<Rightarrow> f a b)"
  by (cases y) simp

lemma keeps_if: "keeps I m \<Longrightarrow> keeps I n \<Longrightarrow> keeps I (if c then m else n)"
  by simp

lemmas keeps_cases = keeps_case_option keeps_case_sum keeps_case_prod keeps_if

lemma keeps_stmt:
  assumes "\<And>w fs. I w \<Longrightarrow> I (w\<lparr>w_faults := fs\<rparr>)" and "keeps I f"
  shows "keeps I (stmt f)"
  using assms by (auto simp: keeps_def stmt_def split: list.splits fault.splits)


text \<open>
  Invariants of the database that may also speak of the identifiers handed out so far.
  They have to hold of the database an open transaction would be rolled back to as well.
\<close>

definition db_inv :: "((nat \<Rightarrow> uuid) \<Rightarrow> nat \<Rightarrow> db \<Rightarrow> bool) \<Rightarrow> world \<Rightarrow> bool" where
  "db_inv P w \<longleftrightarrow> (\<forall>d \<in> insert (w_db w) (set_option (w_tx w)). P (w_uuids w) (w_uuid_pos w) d)"

locale db_invariant =
  fixes P :: "(nat \<Rightarrow> uuid) \<Rightarrow> nat \<Rightarrow> db \<Rightarrow> bool"
  assumes grow: "P us p d \<Longrightarrow> p \<le> q \<Longrightarrow> P us q d"
begin

lemma keeps_db_stmt: "keeps (db_inv P) f \<Longrightarrow> keeps (db_inv P) (stmt f)"
  by (rule keeps_stmt) (simp_all add: db_inv_def)

lemma keeps_query: "keeps (db_inv P) (query f)"
  by (simp add: query_def keeps_db_stmt keeps_getsE)

lemma keeps_queryRow: "keeps (db_inv P) (queryRow f)"
  unfolding queryRow_def by (rule keeps_db_stmt) (simp add: keeps_def)

lemma keeps_exec:
  assumes "\<And>w. P (w_uuids w) (w_uuid_pos w) (w_db w) \<Longrightarrow> P (w_uuids w) (w_uuid_pos w) (f w)"
  shows "keeps (db_inv P) (exec f)"
  unfolding exec_def using assms by (intro keeps_db_stmt) (simp add: keeps_def db_inv_def)

lemma keeps_dml:
  assumes "\<And>w x d. P (w_uuids w) (w_uuid_pos w) (w_db w) \<Longrightarrow> f w = Inr (x, d) \<Longrightarrow> P (w_uuids w) (w_uuid_pos w) d"
  shows "keeps (db_inv P) (dml f)"
  unfolding dml_def using assms by (intro keeps_db_stmt) (auto simp: keeps_def db_inv_def split: sum.splits)

lemma keeps_uuidNew: "keeps (db_inv P) uuidNew"
  by (auto simp: keeps_def uuidNew_def db_inv_def intro: grow split: option.splits)

lemma keeps_randRead: "keeps (db_inv P) (randRead n)"
  by (simp add: keeps_def randRead_def db_inv_def)

lemma keeps_tx:
  "keeps (db_inv P) BeginTx" "keeps (db_inv P) set_bypass" "keeps (db_inv P) (set_current_user u)"
  "keeps (db_inv P) Commit"
  unfolding BeginTx_def set_bypass_def set_current_user_def Commit_def
  by (intro keeps_thenE keeps_db_stmt keeps_returnE; simp add: keeps_def db_inv_def)+

lemma keeps_defer_rollback: "keeps (db_inv P) m \<Longrightarrow> keeps (db_inv P) (defer_rollback m)"
  by (fastforce simp: keeps_def defer_rollback_def Rollback_def db_inv_def split: prod.splits option.splits)

lemma keeps_SystemDo: "keeps (db_inv P) m \<Longrightarrow> keeps (db_inv P) (SystemDo m)"
  unfolding SystemDo_def
  by (intro keeps_thenE keeps_mapErr keeps_tx keeps_defer_rollback keeps_bindE keeps_returnE)

lemmas keeps_intros = keeps_returnE keeps_raiseE keeps_rejectIf keeps_now keeps_bindE keeps_thenE keeps_mapErr
  keeps_tryE keeps_query keeps_queryRow keeps_uuidNew keeps_randRead keeps_tx keeps_defer_rollback keeps_SystemDo

end

text \<open>Invariants that a call on another connection keeps as well.\<close>

locale db_invariant_pool = db_invariant +
  assumes merge: "P us p b \<Longrightarrow> P us p m \<Longrightarrow> P us p t \<Longrightarrow> P us p (merge_tables b m t)"
    and same_uuids: "P us p d \<Longrightarrow> P us' p' d"
begin

lemma keeps_on_pool:
  assumes m: "keeps (db_inv P) m"
  shows "keeps (db_inv P) (on_pool m)"
  unfolding keeps_def
proof (intro allI impI)
  fix w assume inv: "db_inv P w"
  show "db_inv P (snd (on_pool m w))"
  proof (cases "w_tx w")
    case None
    with m inv show ?thesis by (simp add: on_pool_def keeps_def)
  next
    case (Some d)
    let ?w = "w\<lparr>w_db := d, w_tx := None, w_bypass := False, w_user := None\<rparr>"
    obtain r w' where run: "m ?w = (r, w')" by fastforce
    have "db_inv P ?w" using inv Some by (simp add: db_inv_def)
    from keepsD [OF m this run] have "P us p (w_db w')" for us p
      by (auto simp: db_inv_def intro: same_uuids)
    moreover have "P us p d" "P us p (w_db w)" for us p
      using inv Some by (auto simp: db_inv_def intro: same_uuids)
    ultimately show ?thesis using Some run by (auto simp: on_pool_def db_inv_def intro: merge)
  qed
qed

end

section \<open>Successful runs\<close>

text \<open>What a run that returned a value has gone through.\<close>

named_theorems runs_ok "equations for runs that return a value"

lemma bindE_ok [runs_ok]: "bindE m f w = (Inr y, w') \<longleftrightarrow> (\<exists>x w1. m w = (Inr x, w1) \<and> f x w1 = (Inr y, w'))"
  by (auto simp: bindE_def split: prod.splits sum.splits)

lemma thenE_ok [runs_ok]: "thenE m n w = (Inr y, w') \<longleftrightarrow> (\<exists>x w1. m w = (Inr x, w1) \<and> n w1 = (Inr y, w'))"
  by (simp add: thenE_def runs_ok)

lemma mapErr_ok [runs_ok]: "mapErr h m w = (Inr y, w') \<longleftrightarrow> m w = (Inr y, w')"
  by (auto simp: mapErr_def split: prod.splits sum.splits)

lemma returnE_ok [runs_ok]: "returnE x w = (Inr y, w') \<longleftrightarrow> x = y \<and> w = w'"
  by (auto simp: returnE_def)

lemma raiseE_ok [runs_ok]: "raiseE e w = (Inr y, w') \<longleftrightarrow> False"
  by (simp add: raiseE_def)

lemma liftE_ok [runs_ok]: "liftE r w = (Inr y, w') \<longleftrightarrow> r = Inr y \<and> w = w'"
  by (auto simp: liftE_def)

lemma rejectIf_ok [runs_ok]: "rejectIf c e w = (Inr y, w') \<longleftrightarrow> \<not> c \<and> w = w'"
  by (auto simp: rejectIf_def returnE_def raiseE_def)

lemma stmt_ok:
  assumes "stmt f w = (Inr x, w')"
  shows "\<exists>fs. f (w\<lparr>w_faults := fs\<rparr>) = (Inr x, w')"
proof (cases "w_faults w")
  case Nil
  then have "w\<lparr>w_faults := []\<rparr> = w" by simp
  moreover have "f w = (Inr x, w')" using assms Nil by (simp add: stmt_def)
  ultimately show ?thesis by metis
next
  case (Cons a fs)
  with assms show ?thesis by (cases a) (auto simp: stmt_def)
qed

lemma dml_ok:
  assumes "dml f w = (Inr x, w')"
  shows "\<exists>fs d. f (w\<lparr>w_faults := fs\<rparr>) = Inr (x, d) \<and> w' = w\<lparr>w_faults := fs, w_db := d\<rparr>"
  using stmt_ok [OF assms [unfolded dml_def]] by (fastforce split: sum.splits)

section \<open>Idle connections\<close>

text \<open>A world in which no transaction is open.\<close>

definition idle :: "world \<Rightarrow> bool" where
  "idle w \<longleftrightarrow> w_tx w = None \<and> \<not> w_bypass w \<and> w_user w = None"

lemma idle_reset [simp]:
  "idle w \<Longrightarrow> w\<lparr>w_tx := None\<rparr> = w"
  "idle w \<Longrightarrow> w\<lparr>w_bypass := False\<rparr> = w"
  "idle w \<Longrightarrow> w\<lparr>w_user := None\<rparr> = w"
  by (cases w, simp add: idle_def)+

lemma idle_frame [simp]:
  "idle (w\<lparr>w_faults := fs\<rparr>) = idle w"
  "idle (w\<lparr>w_db := d\<rparr>) = idle w"
  "idle (w\<lparr>w_audit_seq := i\<rparr>) = idle w"
  "idle (w\<lparr>w_anchor_seq := i\<rparr>) = idle w"
  "idle (w\<lparr>w_rand_pos := p\<rparr>) = idle w"
  "idle (w\<lparr>w_uuid_pos := p\<rparr>) = idle w"
  by (simp_all add: idle_def)

lemma Rollback_idle [simp]: "idle w \<Longrightarrow> Rollback w = w"
  by (simp add: idle_def)

lemma idle_tx_end [simp]: "idle (tx_end d fs w)"
  by (simp add: idle_def tx_end_def)

section \<open>Invariants of the connection\<close>

text \<open>Predicates that do not depend on the rows are kept by every statement on them.\<close>

locale connection_invariant =
  fixes I :: "world \<Rightarrow> bool"
  assumes plan_tl: "I w \<Longrightarrow> w_faults w = a # fs \<Longrightarrow> I (w\<lparr>w_faults := fs\<rparr>)"
    and any_db: "I w \<Longrightarrow> I (w\<lparr>w_db := d\<rparr>)"
    and any_rand: "I w \<Longrightarrow> I (w\<lparr>w_rand_pos := p\<rparr>)"
    and any_uuid: "I w \<Longrightarrow> I (w\<lparr>w_uuid_pos := p\<rparr>)"
begin

lemma keeps_any_stmt: "keeps I f \<Longrightarrow> keeps I (stmt f)"
  by (auto simp: keeps_def stmt_def dest: plan_tl split: list.splits fault.splits)

lemma keeps_any_table:
  "keeps I (query q)" "keeps I (queryRow qr)" "keeps I (exec x)" "keeps I (dml d)"
  unfolding query_def queryRow_def exec_def dml_def
  by (intro keeps_any_stmt; auto simp: keeps_def getsE_def any_db split: sum.split)+

lemma keeps_any_source: "keeps I (randRead n)" "keeps I uuidNew"
  by (simp_all add: keeps_def randRead_def uuidNew_def any_rand any_uuid)

lemmas keeps_any = keeps_returnE keeps_raiseE keeps_rejectIf keeps_now keeps_bindE keeps_thenE keeps_mapErr
  keeps_tryE keeps_any_table keeps_any_source keeps_cases

end

definition in_tx :: "world \<Rightarrow> bool" where
  "in_tx w \<longleftrightarrow> w_tx w \<noteq> None"

interpretation tx: connection_invariant in_tx
  by unfold_locales (simp_all add: in_tx_def)

text \<open>A world in which no further statement fails.\<close>

definition calm :: "world \<Rightarrow> bool" where
  "calm w \<longleftrightarrow> w_faults w = []"

interpretation calm: connection_invariant calm
  by unfold_locales (simp_all add: calm_def)

lemma keeps_calm_tx:
  "keeps calm BeginTx" "keeps calm set_bypass" "keeps calm (set_current_user u)" "keeps calm Commit"
  unfolding BeginTx_def set_bypass_def set_current_user_def Commit_def
  by (intro calm.keeps_any calm.keeps_any_stmt; simp add: keeps_def calm_def)+

lemma keeps_calm_rollback: "keeps calm m \<Longrightarrow> keeps calm (defer_rollback m)"
  by (fastforce simp: keeps_def defer_rollback_def Rollback_def calm_def split: prod.splits option.splits)

lemma keeps_calm_on_pool: "keeps calm m \<Longrightarrow> keeps calm (on_pool m)"
  by (auto simp: keeps_def on_pool_def calm_def case_prod_beta split: option.splits)

lemma keeps_in_tx_on_pool: "keeps in_tx (on_pool m)"
  by (auto simp: keeps_def in_tx_def on_pool_def split: option.splits prod.splits)

lemma idle_Rollback: "in_tx w \<Longrightarrow> idle (Rollback w)"
  by (auto simp: in_tx_def idle_def)

section \<open>A concrete world\<close>

text \<open>A freshly migrated database, used where theorems are applied to concrete inputs.\<close>

definition demo_world :: world where
  "demo_world = \<lparr>w_db = empty_db, w_now = 0, w_faults = [], w_tx = None, w_bypass = False,
     w_user = None, w_audit_seq = 0, w_anchor_seq = 0, w_rand = (\<lambda>n. char_of (7 * n + 1)),
     w_rand_pos = 0, w_uuids = (\<lambda>n. n + 1), w_uuid_pos = 0\<rparr>"

end
