(* ===== verification/Codec.thy ===== *)
theory Codec
  imports Models
begin

text \<open>
  The parts of Go's standard library that the server's own formats are built from:
  decimal printing, \<open>encoding/hex\<close>, UTF-8 validation, and the string encoder of
  \<open>encoding/json\<close>.
\<close>

section \<open>Decimal\<close>

fun digit_char :: "nat \<Rightarrow> char" where
  "digit_char n = char_of (48 + n)"

function show_nat :: "nat \<Rightarrow> string" where
  "show_nat n = (if n < 10 then [digit_char n] else show_nat (n div 10) @ [digit_char (n mod 10)])"
  by auto
termination by (relation "measure id") auto

declare show_nat.simps [simp del]

definition show_int :: "int \<Rightarrow> string" where
  "show_int i = (if i < 0 then CHR ''-'' # show_nat (nat (- i)) else show_nat (nat i))"

section \<open>Hexadecimal\<close>

definition hex_digit :: "nat \<Rightarrow> char" where
  "hex_digit n = (if n < 10 then char_of (48 + n) else char_of (87 + n))"

fun hex_EncodeToString :: "bytes \<Rightarrow> string" where
  "hex_EncodeToString [] = []"
| "hex_EncodeToString (b # bs) =
     hex_digit (of_char b div 16) # hex_digit (of_char b mod 16) # hex_EncodeToString bs"

definition from_hex_char :: "char \<Rightarrow> nat option" where
  "from_hex_char c = (let n = of_char c in
     if 48 \<le> n \<and> n \<le> 57 then Some (n - 48)
     else if 97 \<le> n \<and> n \<le> 102 then Some (n - 87)
     else if 65 \<le> n \<and> n \<le> 70 then Some (n - 55)
     else None)"

text \<open>\<open>hex.DecodeString\<close>: \<open>None\<close> on an odd length or a character that is no digit.\<close>

fun hex_DecodeString :: "string \<Rightarrow> bytes option" where
  "hex_DecodeString [] = Some []"
| "hex_DecodeString [c] = None"
| "hex_DecodeString (c # d # cs) =
     (case (from_hex_char c, from_hex_char d, hex_DecodeString cs) of
        (Some h, Some l, Some bs) \<Rightarrow> Some (char_of (16 * h + l) # bs)
      | _ \<Rightarrow> None)"

lemma of_char_less: "(of_char c :: nat) < 256"
  using of_char_of [where ?'a = nat, of "of_char c"]
  by (metis char_of_char mod_less_divisor of_char_of zero_less_numeral)

lemma of_char_div_16: "(of_char c :: nat) div 16 < 16"
  by (rule less_mult_imp_div_less) (simp add: of_char_less)

lemma from_hex_digit: "n < 16 \<Longrightarrow> from_hex_char (hex_digit n) = Some n"
  by (auto simp: from_hex_char_def hex_digit_def Let_def)

lemma hex_roundtrip [simp]: "hex_DecodeString (hex_EncodeToString bs) = Some bs"
  by (induction bs) (simp_all add: from_hex_digit of_char_div_16)

lemma hex_encode_Nil_iff [simp]: "hex_EncodeToString bs = [] \<longleftrightarrow> bs = []"
  by (cases bs) simp_all

section \<open>UTF-8\<close>

definition in_range :: "char \<Rightarrow> nat \<Rightarrow> nat \<Rightarrow> bool" where
  "in_range c lo hi \<longleftrightarrow> lo \<le> of_char c \<and> of_char c \<le> hi"

text \<open>
  The number of bytes of the rune at the head of a string, 0 where the encoding is
  invalid (\<open>utf8.DecodeRuneInString\<close> returns \<open>RuneError, 1\<close>).
\<close>

fun rune_len :: "string \<Rightarrow> nat" where
  "rune_len [] = 0"
| "rune_len (a # s) =
     (if in_range a 0 127 then 1
      else if in_range a 194 223 then
        (case s of b # _ \<Rightarrow> if in_range b 128 191 then 2 else 0 | _ \<Rightarrow> 0)
      else if in_range a 224 239 then
        (case s of b # c # _ \<Rightarrow>
           if in_range b (if of_char a = (224 :: nat) then 160 else 128)
                         (if of_char a = (237 :: nat) then 159 else 191)
              \<and> in_range c 128 191 then 3 else 0
         | _ \<Rightarrow> 0)
      else if in_range a 240 244 then
        (case s of b # c # d # _ \<Rightarrow>
           if in_range b (if of_char a = (240 :: nat) then 144 else 128)
                         (if of_char a = (244 :: nat) then 143 else 191)
              \<and> in_range c 128 191 \<and> in_range d 128 191 then 4 else 0
         | _ \<Rightarrow> 0)
      else 0)"

lemma rune_len_le: "rune_len s \<le> length s"
  by (cases s) (auto split: list.splits)

function utf8_ValidString :: "string \<Rightarrow> bool" where
  "utf8_ValidString s = (if s = [] then True else if rune_len s = 0 then False
     else utf8_ValidString (drop (rune_len s) s))"
  by auto
termination
  by (relation "measure length") (auto dest: length_greater_0_conv [THEN iffD2])

declare utf8_ValidString.simps [simp del]

lemma utf8_ascii: "list_all (\<lambda>c. in_range c 0 127) s \<Longrightarrow> utf8_ValidString s"
  by (induction s) (simp_all add: utf8_ValidString.simps)

text \<open>U+FFFD, which replaces an invalid byte.\<close>

definition replacement :: string where
  "replacement = [CHR 0xEF, CHR 0xBF, CHR 0xBD]"

function to_valid_utf8 :: "string \<Rightarrow> string" where
  "to_valid_utf8 s = (if s = [] then []
     else if rune_len s = 0 then replacement @ to_valid_utf8 (drop 1 s)
     else take (rune_len s) s @ to_valid_utf8 (drop (rune_len s) s))"
  by auto
termination
  by (relation "measure length") (auto dest: length_greater_0_conv [THEN iffD2])

declare to_valid_utf8.simps [simp del]

lemma to_valid_utf8_id: "utf8_ValidString s \<Longrightarrow> to_valid_utf8 s = s"
proof (induction s rule: utf8_ValidString.induct)
  case (1 s)
  show ?case
  proof (cases "s = []")
    case False
    with 1 have "rune_len s > 0" and "utf8_ValidString (drop (rune_len s) s)"
      by (simp_all add: utf8_ValidString.simps [of s] split: if_splits)
    with 1 False show ?thesis
      by (simp add: to_valid_utf8.simps [of s])
  qed (simp add: to_valid_utf8.simps)
qed

section \<open>JSON strings\<close>

definition json_u00 :: "nat \<Rightarrow> string" where
  "json_u00 n = CHR 0x5C # ''u00'' @ [hex_digit (n div 16), hex_digit (n mod 16)]"

text \<open>One ASCII character, with the HTML characters escaped.\<close>

definition json_ascii :: "char \<Rightarrow> string" where
  "json_ascii c =
     (if c = CHR 0x22 \<or> c = CHR 0x5C then [CHR 0x5C, c]
      else if c = CHR 0x08 then [CHR 0x5C, CHR ''b'']
      else if c = CHR 0x0C then [CHR 0x5C, CHR ''f'']
      else if c = CHR 0x0A then [CHR 0x5C, CHR ''n'']
      else if c = CHR 0x0D then [CHR 0x5C, CHR ''r'']
      else if c = CHR 0x09 then [CHR 0x5C, CHR ''t'']
      else if of_char c < (32 :: nat) \<or> c \<in> set ''<>&'' then json_u00 (of_char c)
      else [c])"

definition json_rune :: "string \<Rightarrow> string" where
  "json_rune r =
     (if length r = 1 then json_ascii (hd r)
      else if r = [CHR 0xE2, CHR 0x80, CHR 0xA8] then CHR 0x5C # ''u2028''
      else if r = [CHR 0xE2, CHR 0x80, CHR 0xA9] then CHR 0x5C # ''u2029''
      else r)"

function json_string_body :: "string \<Rightarrow> string" where
  "json_string_body s = (if s = [] then []
     else if rune_len s = 0 then CHR 0x5C # ''ufffd'' @ json_string_body (drop 1 s)
     else json_rune (take (rune_len s) s) @ json_string_body (drop (rune_len s) s))"
  by auto
termination
  by (relation "measure length") (auto dest: length_greater_0_conv [THEN iffD2])

declare json_string_body.simps [simp del]

text \<open>\<open>json.Marshal\<close> of a string.\<close>

definition json_string :: "string \<Rightarrow> string" where
  "json_string s = CHR 0x22 # json_string_body s @ [CHR 0x22]"

definition json_bool :: "bool \<Rightarrow> string" where
  "json_bool b = (if b then ''true'' else ''false'')"

fun join :: "string \<Rightarrow> string list \<Rightarrow> string" where
  "join sep [] = []"
| "join sep [s] = s"
| "join sep (s # t # ss) = s @ sep @ join sep (t # ss)"

section \<open>White space\<close>

text \<open>The UTF-8 encodings of the code points for which \<open>unicode.IsSpace\<close> holds.\<close>

definition space_runes :: "string list" where
  "space_runes = map (map char_of) ([[9], [10], [11], [12], [13], [32], [0xC2, 0x85], [0xC2, 0xA0], [0xE1, 0x9A, 0x80],
     [0xE2, 0x80, 0x80], [0xE2, 0x80, 0x81], [0xE2, 0x80, 0x82], [0xE2, 0x80, 0x83], [0xE2, 0x80, 0x84],
     [0xE2, 0x80, 0x85], [0xE2, 0x80, 0x86], [0xE2, 0x80, 0x87], [0xE2, 0x80, 0x88], [0xE2, 0x80, 0x89],
     [0xE2, 0x80, 0x8A], [0xE2, 0x80, 0xA8], [0xE2, 0x80, 0xA9], [0xE2, 0x80, 0xAF], [0xE2, 0x81, 0x9F],
     [0xE3, 0x80, 0x80]] :: nat list list)"

function trim_left :: "string list \<Rightarrow> string \<Rightarrow> string" where
  "trim_left ps s = (case List.find (\<lambda>p. p \<noteq> [] \<and> length p \<le> length s \<and> take (length p) s = p) ps of
     None \<Rightarrow> s | Some p \<Rightarrow> trim_left ps (drop (length p) s))"
  by pat_completeness auto
termination
  by (relation "measure (\<lambda>(ps, s). length s)") (auto simp: find_Some_iff intro!: diff_less)

declare trim_left.simps [simp del]

definition TrimSpace :: "string \<Rightarrow> string" where
  "TrimSpace s = rev (trim_left (map rev space_runes) (rev (trim_left space_runes s)))"

end
