(* ===== verification/Externals.thy ===== *)
theory Externals
  imports Models
begin

text \<open>
  The code the server calls and that is not part of the repository: the cryptographic
  primitives, the \<open>google/uuid\<close> package and the other third-party modules.  They are
  the fields of one record, an argument of every definition that uses them; what a
  theorem relies on is stated as a hypothesis on the field.
\<close>

record ext =
  sha256 :: "bytes \<Rightarrow> bytes"
  uuid_String :: "uuid \<Rightarrow> string"
  uuid_Parse :: "string \<Rightarrow> uuid option"
  ed25519_Sign :: "bytes \<Rightarrow> bytes \<Rightarrow> bytes"
  ed25519_Verify :: "bytes \<Rightarrow> bytes \<Rightarrow> bytes \<Rightarrow> bool"
  hmac_sha1 :: "bytes \<Rightarrow> bytes \<Rightarrow> bytes"
  hmac_sha256 :: "bytes \<Rightarrow> bytes \<Rightarrow> bytes"
  hkdf_sha256 :: "bytes \<Rightarrow> bytes \<Rightarrow> bytes \<Rightarrow> nat \<Rightarrow> bytes"
  gcm_seal :: "bytes \<Rightarrow> bytes \<Rightarrow> bytes \<Rightarrow> bytes \<Rightarrow> bytes"
  gcm_open :: "bytes \<Rightarrow> bytes \<Rightarrow> bytes \<Rightarrow> bytes \<Rightarrow> bytes option"
  argon2_IDKey :: "bytes \<Rightarrow> bytes \<Rightarrow> nat \<Rightarrow> nat \<Rightarrow> nat \<Rightarrow> nat \<Rightarrow> bytes"

text \<open>\<open>crypto/sha256\<close>: the digest has 32 bytes.\<close>

definition sha256_size :: "ext \<Rightarrow> bool" where
  "sha256_size X \<longleftrightarrow> (\<forall>b. length (sha256 X b) = 32)"

text \<open>A set of inputs on which the digest has no collision.\<close>

definition sha256_collision_free :: "ext \<Rightarrow> bytes set \<Rightarrow> bool" where
  "sha256_collision_free X S \<longleftrightarrow> inj_on (sha256 X) S"

section \<open>A concrete instance\<close>

text \<open>
  Stand-ins with which the hypotheses on the external code are shown to be satisfiable
  and the theorems are applied to concrete inputs.  The digest is the input read as a
  number to the base 256, modulo the prime \<open>2 ^ 127 - 1\<close>, plus one, in 32 bytes.
\<close>

fun nat_of_bytes :: "bytes \<Rightarrow> nat \<Rightarrow> nat" where
  "nat_of_bytes [] acc = acc"
| "nat_of_bytes (b # bs) acc = nat_of_bytes bs ((acc * 256 + of_char b) mod (2 ^ 127 - 1))"

fun bytes_of_nat :: "nat \<Rightarrow> nat \<Rightarrow> bytes" where
  "bytes_of_nat 0 n = []"
| "bytes_of_nat (Suc k) n = char_of (n mod 256) # bytes_of_nat k (n div 256)"

lemma length_bytes_of_nat [simp]: "length (bytes_of_nat k n) = k"
  by (induction k n rule: bytes_of_nat.induct) simp_all

lemma take_bytes_of_nat: "j \<le> k \<Longrightarrow> take j (bytes_of_nat k n) = bytes_of_nat j n"
proof (induction k n arbitrary: j rule: bytes_of_nat.induct)
  case (2 k n)
  then show ?case by (cases j) simp_all
qed simp

lemma bytes_of_nat_inj:
  "bytes_of_nat k m = bytes_of_nat k n \<Longrightarrow> m < 256 ^ k \<Longrightarrow> n < 256 ^ k \<Longrightarrow> m = n"
proof (induction k m arbitrary: n rule: bytes_of_nat.induct)
  case (2 k m)
  have "(of_char (char_of (m mod 256)) :: nat) = of_char (char_of (n mod 256))" using "2.prems"(1) by simp
  then have "m mod 256 = n mod 256" by simp
  moreover have "m div 256 = n div 256"
    using "2.prems" by (intro "2.IH") (simp_all add: less_mult_imp_div_less mult.commute)
  ultimately show ?case by (metis div_mult_mod_eq)
qed simp

lemma nat_of_bytes_snoc:
  "nat_of_bytes (b @ [c]) acc = (nat_of_bytes b acc * 256 + of_char c) mod (2 ^ 127 - 1)"
  by (induction b acc rule: nat_of_bytes.induct) simp_all

definition demo_sha256 :: "bytes \<Rightarrow> bytes" where
  "demo_sha256 b = bytes_of_nat 32 (nat_of_bytes b 7 + 1)"

lemma length_demo_sha256 [simp]: "length (demo_sha256 b) = 32"
  by (simp add: demo_sha256_def)

definition demo_ext :: ext where
  "demo_ext = \<lparr>sha256 = demo_sha256,
     uuid_String = (\<lambda>u. [char_of u]), uuid_Parse = (\<lambda>s. case s of [c] \<Rightarrow> Some (of_char c) | _ \<Rightarrow> None),
     ed25519_Sign = (\<lambda>priv m. priv @ m), ed25519_Verify = (\<lambda>pub m s. s = pub @ m),
     hmac_sha1 = (\<lambda>k m. take 20 (demo_sha256 (k @ m))),
     hmac_sha256 = (\<lambda>k m. demo_sha256 (k @ m)),
     hkdf_sha256 = (\<lambda>s salt info n. take n (demo_sha256 (s @ salt @ info))),
     gcm_seal = (\<lambda>k n p a. p @ take 16 (demo_sha256 (k @ n @ p @ a))),
     gcm_open = (\<lambda>k n c a. let p = take (length c - 16) c in
        if 16 \<le> length c \<and> drop (length c - 16) c = take 16 (demo_sha256 (k @ n @ p @ a))
        then Some p else None),
     argon2_IDKey = (\<lambda>pw salt t m p n. bytes_of_nat n (nat_of_bytes (pw @ salt) (t + m + p)))\<rparr>"

lemma demo_sha256_size: "sha256_size demo_ext"
  by (simp add: sha256_size_def demo_ext_def demo_sha256_def)

end
