(* ===== verification/Audit_Chain.thy ===== *)
theory Audit_Chain
  imports Store Codec Externals
begin

text \<open>
  The hash-chained audit log: the canonical form of a row, the writer that appends rows
  under a lock on the chain head (\<open>internal/audit/chain.go\<close>), the verifier that walks
  the chain and looks up anchored heads (\<open>internal/audit/verify.go\<close>), the signer of
  heads (\<open>internal/audit/anchor.go\<close>) and the two jobs that run them.

  A JSON document that travels to or from a JSONB column is represented by the value it
  denotes; Postgres keeps the value and returns object members ordered by key length
  and then bytewise.
\<close>

section \<open>Canonical JSON\<close>

text \<open>
  \<open>sortStrings\<close>: the inner loop moves the element at \<open>j\<close> to the left while its
  neighbour is greater.
\<close>

fun sortStrings_inner :: "string list \<Rightarrow> nat \<Rightarrow> string list" where
  "sortStrings_inner s 0 = s"
| "sortStrings_inner s (Suc j) =
     (if s ! j > s ! Suc j then sortStrings_inner (s[j := s ! Suc j, Suc j := s ! j]) j else s)"

definition sortStrings :: "string list \<Rightarrow> string list" where
  "sortStrings s = fold (\<lambda>i s. sortStrings_inner s i) [1..<length s] s"

fun encodeSorted :: "json \<Rightarrow> bytes" where
  "encodeSorted (JObject ms) =
     (let enc = map (\<lambda>(k, v). (k, encodeSorted v)) ms in
      ''{'' @ join '','' (map (\<lambda>k. json_string k @ '':'' @ the (map_of enc k))
                          (sortStrings (map fst ms))) @ ''}'')"
| "encodeSorted (JArray vs) = ''['' @ join '','' (map encodeSorted vs) @ '']''"
| "encodeSorted JNull = ''null''"
| "encodeSorted (JBool b) = json_bool b"
| "encodeSorted (JNumber t) = t"
| "encodeSorted (JString s) = json_string s"

text \<open>
  \<open>json.Unmarshal(json.Marshal(v))\<close>: strings come back as valid UTF-8; the members of
  an object are printed in the order of their keys and read into a map, where the last
  member of a key wins.
\<close>

fun assign_all :: "(string \<times> json) list \<Rightarrow> (string \<times> json) list \<Rightarrow> (string \<times> json) list" where
  "assign_all [] acc = acc"
| "assign_all ((k, v) # ms) acc =
     assign_all ms (if k \<in> fst ` set acc then map (\<lambda>(k', v'). if k' = k then (k', v) else (k', v')) acc
                    else acc @ [(k, v)])"

fun json_remarshal :: "json \<Rightarrow> json" where
  "json_remarshal (JObject ms) =
     JObject (assign_all (map snd (sort_key fst
       (map (\<lambda>(k, v). (k, (to_valid_utf8 k, json_remarshal v))) ms))) [])"
| "json_remarshal (JArray vs) = JArray (map json_remarshal vs)"
| "json_remarshal (JString s) = JString (to_valid_utf8 s)"
| "json_remarshal JNull = JNull"
| "json_remarshal (JBool b) = JBool b"
| "json_remarshal (JNumber t) = JNumber t"

definition marshalSorted :: "json \<Rightarrow> bytes" where
  "marshalSorted v = encodeSorted (json_remarshal v)"

definition canonicalJSON :: "(string \<times> json) list \<Rightarrow> bytes" where
  "canonicalJSON m = (if m = [] then ''{}'' else marshalSorted (JObject m))"

section \<open>Canonical rows\<close>

record Event =
  evt_user_id :: "uuid option"
  evt_action :: AuditAction
  evt_target_id :: "uuid option"
  evt_ip :: "string option"
  evt_user_agent :: string
  evt_metadata :: "(string \<times> json) list"

record canonicalDoc =
  cd_action :: string
  cd_created_at :: int
  cd_ip :: string
  cd_metadata :: bytes
  cd_target_id :: string
  cd_user_agent :: string
  cd_user_id :: string

text \<open>\<open>json.Marshal(doc)\<close>: struct fields in declaration order, the raw message as it is.\<close>

definition marshal_canonicalDoc :: "canonicalDoc \<Rightarrow> bytes" where
  "marshal_canonicalDoc d =
     ''{'' @ json_string ''action'' @ '':'' @ json_string (cd_action d) @
     '','' @ json_string ''created_at'' @ '':'' @ show_int (cd_created_at d) @
     '','' @ json_string ''ip'' @ '':'' @ json_string (cd_ip d) @
     '','' @ json_string ''metadata'' @ '':'' @ cd_metadata d @
     '','' @ json_string ''target_id'' @ '':'' @ json_string (cd_target_id d) @
     '','' @ json_string ''user_agent'' @ '':'' @ json_string (cd_user_agent d) @
     '','' @ json_string ''user_id'' @ '':'' @ json_string (cd_user_id d) @ ''}''"

definition canonicalRow :: "ext \<Rightarrow> Event \<Rightarrow> time \<Rightarrow> bytes" where
  "canonicalRow X ev ts =
     (let ip = (case evt_ip ev of None \<Rightarrow> '''' | Some a \<Rightarrow> a);
          target = (case evt_target_id ev of None \<Rightarrow> '''' | Some u \<Rightarrow> uuid_String X u);
          user = (case evt_user_id ev of None \<Rightarrow> '''' | Some u \<Rightarrow> uuid_String X u);
          meta = canonicalJSON (evt_metadata ev)
      in marshal_canonicalDoc
           \<lparr>cd_action = action_string (evt_action ev), cd_created_at = ts, cd_ip = ip,
            cd_metadata = meta, cd_target_id = target,
            cd_user_agent = evt_user_agent ev, cd_user_id = user\<rparr>)"

text \<open>\<open>time.Now().UTC().Truncate(time.Microsecond)\<close> is the clock of the model.\<close>

section \<open>Appending\<close>

definition systemKeyChainHead :: string where
  "systemKeyChainHead = ''audit_chain_head''"

definition genesisHash :: bytes where
  "genesisHash = replicate 32 (CHR 0x00)"

text \<open>
  \<open>json.Unmarshal\<close> into a string: \<open>null\<close> leaves the string empty, any other value that
  is no string is an error.
\<close>

fun decodeHashHexJSON :: "json \<Rightarrow> bytes result" where
  "decodeHashHexJSON (JString s) =
     (if s = '''' then Inr genesisHash
      else case hex_DecodeString s of None \<Rightarrow> Inl (Msg ''encoding/hex'') | Some b \<Rightarrow> Inr b)"
| "decodeHashHexJSON JNull = Inr genesisHash"
| "decodeHashHexJSON _ = Inl (Msg ''json: cannot unmarshal into string'')"

text \<open>The value of the document that \<open>metadataBytes\<close> builds.\<close>

definition metadataBytes :: "(string \<times> json) list \<Rightarrow> json" where
  "metadataBytes m = (if m = [] then JObject [] else json_remarshal (JObject m))"

definition pgtypeTextFrom :: "string \<Rightarrow> string option" where
  "pgtypeTextFrom s = (if s = '''' then None else Some s)"

text \<open>What Postgres accepts as TEXT and in a JSONB string, and how it returns JSONB.\<close>

definition pg_text_ok :: "string \<Rightarrow> bool" where
  "pg_text_ok s \<longleftrightarrow> utf8_ValidString s \<and> CHR 0x00 \<notin> set s"

fun json_nul_free :: "json \<Rightarrow> bool" where
  "json_nul_free (JObject ms) \<longleftrightarrow> list_all (\<lambda>(k, v). CHR 0x00 \<notin> set k \<and> json_nul_free v) ms"
| "json_nul_free (JArray vs) \<longleftrightarrow> list_all json_nul_free vs"
| "json_nul_free (JString s) \<longleftrightarrow> CHR 0x00 \<notin> set s"
| "json_nul_free _ \<longleftrightarrow> True"

fun jsonb :: "json \<Rightarrow> json" where
  "jsonb (JObject ms) =
     JObject (sort_key (\<lambda>m. length (fst m)) (sort_key fst (map (\<lambda>(k, v). (k, jsonb v)) ms)))"
| "jsonb (JArray vs) = JArray (map jsonb vs)"
| "jsonb v = v"

definition select_system_value :: "string \<Rightarrow> json act" where
  "select_system_value key =
     queryRow (\<lambda>w. map_option ss_value (List.find (\<lambda>r. ss_key r = key) (system_state (w_db w))))"

text \<open>
  \<open>INSERT INTO audit_log ... RETURNING id\<close>.  The number comes from a sequence, which a
  rollback does not rewind.  The insert policy admits the system only.
\<close>

definition insert_audit_log :: "AuditLog \<Rightarrow> int act" where
  "insert_audit_log row = stmt (\<lambda>w.
     (let i = w_audit_seq w + 1; w' = w\<lparr>w_audit_seq := i\<rparr> in
      if \<not> w_bypass w then (Inl (PgError ''42501''), w')
      else if \<not> (case al_user_agent row of None \<Rightarrow> True | Some s \<Rightarrow> pg_text_ok s)
      then (Inl (PgError ''22021''), w')
      else if \<not> (case al_metadata row of None \<Rightarrow> True | Some v \<Rightarrow> json_nul_free v)
      then (Inl (PgError ''22P05''), w')
      else (Inr i, w'\<lparr>w_db := (w_db w)\<lparr>audit_log := audit_log (w_db w) @
              [row\<lparr>al_id := i, al_metadata := map_option jsonb (al_metadata row)\<rparr>]\<rparr>\<rparr>)))"

definition update_chain_head :: "json \<Rightarrow> unit act" where
  "update_chain_head v = exec (\<lambda>w. (w_db w)\<lparr>system_state :=
     upd_where (\<lambda>r. ss_key r = systemKeyChainHead) (\<lambda>r. r\<lparr>ss_value := v, ss_updated_at := w_now w\<rparr>)
       (system_state (w_db w))\<rparr>)"

definition Append :: "ext \<Rightarrow> Event \<Rightarrow> AuditLog act" where
  "Append X ev =
     thenE (mapErr (Wrap ''audit: begin tx'') BeginTx)
     (defer_rollback
       (thenE (mapErr (Wrap ''audit: set bypass'') set_bypass)
       (bindE (mapErr (Wrap ''audit: load head'') (select_system_value systemKeyChainHead)) (\<lambda>headRaw.
        bindE (mapErr (Wrap ''audit: decode head'') (liftE (decodeHashHexJSON headRaw))) (\<lambda>prev.
        bindE now (\<lambda>ts.
          let canonical = canonicalRow X ev ts;
              self = sha256 X (prev @ canonical);
              row = \<lparr>al_id = 0, al_user_id = evt_user_id ev, al_action = evt_action ev,
                     al_target_id = evt_target_id ev, al_ip = evt_ip ev,
                     al_user_agent = pgtypeTextFrom (evt_user_agent ev),
                     al_metadata = Some (metadataBytes (evt_metadata ev)),
                     al_prev_hash = prev, al_self_hash = self, al_created_at = ts\<rparr>
          in bindE (mapErr (Wrap ''audit: insert'') (insert_audit_log row)) (\<lambda>i.
             thenE (mapErr (Wrap ''audit: update head'')
                      (update_chain_head (JString (hex_EncodeToString self))))
             (thenE (mapErr (Wrap ''audit: commit'') Commit)
             (returnE (row\<lparr>al_id := i\<rparr>))))))))))"

text \<open>\<open>AppendOrLog\<close>: the error goes to the log.\<close>

definition AppendOrLog :: "ext \<Rightarrow> Event \<Rightarrow> unit act" where
  "AppendOrLog X ev = bindE (tryE (Append X ev)) (\<lambda>_. returnE ())"

section \<open>Verification\<close>

record VerifyResult =
  vr_Height :: int
  vr_Head :: bytes
  vr_Computed :: bytes
  vr_FirstBadID :: int

fun hashesEqual_loop :: "bytes \<Rightarrow> bytes \<Rightarrow> bool" where
  "hashesEqual_loop (x # a) (y # b) = (if x \<noteq> y then False else hashesEqual_loop a b)"
| "hashesEqual_loop _ _ = True"

definition hashesEqual :: "bytes \<Rightarrow> bytes \<Rightarrow> bool" where
  "hashesEqual a b = (if length a \<noteq> length b then False else hashesEqual_loop a b)"

definition OK :: "VerifyResult \<Rightarrow> bool" where
  "OK r = (if vr_FirstBadID r \<noteq> 0 then False else hashesEqual (vr_Head r) (vr_Computed r))"

definition isJSONNull :: "json \<Rightarrow> bool" where
  "isJSONNull v \<longleftrightarrow> v = JNull"

text \<open>The metadata of a stored row: a document that is no object leaves the map nil.\<close>

definition row_event :: "AuditLog \<Rightarrow> Event" where
  "row_event row = \<lparr>evt_user_id = al_user_id row, evt_action = al_action row,
     evt_target_id = al_target_id row, evt_ip = al_ip row,
     evt_user_agent = (case al_user_agent row of None \<Rightarrow> '''' | Some s \<Rightarrow> s),
     evt_metadata = (case al_metadata row of
         None \<Rightarrow> []
       | Some v \<Rightarrow> (if isJSONNull v then [] else case v of JObject ms \<Rightarrow> ms | _ \<Rightarrow> []))\<rparr>"

definition computeSelfHash :: "ext \<Rightarrow> bytes \<Rightarrow> AuditLog \<Rightarrow> bytes" where
  "computeSelfHash X prev row =
     sha256 X (prev @ canonicalRow X (row_event row) (al_created_at row))"

definition fetchBatchTx :: "nat \<Rightarrow> int \<Rightarrow> AuditLog list act" where
  "fetchBatchTx batchSize fromID = query (\<lambda>w.
     take batchSize (sort_key al_id (filter (\<lambda>r. al_id r > fromID \<and>
        (w_bypass w \<or> (w_user w \<noteq> None \<and> al_user_id r = w_user w))) (audit_log (w_db w)))))"

definition loadHeadTx :: "bytes act" where
  "loadHeadTx = bindE (select_system_value systemKeyChainHead) (\<lambda>raw. liftE (decodeHashHexJSON raw))"

text \<open>The body of the loop over a batch: \<open>prev\<close>, \<open>lastID\<close> and \<open>firstBad\<close>.\<close>

fun verify_row :: "ext \<Rightarrow> AuditLog \<Rightarrow> bytes \<times> int \<times> int \<Rightarrow> bytes \<times> int \<times> int" where
  "verify_row X row (prev, lastID, firstBad) =
     (let expected = computeSelfHash X prev row;
          firstBad1 = (if \<not> hashesEqual expected (al_self_hash row) \<and> firstBad = 0
                       then al_id row else firstBad);
          firstBad2 = (if \<not> hashesEqual prev (al_prev_hash row) \<and> firstBad1 = 0
                       then al_id row else firstBad1)
      in (al_self_hash row, al_id row, firstBad2))"

text \<open>The loop over the batches: the ids only grow, so it ends.\<close>

definition unseen :: "int \<Rightarrow> world \<Rightarrow> nat" where
  "unseen i w = length (filter (\<lambda>r. al_id r > i) (audit_log (w_db w)))"

lemma verify_row_id: "fst (snd (verify_row X row st)) = al_id row"
  by (cases st) (simp add: Let_def)

lemma verify_rows_last:
  "rows \<noteq> [] \<Longrightarrow> fst (snd (fold (verify_row X) rows st)) = al_id (last rows)"
  by (induction rows arbitrary: st rule: rev_induct) (auto simp: verify_row_id)

lemma fetchBatchTx_rows:
  "fetchBatchTx n i w = (Inr rows, w') \<Longrightarrow> r \<in> set rows \<Longrightarrow>
     r \<in> set (audit_log (w_db w)) \<and> i < al_id r"
  by (auto simp: fetchBatchTx_def query_def stmt_def getsE_def dest!: in_set_takeD
      split: list.splits fault.splits)

lemma fetchBatchTx_db: "w_db (snd (fetchBatchTx n i w)) = w_db w"
  by (simp add: fetchBatchTx_def query_def stmt_def getsE_def split: list.splits fault.splits)

lemma unseen_less:
  assumes "r \<in> set (audit_log (w_db w))" and "i < al_id r" and "w_db w' = w_db w"
  shows "unseen (al_id r) w' < unseen i w"
proof -
  have "filter (\<lambda>s. al_id r < al_id s) (audit_log (w_db w)) =
      filter (\<lambda>s. al_id r < al_id s) (filter (\<lambda>s. i < al_id s) (audit_log (w_db w)))"
    using assms(2) by (auto intro!: filter_cong)
  moreover have "length (filter (\<lambda>s. al_id r < al_id s) (filter (\<lambda>s. i < al_id s) (audit_log (w_db w))))
      < length (filter (\<lambda>s. i < al_id s) (audit_log (w_db w)))"
    by (rule length_filter_less [of r]) (use assms in auto)
  ultimately show ?thesis using assms(3) by (simp add: unseen_def)
qed

function verify_loop :: "ext \<Rightarrow> nat \<Rightarrow> bytes \<times> int \<times> int \<Rightarrow> (bytes \<times> int \<times> int) act" where
  "verify_loop X n st w =
     (case fetchBatchTx n (fst (snd st)) w of
        (Inl e, w') \<Rightarrow> (Inl e, w')
      | (Inr rows, w') \<Rightarrow>
          (if rows = [] then (Inr st, w')
           else verify_loop X n (fold (verify_row X) rows st) w'))"
  by auto
termination
proof (relation "measure (\<lambda>(X, n, st, w). unseen (fst (snd st)) w)", goal_cases)
  case (2 X n st w r w' rows)
  then have fetch: "fetchBatchTx n (fst (snd st)) w = (Inr rows, w')" and "rows \<noteq> []"
    by auto
  then have "last rows \<in> set (audit_log (w_db w))" and "fst (snd st) < al_id (last rows)"
    using fetchBatchTx_rows [OF fetch, of "last rows"] by auto
  with fetch \<open>rows \<noteq> []\<close> show ?case
    using unseen_less [of "last rows" w "fst (snd st)" w'] fetchBatchTx_db [of n "fst (snd st)" w]
    by (simp add: verify_rows_last)
qed simp

declare verify_loop.simps [simp del]

definition batchSize :: nat where
  "batchSize = 1024"

definition Run :: "ext \<Rightarrow> VerifyResult act" where
  "Run X =
     thenE (mapErr (Wrap ''verify: begin tx'') BeginTx)
     (defer_rollback
       (thenE (mapErr (Wrap ''verify: set bypass'') set_bypass)
       (bindE (mapErr (Wrap ''load head'') loadHeadTx) (\<lambda>head.
        bindE (verify_loop X batchSize (genesisHash, 0, 0)) (\<lambda>(prev, lastID, firstBad).
        returnE \<lparr>vr_Height = lastID, vr_Head = head, vr_Computed = prev,
                 vr_FirstBadID = firstBad\<rparr>)))))"

text \<open>The loop of \<open>AnchorInHistory\<close> over one batch: found, or the state after it.\<close>

fun anchor_rows :: "ext \<Rightarrow> bytes \<Rightarrow> AuditLog list \<Rightarrow> bytes \<times> int \<Rightarrow> (bytes \<times> int) option" where
  "anchor_rows X anchored [] st = Some st"
| "anchor_rows X anchored (row # rows) (prev, lastID) =
     (if hashesEqual (computeSelfHash X prev row) anchored then None
      else anchor_rows X anchored rows (al_self_hash row, al_id row))"

lemma anchor_rows_last:
  "anchor_rows X anchored rows st = Some st' \<Longrightarrow> rows \<noteq> [] \<Longrightarrow> snd st' = al_id (last rows)"
  by (induction X anchored rows st rule: anchor_rows.induct) (auto split: if_splits)

function anchor_loop :: "ext \<Rightarrow> nat \<Rightarrow> bytes \<Rightarrow> bytes \<times> int \<Rightarrow> bool act" where
  "anchor_loop X n anchored st w =
     (case fetchBatchTx n (snd st) w of
        (Inl e, w') \<Rightarrow> (Inl e, w')
      | (Inr rows, w') \<Rightarrow>
          (if rows = [] then (Inr False, w')
           else case anchor_rows X anchored rows st of
                  None \<Rightarrow> (Inr True, w')
                | Some st' \<Rightarrow> anchor_loop X n anchored st' w'))"
  by auto
termination
proof (relation "measure (\<lambda>(X, n, a, st, w). unseen (snd st) w)", goal_cases)
  case (2 X n a st w r w' rows st')
  then have fetch: "fetchBatchTx n (snd st) w = (Inr rows, w')" and "rows \<noteq> []"
    and st': "anchor_rows X a rows st = Some st'"
    by auto
  then have "last rows \<in> set (audit_log (w_db w))" and "snd st < al_id (last rows)"
    using fetchBatchTx_rows [OF fetch, of "last rows"] by auto
  with fetch \<open>rows \<noteq> []\<close> show ?case
    using unseen_less [of "last rows" w "snd st" w'] fetchBatchTx_db [of n "snd st" w]
      anchor_rows_last [OF st']
    by simp
qed simp

declare anchor_loop.simps [simp del]

definition AnchorInHistory :: "ext \<Rightarrow> bytes \<Rightarrow> bool act" where
  "AnchorInHistory X anchored =
     (if anchored = [] then returnE False
      else if hashesEqual anchored genesisHash then returnE True
      else thenE (mapErr (Wrap ''anchor history: begin tx'') BeginTx)
        (defer_rollback
          (thenE (mapErr (Wrap ''anchor history: set bypass'') set_bypass)
             (anchor_loop X batchSize anchored (genesisHash, 0)))))"

definition HexHead :: "bytes \<Rightarrow> string" where
  "HexHead b = hex_EncodeToString (if length b > 8 then take 8 b else b)"

end
