(* ===== verification/Audit_Proofs.thy ===== *)
theory Audit_Proofs
  imports Audit_Chain
begin

text \<open>
  What the audit chain guarantees.  The insertion sort of the keys sorts, so canonical
  JSON is independent of the order of members; the batched walks visit every row once
  and end; an append under any fault plan is atomic and preserves the invariant of the
  chain; equal heads mean equal logs; an anchor pins the rows below it.
\<close>

section \<open>The insertion sort\<close>

lemma sortStrings_inner_insort:
  "sorted xs \<Longrightarrow> sortStrings_inner (xs @ x # ys) (length xs) = insort x xs @ ys"
proof (induction xs arbitrary: ys rule: rev_induct)
  case (snoc y xs)
  then have "sorted xs" and le: "\<forall>z \<in> set xs. z \<le> y"
    by (auto simp: sorted_append)
  show ?case
  proof (cases "x < y")
    case True
    have "sortStrings_inner (xs @ x # y # ys) (length xs) = insort x xs @ y # ys"
      using snoc.IH \<open>sorted xs\<close> by simp
    moreover have "insort x (xs @ [y]) = insort x xs @ [y]"
    proof -
      have "sorted (insort x xs @ [y])"
        using True le \<open>sorted xs\<close> by (auto simp: sorted_append set_insort_key sorted_insort)
      then have "sort (insort x (xs @ [y])) = insort x xs @ [y]"
        by (intro properties_for_sort) simp_all
      then show ?thesis
        using snoc.prems by (simp add: sorted_sort_id sorted_insort)
    qed
    ultimately show ?thesis
      using True by (simp add: nth_append list_update_append)
  next
    case False
    have "sort (insort x (xs @ [y])) = xs @ [y, x]"
      using False le snoc.prems by (intro properties_for_sort) (auto simp: sorted_append)
    then have "insort x (xs @ [y]) = xs @ [y, x]"
      using snoc.prems by (simp add: sorted_sort_id sorted_insort)
    with False show ?thesis
      by (simp add: nth_append)
  qed
qed simp

lemma sortStrings_prefix:
  "n \<le> length s \<Longrightarrow> 0 < n \<Longrightarrow>
     fold (\<lambda>i s. sortStrings_inner s i) [1..<n] s = sort (take n s) @ drop n s"
proof (induction n)
  case (Suc n)
  show ?case
  proof (cases "n = 0")
    case True
    with Suc show ?thesis by (cases s) simp_all
  next
    case False
    with Suc have "fold (\<lambda>i s. sortStrings_inner s i) [1..<n] s = sort (take n s) @ s ! n # drop (Suc n) s"
      by (simp add: Cons_nth_drop_Suc)
    moreover have "length (sort (take n s)) = n" using Suc.prems by simp
    ultimately have "fold (\<lambda>i s. sortStrings_inner s i) [1..<Suc n] s =
        insort (s ! n) (sort (take n s)) @ drop (Suc n) s"
      using False sortStrings_inner_insort [of "sort (take n s)" "s ! n" "drop (Suc n) s"] by simp
    also have "insort (s ! n) (sort (take n s)) = sort (take (Suc n) s)"
      using Suc.prems
      by (intro properties_for_sort [symmetric]) (auto simp: take_Suc_conv_app_nth sorted_insort)
    finally show ?thesis .
  qed
qed simp

lemma sortStrings_sort: "sortStrings s = sort s"
  using sortStrings_prefix [of "length s" s] by (cases s) (simp_all add: sortStrings_def)

section \<open>Member order\<close>

lemma map_of_map_snd: "map_of (map (\<lambda>(k, v). (k, f v)) ms) k = map_option f (map_of ms k)"
  by (induction ms) auto

lemma encodeSorted_cong:
  assumes "mset (map fst ms) = mset (map fst ms')"
    and "\<And>k. k \<in> fst ` set ms \<Longrightarrow>
      map_option encodeSorted (map_of ms k) = map_option encodeSorted (map_of ms' k)"
  shows "encodeSorted (JObject ms) = encodeSorted (JObject ms')"
proof -
  have "sort (map fst ms) = sort (map fst ms')"
    using assms(1) by (metis properties_for_sort mset_sort sorted_sort)
  then have "map (\<lambda>k. json_string k @ '':'' @ the (map_option encodeSorted (map_of ms k))) (sort (map fst ms))
      = map (\<lambda>k. json_string k @ '':'' @ the (map_option encodeSorted (map_of ms' k))) (sort (map fst ms'))"
  proof (intro map_cong)
    fix k assume "k \<in> set (sort (map fst ms'))"
    then have "k \<in> fst ` set ms"
      using assms(1) by (metis mset_eq_setD set_map set_sort)
    then show "json_string k @ '':'' @ the (map_option encodeSorted (map_of ms k)) =
        json_string k @ '':'' @ the (map_option encodeSorted (map_of ms' k))"
      using assms(2) by simp
  qed
  then show ?thesis
    by (simp add: sortStrings_sort map_of_map_snd Let_def)
qed


text \<open>
  The metadata that the handlers pass: maps have distinct keys, and keys and strings
  are valid UTF-8 (they are literals of the program or come from decoded messages).
\<close>

fun json_ok :: "json \<Rightarrow> bool" where
  "json_ok (JObject ms) \<longleftrightarrow>
     distinct (map fst ms) \<and> list_all (\<lambda>(k, v). utf8_ValidString k \<and> json_ok v) ms"
| "json_ok (JArray vs) \<longleftrightarrow> list_all json_ok vs"
| "json_ok (JString s) \<longleftrightarrow> utf8_ValidString s"
| "json_ok _ \<longleftrightarrow> True"

lemma map_fst_members: "map fst (map (\<lambda>(k, v). (k, f v)) ms) = map fst ms"
  by (induction ms) auto

lemma members_perm:
  assumes "mset ms' = mset (map (\<lambda>(k, v). (k, f v)) ms)"
  shows members_keys: "mset (map fst ms') = mset (map fst ms)"
    and members_distinct: "distinct (map fst ms') \<longleftrightarrow> distinct (map fst ms)"
    and members_set: "set ms' = set (map (\<lambda>(k, v). (k, f v)) ms)"
proof -
  show keys: "mset (map fst ms') = mset (map fst ms)"
    using assms by (metis map_fst_members mset_map)
  show "distinct (map fst ms') \<longleftrightarrow> distinct (map fst ms)"
    by (rule mset_eq_imp_distinct_iff [OF keys])
  show "set ms' = set (map (\<lambda>(k, v). (k, f v)) ms)"
    by (rule mset_eq_setD [OF assms])
qed

lemma permuted_members:
  assumes "distinct (map fst ms)" and perm: "mset ms' = mset (map (\<lambda>(k, v). (k, f v)) ms)"
    and "\<And>k v. (k, v) \<in> set ms \<Longrightarrow> encodeSorted (f v) = encodeSorted v"
  shows "encodeSorted (JObject ms') = encodeSorted (JObject ms)"
proof (rule encodeSorted_cong [OF members_keys [OF perm]])
  have "distinct (map fst (map (\<lambda>(k, v). (k, f v)) ms))"
    using assms(1) unfolding map_fst_members .
  then have "map_of ms' = map_of (map (\<lambda>(k, v). (k, f v)) ms)"
    using assms(1) members_distinct [OF perm] members_set [OF perm] map_of_inject_set by blast
  then show "map_option encodeSorted (map_of ms' k) = map_option encodeSorted (map_of ms k)"
    if "k \<in> fst ` set ms'" for k
    using assms(3) by (cases "map_of ms k") (auto simp: map_of_map_snd dest: map_of_SomeD)
qed

lemma permuted_members_ok:
  assumes "json_ok (JObject ms)" and perm: "mset ms' = mset (map (\<lambda>(k, v). (k, f v)) ms)"
    and "\<And>k v. (k, v) \<in> set ms \<Longrightarrow> json_ok v \<Longrightarrow> json_ok (f v)"
  shows "json_ok (JObject ms')"
  using assms(1,3) members_distinct [OF perm] members_set [OF perm]
  by (auto simp: list_all_iff)

lemma assign_all_append:
  "distinct (map fst (acc @ ms)) \<Longrightarrow> assign_all ms acc = acc @ ms"
  by (induction ms acc rule: assign_all.induct) auto

lemma remarshal_members:
  assumes "json_ok (JObject ms)"
  shows "\<exists>ms'. json_remarshal (JObject ms) = JObject ms' \<and>
           mset ms' = mset (map (\<lambda>(k, v). (k, json_remarshal v)) ms)"
proof -
  let ?kv = "map (\<lambda>(k, v). (k, (to_valid_utf8 k, json_remarshal v))) ms"
  let ?ms = "map snd (sort_key fst ?kv)"
  have valid: "map snd ?kv = map (\<lambda>(k, v). (k, json_remarshal v)) ms"
    using assms by (auto simp: list_all_iff to_valid_utf8_id)
  have m: "mset ?ms = mset (map (\<lambda>(k, v). (k, json_remarshal v)) ms)"
  proof -
    have "mset (map snd (sort_key fst ?kv)) = mset (map snd ?kv)"
      by (simp only: mset_map mset_sort)
    with valid show ?thesis by (simp only:)
  qed
  then have "distinct (map fst ?ms)"
    using assms members_distinct by fastforce
  then have "json_remarshal (JObject ms) = JObject ?ms"
    by (simp add: assign_all_append)
  with m show ?thesis by blast
qed

lemma encodeSorted_remarshal: "json_ok v \<Longrightarrow> encodeSorted (json_remarshal v) = encodeSorted v"
proof (induction v rule: json_remarshal.induct)
  case (1 ms)
  then obtain ms' where eq: "json_remarshal (JObject ms) = JObject ms'"
    and m: "mset ms' = mset (map (\<lambda>(k, v). (k, json_remarshal v)) ms)"
    using remarshal_members by blast
  have "encodeSorted (JObject ms') = encodeSorted (JObject ms)"
    by (rule permuted_members [OF _ m]) (use 1 in \<open>auto simp: list_all_iff\<close>)
  with eq show ?case by (simp only:)
next
  case (2 vs)
  then show ?case by (simp add: list_all_iff cong: map_cong)
qed (simp_all add: to_valid_utf8_id)

lemma json_ok_remarshal: "json_ok v \<Longrightarrow> json_ok (json_remarshal v)"
proof (induction v rule: json_remarshal.induct)
  case (1 ms)
  then obtain ms' where eq: "json_remarshal (JObject ms) = JObject ms'"
    and m: "mset ms' = mset (map (\<lambda>(k, v). (k, json_remarshal v)) ms)"
    using remarshal_members by blast
  have "json_ok (JObject ms')"
    by (rule permuted_members_ok [OF 1(2) m]) (use 1 in \<open>auto simp: list_all_iff\<close>)
  with eq show ?case by (simp only:)
next
  case (2 vs)
  then show ?case by (simp add: list_all_iff)
qed (simp_all add: to_valid_utf8_id)

lemma encodeSorted_jsonb: "json_ok v \<Longrightarrow> encodeSorted (jsonb v) = encodeSorted v"
proof (induction v rule: jsonb.induct)
  case (1 ms)
  show ?case
    unfolding jsonb.simps
    by (rule permuted_members [of _ _ jsonb]) (use 1 in \<open>auto simp: list_all_iff\<close>)
next
  case (2 vs)
  then show ?case by (simp add: list_all_iff cong: map_cong)
qed simp_all

lemma json_ok_jsonb: "json_ok v \<Longrightarrow> json_ok (jsonb v)"
proof (induction v rule: jsonb.induct)
  case (1 ms)
  show ?case
    unfolding jsonb.simps
    by (rule permuted_members_ok [OF 1(2), of _ jsonb]) (use 1 in \<open>auto simp: list_all_iff\<close>)
next
  case (2 vs)
  then show ?case by (simp add: list_all_iff)
qed simp_all

text \<open>What is hashed does not depend on the order in which members are delivered.\<close>

lemma canonicalJSON_stored:
  assumes "json_ok (JObject m)"
  shows "\<exists>ms. jsonb (metadataBytes m) = JObject ms \<and> canonicalJSON ms = canonicalJSON m"
proof (cases "m = []")
  case True
  then show ?thesis by (simp add: metadataBytes_def canonicalJSON_def)
next
  case False
  obtain ms' where ms': "json_remarshal (JObject m) = JObject ms'"
    and m': "mset ms' = mset (map (\<lambda>(k, v). (k, json_remarshal v)) m)"
    using remarshal_members [OF assms] by blast
  obtain ms where ms: "jsonb (JObject ms') = JObject ms" by simp
  have ok: "json_ok (JObject ms')" using json_ok_remarshal [OF assms] ms' by simp
  have "encodeSorted (json_remarshal (JObject ms)) = encodeSorted (JObject ms)"
    using json_ok_jsonb [OF ok] unfolding ms by (rule encodeSorted_remarshal)
  also have "\<dots> = encodeSorted (json_remarshal (JObject m))"
    using encodeSorted_jsonb [OF ok] ms ms' by (simp only:)
  finally have "marshalSorted (JObject ms) = marshalSorted (JObject m)"
    by (simp add: marshalSorted_def)
  moreover have "ms \<noteq> []"
  proof -
    have "length ms' = length m" using m' by (metis length_map size_mset)
    moreover have "length ms = length ms'" using ms by auto
    ultimately show ?thesis using False by auto
  qed
  ultimately show ?thesis
    using False ms unfolding metadataBytes_def canonicalJSON_def ms' by auto
qed


section \<open>The chain\<close>

lemma hashesEqual_loop_iff:
  "length a = length b \<Longrightarrow> hashesEqual_loop a b \<longleftrightarrow> a = b"
  by (induction a b rule: hashesEqual_loop.induct) auto

lemma hashesEqual_iff [simp]: "hashesEqual a b \<longleftrightarrow> a = b"
  by (auto simp: hashesEqual_def hashesEqual_loop_iff)

text \<open>The abstract chain: every row continues the one before it.\<close>

fun chain_from :: "ext \<Rightarrow> bytes \<Rightarrow> AuditLog list \<Rightarrow> bool" where
  "chain_from X prev [] \<longleftrightarrow> True"
| "chain_from X prev (r # rs) \<longleftrightarrow>
     al_prev_hash r = prev \<and> al_self_hash r = computeSelfHash X prev r
     \<and> chain_from X (al_self_hash r) rs"

fun chain_head :: "bytes \<Rightarrow> AuditLog list \<Rightarrow> bytes" where
  "chain_head prev [] = prev"
| "chain_head prev (r # rs) = chain_head (al_self_hash r) rs"

text \<open>The rows that break the chain, in order.\<close>

fun bad_rows :: "ext \<Rightarrow> bytes \<Rightarrow> AuditLog list \<Rightarrow> AuditLog list" where
  "bad_rows X prev [] = []"
| "bad_rows X prev (r # rs) =
     (if al_self_hash r = computeSelfHash X prev r \<and> al_prev_hash r = prev then [] else [r])
     @ bad_rows X (al_self_hash r) rs"

lemma chain_from_append [simp]:
  "chain_from X prev (rs @ ss) \<longleftrightarrow> chain_from X prev rs \<and> chain_from X (chain_head prev rs) ss"
  by (induction rs arbitrary: prev) auto

lemma chain_head_append [simp]: "chain_head prev (rs @ ss) = chain_head (chain_head prev rs) ss"
  by (induction rs arbitrary: prev) auto

lemma bad_rows_Nil_iff: "bad_rows X prev rs = [] \<longleftrightarrow> chain_from X prev rs"
  by (induction rs arbitrary: prev) auto

lemma bad_rows_subset: "set (bad_rows X prev rs) \<subseteq> set rs"
  by (induction rs arbitrary: prev) auto

definition first_bad :: "ext \<Rightarrow> bytes \<Rightarrow> AuditLog list \<Rightarrow> int" where
  "first_bad X prev rs = (case bad_rows X prev rs of [] \<Rightarrow> 0 | r # _ \<Rightarrow> al_id r)"

lemma fold_verify_row:
  assumes "\<forall>r \<in> set rs. al_id r > 0"
  shows "fold (verify_row X) rs (prev, l, b) =
    (chain_head prev rs, if rs = [] then l else al_id (last rs),
     if b \<noteq> 0 then b else first_bad X prev rs)"
  using assms
proof (induction rs arbitrary: prev l b)
  case (Cons r rs)
  then show ?case
    by (auto simp: Let_def first_bad_def)
qed (simp add: first_bad_def)

text \<open>The rows in the order of the walk.\<close>

definition walk_rows :: "int \<Rightarrow> db \<Rightarrow> AuditLog list" where
  "walk_rows i d = sort_key al_id (filter (\<lambda>r. al_id r > i) (audit_log d))"

lemma fetchBatchTx_ok:
  "w_faults w = [] \<Longrightarrow> w_bypass w \<Longrightarrow> fetchBatchTx n i w = (Inr (take n (walk_rows i (w_db w))), w)"
  by (simp add: fetchBatchTx_def query_def stmt_def getsE_def walk_rows_def)

lemma filter_after_batch:
  fixes f :: "'a \<Rightarrow> 'b :: linorder"
  assumes "sorted_wrt (\<lambda>r s. f r < f s) rs" and "take n rs \<noteq> []"
  shows "filter (\<lambda>r. f r > f (last (take n rs))) rs = drop n rs"
proof -
  obtain xs m where t: "take n rs = xs @ [m]" using assms(2) by (meson rev_exhaust)
  then have rs: "rs = (xs @ [m]) @ drop n rs" by (metis append_take_drop_id)
  have "sorted_wrt (\<lambda>r s. f r < f s) ((xs @ [m]) @ drop n rs)"
    using assms(1) by (subst rs [symmetric])
  then have xs: "\<forall>x \<in> set xs. f x < f m" and ys: "\<forall>y \<in> set (drop n rs). f m < f y"
    by (auto simp: sorted_wrt_append)
  then have "filter (\<lambda>r. f r > f m) ((xs @ [m]) @ drop n rs) = drop n rs"
    by (auto simp: filter_empty_conv dest: order.asym)
  with t arg_cong [OF rs, of "filter (\<lambda>r. f r > f m)"] show ?thesis by simp
qed

lemma sorted_wrt_walk:
  assumes "distinct (map al_id (audit_log d))"
  shows "sorted_wrt (\<lambda>r s. al_id r < al_id s) (walk_rows i d)"
proof -
  have "sorted (map al_id (walk_rows i d))" by (simp add: walk_rows_def)
  moreover have "distinct (map al_id (walk_rows i d))"
    using assms by (auto simp: walk_rows_def distinct_map intro: inj_on_subset)
  ultimately have "sorted_wrt (<) (map al_id (walk_rows i d))"
    by (simp add: strict_sorted_iff)
  then show ?thesis by (simp add: sorted_wrt_map)
qed

lemma walk_rows_filter:
  assumes "i \<le> j" shows "walk_rows j d = filter (\<lambda>r. al_id r > j) (walk_rows i d)"
proof -
  have "filter (\<lambda>r. al_id r > j) (audit_log d) =
      filter (\<lambda>r. al_id r > j) (filter (\<lambda>r. al_id r > i) (audit_log d))"
    using assms by (auto intro!: filter_cong)
  then show ?thesis unfolding walk_rows_def by (simp only: filter_sort)
qed

lemma walk_rows_next:
  assumes "distinct (map al_id (audit_log d))" and "take n (walk_rows i d) \<noteq> []"
  shows "walk_rows (al_id (last (take n (walk_rows i d)))) d = drop n (walk_rows i d)"
proof -
  have "last (take n (walk_rows i d)) \<in> set (walk_rows i d)"
    using assms(2) by (meson in_set_takeD last_in_set)
  then have "i < al_id (last (take n (walk_rows i d)))" by (simp add: walk_rows_def)
  then show ?thesis
    using filter_after_batch [OF sorted_wrt_walk [OF assms(1)] assms(2)]
      walk_rows_filter [of i "al_id (last (take n (walk_rows i d)))" d]
    by simp
qed

lemma verify_loop_ok:
  assumes "w_faults w = []" and "w_bypass w" and "0 < n"
    and "distinct (map al_id (audit_log (w_db w)))"
  shows "verify_loop X n st w = (Inr (fold (verify_row X) (walk_rows (fst (snd st)) (w_db w)) st), w)"
  using assms
proof (induction X n st w rule: verify_loop.induct)
  case (1 X n st w)
  let ?rows = "walk_rows (fst (snd st)) (w_db w)"
  have fetch: "fetchBatchTx n (fst (snd st)) w = (Inr (take n ?rows), w)"
    using "1.prems" by (simp add: fetchBatchTx_ok)
  show ?case
  proof (cases "?rows = []")
    case True
    then show ?thesis by (simp add: verify_loop.simps [of X n st w] fetch)
  next
    case False
    then have ne: "take n ?rows \<noteq> []" using "1.prems" by simp
    let ?st = "fold (verify_row X) (take n ?rows) st"
    have "verify_loop X n ?st w = (Inr (fold (verify_row X) (walk_rows (fst (snd ?st)) (w_db w)) ?st), w)"
      using "1.IH" [OF fetch [symmetric] refl ne] "1.prems" by simp
    moreover have "walk_rows (fst (snd ?st)) (w_db w) = drop n ?rows"
      using walk_rows_next [OF "1.prems"(4) ne] ne by (simp add: verify_rows_last)
    moreover have "fold (verify_row X) (drop n ?rows) ?st = fold (verify_row X) ?rows st"
      by (metis append_take_drop_id comp_apply fold_append)
    ultimately show ?thesis
      using ne by (simp add: verify_loop.simps [of X n st w] fetch)
  qed
qed

lemma anchor_rows_append:
  "anchor_rows X a (rs @ ss) st =
     (case anchor_rows X a rs st of None \<Rightarrow> None | Some st' \<Rightarrow> anchor_rows X a ss st')"
  by (induction X a rs st rule: anchor_rows.induct) auto

lemma anchor_rows_None_iff:
  "anchor_rows X a rs (prev, l) = None \<longleftrightarrow>
     (\<exists>xs r ys. rs = xs @ r # ys \<and> computeSelfHash X (chain_head prev xs) r = a)"
proof (induction rs arbitrary: prev l)
  case (Cons r rs)
  show ?case
  proof (cases "computeSelfHash X prev r = a")
    case True
    then show ?thesis by (auto intro!: exI [of _ "[]"])
  next
    case False
    then have "(\<exists>xs s ys. r # rs = xs @ s # ys \<and> computeSelfHash X (chain_head prev xs) s = a) \<longleftrightarrow>
        (\<exists>xs s ys. rs = xs @ s # ys \<and> computeSelfHash X (chain_head (al_self_hash r) xs) s = a)"
      by (auto simp: Cons_eq_append_conv) (metis append_Cons chain_head.simps(2))+
    with False Cons show ?thesis by simp
  qed
qed simp

lemma anchor_loop_ok:
  assumes "w_faults w = []" and "w_bypass w" and "0 < n"
    and "distinct (map al_id (audit_log (w_db w)))"
  shows "anchor_loop X n a st w = (Inr (anchor_rows X a (walk_rows (snd st) (w_db w)) st = None), w)"
  using assms
proof (induction X n a st w rule: anchor_loop.induct)
  case (1 X n a st w)
  let ?rows = "walk_rows (snd st) (w_db w)"
  have fetch: "fetchBatchTx n (snd st) w = (Inr (take n ?rows), w)"
    using "1.prems" by (simp add: fetchBatchTx_ok)
  have split: "anchor_rows X a ?rows st = (case anchor_rows X a (take n ?rows) st of
      None \<Rightarrow> None | Some st' \<Rightarrow> anchor_rows X a (drop n ?rows) st')"
    by (metis anchor_rows_append append_take_drop_id)
  show ?case
  proof (cases "?rows = []")
    case True
    then show ?thesis by (simp add: anchor_loop.simps [of X n a st w] fetch)
  next
    case False
    then have ne: "take n ?rows \<noteq> []" using "1.prems" by simp
    show ?thesis
    proof (cases "anchor_rows X a (take n ?rows) st")
      case None
      with ne split show ?thesis by (simp add: anchor_loop.simps [of X n a st w] fetch)
    next
      case (Some st')
      then have "walk_rows (snd st') (w_db w) = drop n ?rows"
        using anchor_rows_last [OF Some ne] walk_rows_next [OF "1.prems"(4) ne] by simp
      with "1.IH" [OF fetch [symmetric] refl ne Some] "1.prems" Some split ne show ?thesis
        by (simp add: anchor_loop.simps [of X n a st w] fetch)
    qed
  qed
qed

section \<open>Verification without faults\<close>

lemma wp_verify_loop_ok:
  assumes "w_faults w = []" and "w_bypass w" and "distinct (map al_id (audit_log (w_db w)))"
  shows "wp (verify_loop X batchSize st) Q w =
    Q (Inr (fold (verify_row X) (walk_rows (fst (snd st)) (w_db w)) st)) w"
  using assms by (simp add: wp_def verify_loop_ok batchSize_def)

lemma wp_anchor_loop_ok:
  assumes "w_faults w = []" and "w_bypass w" and "distinct (map al_id (audit_log (w_db w)))"
  shows "wp (anchor_loop X batchSize a st) Q w =
    Q (Inr (anchor_rows X a (walk_rows (snd st) (w_db w)) st = None)) w"
  using assms by (simp add: wp_def anchor_loop_ok batchSize_def)

lemma walk_rows_pos: "\<forall>r \<in> set (walk_rows 0 d). 0 < al_id r"
  by (simp add: walk_rows_def)

definition stored_head :: "db \<Rightarrow> bytes result" where
  "stored_head d = (case List.find (\<lambda>r. ss_key r = systemKeyChainHead) (system_state d) of
     None \<Rightarrow> Inl NoRows | Some r \<Rightarrow> decodeHashHexJSON (ss_value r))"

lemma wp_loadHeadTx_ok:
  "w_faults w = [] \<Longrightarrow> wp loadHeadTx Q w = Q (stored_head (w_db w)) w"
  by (simp add: loadHeadTx_def select_system_value_def stored_head_def wps split: option.split)

lemma Run_ok:
  assumes "w_faults w = []" and "idle w" and "stored_head (w_db w) = Inr h"
    and "distinct (map al_id (audit_log (w_db w)))"
  shows "Run X w = (Inr \<lparr>vr_Height = (let rs = walk_rows 0 (w_db w) in if rs = [] then 0 else al_id (last rs)),
     vr_Head = h, vr_Computed = chain_head genesisHash (walk_rows 0 (w_db w)),
     vr_FirstBadID = first_bad X genesisHash (walk_rows 0 (w_db w))\<rparr>, w)"
proof -
  have "wp (Run X) (\<lambda>r w'. (r, w') = (Inr \<lparr>vr_Height = (let rs = walk_rows 0 (w_db w) in if rs = [] then 0 else al_id (last rs)),
     vr_Head = h, vr_Computed = chain_head genesisHash (walk_rows 0 (w_db w)),
     vr_FirstBadID = first_bad X genesisHash (walk_rows 0 (w_db w))\<rparr>, w)) w"
    using assms
    by (simp add: Run_def wps wp_loadHeadTx_ok Let_def wp_verify_loop_ok
        fold_verify_row walk_rows_pos)
  then show ?thesis by (simp add: wp_iff prod_eq_iff)
qed

lemma AnchorInHistory_ok:
  assumes "w_faults w = []" and "idle w" and "distinct (map al_id (audit_log (w_db w)))"
  shows "AnchorInHistory X a w = (Inr (a \<noteq> [] \<and> (a = genesisHash \<or>
     (\<exists>xs r ys. walk_rows 0 (w_db w) = xs @ r # ys \<and> computeSelfHash X (chain_head genesisHash xs) r = a))), w)"
proof -
  have "wp (AnchorInHistory X a) (\<lambda>r w'. (r, w') = (Inr (a \<noteq> [] \<and> (a = genesisHash \<or>
     anchor_rows X a (walk_rows 0 (w_db w)) (genesisHash, 0) = None)), w)) w"
    using assms
    by (simp add: AnchorInHistory_def wps wp_anchor_loop_ok)
  then show ?thesis by (simp add: wp_iff prod_eq_iff anchor_rows_None_iff)
qed

section \<open>Appending under faults\<close>

definition row_of_event :: "ext \<Rightarrow> Event \<Rightarrow> bytes \<Rightarrow> int \<Rightarrow> time \<Rightarrow> AuditLog" where
  "row_of_event X ev prev i ts =
     \<lparr>al_id = i, al_user_id = evt_user_id ev, al_action = evt_action ev,
      al_target_id = evt_target_id ev, al_ip = evt_ip ev,
      al_user_agent = pgtypeTextFrom (evt_user_agent ev),
      al_metadata = Some (metadataBytes (evt_metadata ev)),
      al_prev_hash = prev, al_self_hash = sha256 X (prev @ canonicalRow X ev ts), al_created_at = ts\<rparr>"

definition storable :: "AuditLog \<Rightarrow> bool" where
  "storable row \<longleftrightarrow> (case al_user_agent row of None \<Rightarrow> True | Some s \<Rightarrow> pg_text_ok s)
     \<and> (case al_metadata row of None \<Rightarrow> True | Some v \<Rightarrow> json_nul_free v)"

definition with_row :: "AuditLog \<Rightarrow> db \<Rightarrow> db" where
  "with_row row d = d\<lparr>audit_log := audit_log d @ [row\<lparr>al_metadata := map_option jsonb (al_metadata row)\<rparr>]\<rparr>"

definition with_head :: "bytes \<Rightarrow> time \<Rightarrow> db \<Rightarrow> db" where
  "with_head h ts d = d\<lparr>system_state :=
     upd_where (\<lambda>r. ss_key r = systemKeyChainHead)
       (\<lambda>r. r\<lparr>ss_value := JString (hex_EncodeToString h), ss_updated_at := ts\<rparr>) (system_state d)\<rparr>"

lemma wp_insert_audit_any:
  assumes "w_bypass w"
    and "\<And>fs. storable row \<Longrightarrow> Q (Inr (w_audit_seq w + 1))
       (w\<lparr>w_faults := fs, w_db := with_row (row\<lparr>al_id := w_audit_seq w + 1\<rparr>) (w_db w),
          w_audit_seq := w_audit_seq w + 1\<rparr>)"
    and "\<And>fs e. Q (Inl e) (w\<lparr>w_faults := fs, w_audit_seq := w_audit_seq w + 1\<rparr>)"
    and "\<And>fs. Q (Inl Fault)
       (w\<lparr>w_faults := fs, w_db := with_row (row\<lparr>al_id := w_audit_seq w + 1\<rparr>) (w_db w),
          w_audit_seq := w_audit_seq w + 1\<rparr>)"
    and "\<And>fs. Q (Inl Fault) (w\<lparr>w_faults := fs\<rparr>)"
  shows "wp (insert_audit_log row) Q w"
  unfolding insert_audit_log_def Let_def
  by (rule wp_stmt_any)
     (use assms in \<open>simp_all add: wp_def storable_def with_row_def split: if_splits\<close>)

text \<open>
  Whatever happens, an append either leaves the log and its head alone or adds the row
  of the event and moves the head to it; it reports success only in the second case.
\<close>

definition append_outcome :: "ext \<Rightarrow> Event \<Rightarrow> bytes \<Rightarrow> world \<Rightarrow> AuditLog result \<Rightarrow> world \<Rightarrow> bool" where
  "append_outcome X ev h w r w' \<longleftrightarrow>
     (\<exists>fs n e. w_audit_seq w \<le> n \<and> w' = w\<lparr>w_faults := fs, w_audit_seq := n\<rparr> \<and> r = Inl e) \<or>
     (\<exists>fs row. row = row_of_event X ev h (w_audit_seq w + 1) (w_now w) \<and> storable row \<and>
        w' = w\<lparr>w_faults := fs, w_db := with_head (al_self_hash row) (w_now w) (with_row row (w_db w)),
               w_audit_seq := w_audit_seq w + 1\<rparr> \<and> (\<forall>row'. r = Inr row' \<longrightarrow> row' = row))"

lemma append_noopI:
  "w_audit_seq w \<le> n \<Longrightarrow> append_outcome X ev h w (Inl e) (w\<lparr>w_faults := fs, w_audit_seq := n\<rparr>)"
  unfolding append_outcome_def by blast

lemma append_noopI':
  "append_outcome X ev h w (Inl e) (w\<lparr>w_faults := fs\<rparr>)"
  using append_noopI [of w "w_audit_seq w" X ev h e fs] by simp

lemma append_doneI:
  "row = row_of_event X ev h (w_audit_seq w + 1) (w_now w) \<Longrightarrow> storable row \<Longrightarrow>
   r = Inr row \<or> (\<exists>e. r = Inl e) \<Longrightarrow>
   append_outcome X ev h w r
     (w\<lparr>w_faults := fs, w_db := with_head (al_self_hash row) (w_now w) (with_row row (w_db w)),
        w_audit_seq := w_audit_seq w + 1\<rparr>)"
  unfolding append_outcome_def by auto

lemmas append_ends =
  append_noopI append_noopI' 
  append_doneI [unfolded with_head_def storable_def, OF refl, simplified row_of_event_def, simplified]

lemma Append_outcome:
  assumes "idle w" and "stored_head (w_db w) = Inr h"
  shows "wp (Append X ev) (append_outcome X ev h w) w"
  unfolding Append_def select_system_value_def update_chain_head_def wps Let_def
proof (rule wp_BeginTx_any, goal_cases)
  case (1 fs)
  from assms show ?case
    unfolding stored_head_def
    by (auto simp: append_ends storable_def wps tx_start_def tx_end_def
        intro!: wp_set_bypass_any wp_queryRow_any wp_insert_audit_any wp_exec_any wp_Commit_any)
qed (simp add: append_ends)

section \<open>The invariant of the chain\<close>

definition event_ok :: "Event \<Rightarrow> bool" where
  "event_ok ev \<longleftrightarrow> json_ok (JObject (evt_metadata ev))"

definition log_ok :: "ext \<Rightarrow> int \<Rightarrow> db \<Rightarrow> bool" where
  "log_ok X n d \<longleftrightarrow>
     sorted_wrt (\<lambda>r s. al_id r < al_id s) (audit_log d)
     \<and> (\<forall>r \<in> set (audit_log d). 0 < al_id r \<and> al_id r \<le> n)
     \<and> chain_from X genesisHash (audit_log d)
     \<and> stored_head d = Inr (chain_head genesisHash (audit_log d))"

definition chain_inv :: "ext \<Rightarrow> world \<Rightarrow> bool" where
  "chain_inv X w \<longleftrightarrow> idle w \<and> 0 \<le> w_audit_seq w \<and> log_ok X (w_audit_seq w) (w_db w)"

lemma walk_rows_log_ok: "log_ok X n d \<Longrightarrow> walk_rows 0 d = audit_log d"
proof -
  assume ok: "log_ok X n d"
  then have "filter (\<lambda>r. 0 < al_id r) (audit_log d) = audit_log d"
    by (auto simp: log_ok_def intro!: filter_True)
  moreover have "sorted (map al_id (audit_log d))"
    using ok unfolding log_ok_def sorted_wrt_map
    by (auto intro: sorted_wrt_mono_rel [rotated])
  ultimately show ?thesis by (simp add: walk_rows_def sort_key_id_if_sorted)
qed

lemma log_ok_mono: "log_ok X n d \<Longrightarrow> n \<le> m \<Longrightarrow> log_ok X m d"
  by (force simp: log_ok_def)

lemma log_ok_distinct: "log_ok X n d \<Longrightarrow> distinct (map al_id (audit_log d))"
  by (simp add: log_ok_def strict_sorted_iff flip: sorted_wrt_map)

lemma computeSelfHash_stored:
  assumes "event_ok ev" and "row = row_of_event X ev h i ts"
  shows "computeSelfHash X h (row\<lparr>al_metadata := map_option jsonb (al_metadata row)\<rparr>) = al_self_hash row"
proof -
  obtain ms where "jsonb (metadataBytes (evt_metadata ev)) = JObject ms"
    and "canonicalJSON ms = canonicalJSON (evt_metadata ev)"
    using canonicalJSON_stored assms(1) unfolding event_ok_def by blast
  with assms(2) show ?thesis
    by (simp add: computeSelfHash_def row_event_def row_of_event_def isJSONNull_def
        canonicalRow_def pgtypeTextFrom_def)
qed

lemma stored_head_with_head:
  assumes "stored_head d = Inr h'" and "h \<noteq> []" and "system_state d' = system_state d"
  shows "stored_head (with_head h ts d') = Inr h"
proof -
  obtain r where "List.find (\<lambda>r. ss_key r = systemKeyChainHead) (system_state d) = Some r"
    using assms(1) by (auto simp: stored_head_def split: option.splits)
  with assms(2,3) find_SomeD [OF this] show ?thesis
    by (auto simp: stored_head_def with_head_def find_upd_where if_distrib cong: if_cong)
qed

lemma log_ok_append:
  assumes ok: "log_ok X n d" and "sha256_size X" and "event_ok ev" and "0 \<le> n"
    and row: "row = row_of_event X ev (chain_head genesisHash (audit_log d)) (n + 1) ts"
  shows "log_ok X (n + 1) (with_head (al_self_hash row) ts (with_row row d))"
proof -
  have "al_self_hash row \<noteq> []"
    using assms(2) row by (auto simp: row_of_event_def sha256_size_def dest!: arg_cong [of _ _ length])
  then have "stored_head (with_head (al_self_hash row) ts (with_row row d)) = Inr (al_self_hash row)"
    using ok by (intro stored_head_with_head [of d]) (auto simp: log_ok_def with_row_def)
  moreover have "al_prev_hash row = chain_head genesisHash (audit_log d)" and "al_id row = n + 1"
    using row by (simp_all add: row_of_event_def)
  ultimately show ?thesis
    using ok assms(4) computeSelfHash_stored [OF assms(3) row]
    by (auto simp: log_ok_def with_head_def with_row_def sorted_wrt_append)
qed

lemma Append_chain_inv:
  assumes "chain_inv X w" and "sha256_size X" and "event_ok ev"
  shows "chain_inv X (snd (Append X ev w))"
proof -
  let ?h = "chain_head genesisHash (audit_log (w_db w))"
  have "append_outcome X ev ?h w (fst (Append X ev w)) (snd (Append X ev w))"
    using Append_outcome [of w ?h X ev] assms(1) by (simp add: chain_inv_def log_ok_def wp_iff)
  then show ?thesis
    using assms log_ok_append [of X "w_audit_seq w" "w_db w" ev] log_ok_mono
    by (auto simp: append_outcome_def chain_inv_def)
qed

text \<open>The log only grows.\<close>

lemma Append_prefix:
  assumes "chain_inv X w"
  shows "\<exists>rs. audit_log (w_db (snd (Append X ev w))) = audit_log (w_db w) @ rs"
proof -
  let ?h = "chain_head genesisHash (audit_log (w_db w))"
  have "append_outcome X ev ?h w (fst (Append X ev w)) (snd (Append X ev w))"
    using Append_outcome [of w ?h X ev] assms(1) by (simp add: chain_inv_def log_ok_def wp_iff)
  then show ?thesis
    by (auto simp: append_outcome_def with_head_def with_row_def)
qed

lemma AppendOrLog_snd [simp]: "snd (AppendOrLog X ev w) = snd (Append X ev w)"
  by (simp add: AppendOrLog_def bindE_def tryE_def returnE_def split: prod.split)

section \<open>Histories\<close>

text \<open>
  One step of the life of the log: an append of some event, at some time, under some
  fault plan, whose error is only logged.
\<close>

inductive audit_step :: "ext \<Rightarrow> world \<Rightarrow> world \<Rightarrow> bool" for X where
  append: "event_ok ev \<Longrightarrow>
     audit_step X w (snd (AppendOrLog X ev (w\<lparr>w_faults := fs, w_now := ts\<rparr>)))"

inductive_cases audit_stepE: "audit_step X w w'"

definition genesis :: "world \<Rightarrow> bool" where
  "genesis w \<longleftrightarrow> idle w \<and> w_audit_seq w = 0 \<and> audit_log (w_db w) = []
     \<and> stored_head (w_db w) = Inr genesisHash"

lemma genesis_chain_inv: "genesis w \<Longrightarrow> chain_inv X w"
  by (simp add: genesis_def chain_inv_def log_ok_def)

lemma chain_inv_frame: "chain_inv X (w\<lparr>w_faults := fs, w_now := ts\<rparr>) = chain_inv X w"
  by (simp add: chain_inv_def idle_def)

lemma audit_steps_inv:
  assumes "(audit_step X)\<^sup>*\<^sup>* w w'" and "chain_inv X w" and "sha256_size X"
  shows "chain_inv X w' \<and> (\<exists>rs. audit_log (w_db w') = audit_log (w_db w) @ rs)"
  using assms
proof (induction rule: rtranclp_induct)
  case (step y z)
  from step.hyps(2) obtain ev fs ts where ev: "event_ok ev"
    and z: "z = snd (Append X ev (y\<lparr>w_faults := fs, w_now := ts\<rparr>))"
    by (auto elim: audit_stepE)
  let ?y = "y\<lparr>w_faults := fs, w_now := ts\<rparr>"
  have "chain_inv X ?y" using step by (simp add: chain_inv_frame)
  then have "chain_inv X z" and "\<exists>rs. audit_log (w_db z) = audit_log (w_db ?y) @ rs"
    using Append_chain_inv [of X ?y ev] Append_prefix [of X ?y ev] ev step.prems z by auto
  with step show ?case by auto
qed auto

lemma Run_chain_inv:
  assumes "chain_inv X w" and "w_faults w = []"
  shows "Run X w = (Inr \<lparr>vr_Height = (if audit_log (w_db w) = [] then 0 else al_id (last (audit_log (w_db w)))),
     vr_Head = chain_head genesisHash (audit_log (w_db w)),
     vr_Computed = chain_head genesisHash (audit_log (w_db w)), vr_FirstBadID = 0\<rparr>, w)"
proof -
  have ok: "log_ok X (w_audit_seq w) (w_db w)" and "idle w" using assms(1) by (simp_all add: chain_inv_def)
  then have "first_bad X genesisHash (audit_log (w_db w)) = 0"
    using bad_rows_Nil_iff [of X genesisHash "audit_log (w_db w)"] by (simp add: log_ok_def first_bad_def)
  with ok \<open>idle w\<close> assms(2) show ?thesis
    using Run_ok [of w "chain_head genesisHash (audit_log (w_db w))" X] log_ok_distinct [OF ok]
      walk_rows_log_ok [OF ok]
    by (simp add: log_ok_def Let_def)
qed


section \<open>Tamper evidence\<close>

text \<open>What the digest of a row covers besides its predecessor.\<close>

definition payload :: "ext \<Rightarrow> AuditLog \<Rightarrow> bytes" where
  "payload X r = canonicalRow X (row_event r) (al_created_at r)"

fun chain_inputs :: "ext \<Rightarrow> bytes \<Rightarrow> AuditLog list \<Rightarrow> bytes set" where
  "chain_inputs X prev [] = {}"
| "chain_inputs X prev (r # rs) = insert (prev @ payload X r) (chain_inputs X (al_self_hash r) rs)"

lemma computeSelfHash_payload: "computeSelfHash X prev r = sha256 X (prev @ payload X r)"
  by (simp add: computeSelfHash_def payload_def)

lemma chain_inputs_append [simp]:
  "chain_inputs X prev (rs @ ss) = chain_inputs X prev rs \<union> chain_inputs X (chain_head prev rs) ss"
  by (induction rs arbitrary: prev) auto

lemma length_chain_head:
  "chain_from X prev rs \<Longrightarrow> sha256_size X \<Longrightarrow> length prev = 32 \<Longrightarrow> length (chain_head prev rs) = 32"
  by (induction rs arbitrary: prev) (auto simp: computeSelfHash_payload sha256_size_def)

lemma genesis_length: "length genesisHash = 32"
  by (simp add: genesisHash_def)

text \<open>Hypothesis on the digest: neither collisions nor a preimage of the genesis head.\<close>

definition digest_sound :: "ext \<Rightarrow> bytes set \<Rightarrow> bool" where
  "digest_sound X S \<longleftrightarrow> sha256_collision_free X S \<and> genesisHash \<notin> sha256 X ` S"

lemma digest_sound_subset: "digest_sound X S \<Longrightarrow> T \<subseteq> S \<Longrightarrow> digest_sound X T"
  unfolding digest_sound_def sha256_collision_free_def by (auto intro: inj_on_subset)

lemma same_head_same_payloads:
  assumes "sha256_size X" and "chain_from X genesisHash rs" and "chain_from X genesisHash ss"
    and "chain_head genesisHash rs = chain_head genesisHash ss"
    and "digest_sound X (chain_inputs X genesisHash rs \<union> chain_inputs X genesisHash ss)"
  shows "map (payload X) rs = map (payload X) ss"
  using assms(2-5)
proof (induction rs arbitrary: ss rule: rev_induct)
  case Nil
  then show ?case
    by (cases ss rule: rev_cases) (auto simp: computeSelfHash_payload digest_sound_def)
next
  case (snoc r rs)
  then obtain ss' s where ss: "ss = ss' @ [s]"
    by (cases ss rule: rev_cases) (auto simp: computeSelfHash_payload digest_sound_def)
  let ?a = "chain_head genesisHash rs @ payload X r" and ?b = "chain_head genesisHash ss' @ payload X s"
  have "?a = ?b"
  proof (rule inj_onD)
    show "inj_on (sha256 X) (chain_inputs X genesisHash (rs @ [r]) \<union> chain_inputs X genesisHash ss)"
      using snoc.prems(4) by (simp add: digest_sound_def sha256_collision_free_def)
    show "sha256 X ?a = sha256 X ?b"
      using snoc.prems(1-3) ss by (simp add: computeSelfHash_payload)
  qed (simp_all add: ss)
  moreover have "length (chain_head genesisHash rs) = length (chain_head genesisHash ss')"
    using snoc.prems assms(1) length_chain_head [of X genesisHash] by (simp add: ss genesis_length)
  ultimately have "chain_head genesisHash rs = chain_head genesisHash ss'" and "payload X r = payload X s"
    by simp_all
  moreover have "map (payload X) rs = map (payload X) ss'"
    using snoc.prems calculation(1) unfolding ss
    by (intro snoc.IH) (auto elim: digest_sound_subset)
  ultimately show ?case by (simp add: ss)
qed

lemma Run_success_head:
  assumes "w_faults w = []" and "fst (Run X w) = Inr r"
  obtains h where "stored_head (w_db w) = Inr h"
proof (cases "stored_head (w_db w)")
  case (Inl e)
  have "wp (Run X) (\<lambda>r w'. \<exists>e. r = Inl e) w"
    using assms(1) Inl by (simp add: Run_def wps wp_loadHeadTx_ok)
  with assms(2) have False by (simp add: wp_iff)
  then show ?thesis ..
qed (use that in blast)

lemma Run_OK_iff:
  assumes "w_faults w = []" and "idle w" and "distinct (map al_id (audit_log (w_db w)))"
    and "fst (Run X w) = Inr r"
  shows "OK r \<longleftrightarrow> chain_from X genesisHash (walk_rows 0 (w_db w))
           \<and> vr_Head r = chain_head genesisHash (walk_rows 0 (w_db w))"
proof -
  let ?rs = "walk_rows 0 (w_db w)"
  obtain h where h: "stored_head (w_db w) = Inr h"
    using Run_success_head [OF assms(1,4)] .
  have "first_bad X genesisHash ?rs = 0 \<longleftrightarrow> chain_from X genesisHash ?rs"
    using bad_rows_subset [of X genesisHash ?rs] walk_rows_pos [of "w_db w"]
    by (fastforce simp: first_bad_def bad_rows_Nil_iff [symmetric] split: list.splits)
  then show ?thesis
    using assms(4) Run_ok [OF assms(1,2) h assms(3), of X] by (auto simp: OK_def)
qed


section \<open>Instances\<close>

definition demo_event :: Event where
  "demo_event = \<lparr>evt_user_id = Some 1, evt_action = AuditActionLogin, evt_target_id = None,
     evt_ip = None, evt_user_agent = '''', evt_metadata = [(''device'', JString ''phone'')]\<rparr>"

lemma Append_ok:
  assumes "idle w" and "w_faults w = []" and "stored_head (w_db w) = Inr h"
    and row: "row = row_of_event X ev h (w_audit_seq w + 1) (w_now w)" and "storable row"
  shows "Append X ev w = (Inr row, w\<lparr>w_db := with_head (al_self_hash row) (w_now w) (with_row row (w_db w)),
      w_audit_seq := w_audit_seq w + 1\<rparr>)"
proof -
  obtain r where r: "List.find (\<lambda>r. ss_key r = systemKeyChainHead) (system_state (w_db w)) = Some r"
    and "decodeHashHexJSON (ss_value r) = Inr h"
    using assms(3) by (auto simp: stored_head_def split: option.splits)
  with assms have "wp (Append X ev) (\<lambda>r w'. r = Inr row \<and> w' = w\<lparr>w_db := with_head (al_self_hash row) (w_now w) (with_row row (w_db w)),
      w_audit_seq := w_audit_seq w + 1\<rparr>) w"
    unfolding Append_def select_system_value_def update_chain_head_def wps
    by (simp add: insert_audit_log_def wps wp_def [of "\<lambda>w. if \<not> w_bypass w then _ w else _ w"] Let_def
        row_of_event_def storable_def with_row_def with_head_def)
  then show ?thesis by (simp add: wp_iff prod_eq_iff)
qed


lemma bytes_of_nat_zero: "bytes_of_nat k n = replicate k (CHR 0x00) \<Longrightarrow> n < 256 ^ k \<Longrightarrow> n = 0"
proof (induction k arbitrary: n)
  case (Suc k)
  have "n mod 256 = 0"
  proof -
    have "(of_char (char_of (n mod 256)) :: nat) = of_char (CHR 0x00)" using Suc.prems(1) by simp
    then show ?thesis by simp
  qed
  moreover have "n div 256 = 0"
    using Suc by (intro Suc.IH) (simp_all add: less_mult_imp_div_less mult.commute)
  ultimately show ?case by (metis div_mult_mod_eq mult_zero_left add_0)
qed simp

lemma nat_of_bytes_less: "acc < 2 ^ 127 - 1 \<Longrightarrow> nat_of_bytes b acc < 2 ^ 127 - 1"
  by (induction b acc rule: nat_of_bytes.induct) simp_all

lemma demo_sha256_genesis: "sha256 demo_ext b \<noteq> genesisHash"
proof
  assume "sha256 demo_ext b = genesisHash"
  moreover have "nat_of_bytes b 7 + 1 < 256 ^ 32"
    using nat_of_bytes_less [of 7 b] by simp
  ultimately show False
    using bytes_of_nat_zero [of 32 "nat_of_bytes b 7 + 1"]
    by (simp add: demo_ext_def demo_sha256_def genesisHash_def)
qed

definition demo_log :: "int \<Rightarrow> world" where
  "demo_log i = snd (AppendOrLog demo_ext demo_event (demo_world\<lparr>w_audit_seq := i\<rparr>))"

definition demo_row :: "int \<Rightarrow> AuditLog" where
  "demo_row i = (let row = row_of_event demo_ext demo_event genesisHash (i + 1) 0 in
     row\<lparr>al_metadata := map_option jsonb (al_metadata row)\<rparr>)"

lemma demo_event_ok: "event_ok demo_event"
  by (simp add: event_ok_def demo_event_def utf8_ascii in_range_def)

lemma hex_zeros: "hex_EncodeToString (replicate n (CHR 0x00)) = replicate (2 * n) (CHR ''0'')"
proof (induction n)
  case (Suc n)
  have "hex_digit 0 = CHR ''0''" by (simp add: hex_digit_def char_of_def bit_simps) 
  with Suc show ?case by simp
qed simp

lemma demo_stored_head: "stored_head empty_db = Inr genesisHash"
proof -
  have "replicate 64 (CHR ''0'') = hex_EncodeToString genesisHash"
    using hex_zeros [of 32] by (simp add: genesisHash_def)
  moreover have "genesisHash \<noteq> []" by (simp add: genesisHash_def)
  ultimately show ?thesis
    by (simp add: stored_head_def empty_db_def systemKeyChainHead_def)
qed

lemma demo_genesis: "genesis demo_world"
  by (simp add: genesis_def idle_def demo_world_def demo_stored_head) (simp add: empty_db_def)

lemma demo_log_inv: "0 \<le> i \<Longrightarrow> chain_inv demo_ext (demo_log i)"
  using genesis_chain_inv [OF demo_genesis, of demo_ext] log_ok_mono [of demo_ext 0 empty_db i]
  by (simp add: demo_log_def)
     (rule Append_chain_inv, simp_all add: chain_inv_def demo_sha256_size demo_event_ok demo_world_def idle_def)

lemma demo_log_eq:
  "demo_log i = demo_world\<lparr>w_db := with_head (al_self_hash (demo_row i)) 0
     (with_row (row_of_event demo_ext demo_event genesisHash (i + 1) 0) empty_db), w_audit_seq := i + 1\<rparr>"
  unfolding demo_log_def AppendOrLog_snd
  by (subst Append_ok [where h = genesisHash and row = "row_of_event demo_ext demo_event genesisHash (i + 1) 0"])
     (simp_all add: demo_world_def idle_def demo_stored_head storable_def row_of_event_def demo_row_def
       demo_event_def pgtypeTextFrom_def metadataBytes_def to_valid_utf8_id utf8_ascii in_range_def)

lemma demo_log_rows: "audit_log (w_db (demo_log i)) = [demo_row i]"
  by (simp add: demo_log_eq with_head_def with_row_def demo_row_def Let_def empty_db_def)

lemma demo_log_faults: "w_faults (demo_log i) = []"
  by (simp add: demo_log_eq demo_world_def)

text \<open>A second event arrives while the answer to its insert is lost.\<close>

definition demo_faulty :: world where
  "demo_faulty = snd (AppendOrLog demo_ext demo_event
     ((demo_log 0)\<lparr>w_faults := [NoFault, NoFault, NoFault, FailAfter], w_now := 5\<rparr>))"

lemma demo_steps:
  "(audit_step demo_ext)\<^sup>*\<^sup>* demo_world (demo_log 0)"
  "(audit_step demo_ext)\<^sup>*\<^sup>* (demo_log 0) demo_faulty"
proof -
  have "demo_world\<lparr>w_audit_seq := 0\<rparr> = demo_world\<lparr>w_faults := [], w_now := 0\<rparr>"
    by (simp add: demo_world_def)
  then show "(audit_step demo_ext)\<^sup>*\<^sup>* demo_world (demo_log 0)"
    using append [of demo_event demo_ext demo_world, where fs = "[]" and ts = 0] demo_event_ok
    by (simp only: demo_log_def r_into_rtranclp)
  show "(audit_step demo_ext)\<^sup>*\<^sup>* (demo_log 0) demo_faulty"
    unfolding demo_faulty_def by (rule r_into_rtranclp, rule append, rule demo_event_ok)
qed

lemma demo_log_idle: "idle (demo_log i)"
  by (simp add: demo_log_eq) (simp add: demo_world_def idle_def)

lemma demo_walk: "0 \<le> i \<Longrightarrow> walk_rows 0 (w_db (demo_log i)) = [demo_row i]"
  using demo_log_rows [of i] by (simp add: walk_rows_def demo_row_def row_of_event_def Let_def)

lemma demo_payload: "payload demo_ext (demo_row i) = payload demo_ext (demo_row 0)"
  by (simp add: payload_def demo_row_def row_of_event_def row_event_def)

lemma demo_digest:
  "digest_sound demo_ext (chain_inputs demo_ext genesisHash [demo_row i]
     \<union> chain_inputs demo_ext genesisHash [demo_row j])"
  by (simp add: digest_sound_def sha256_collision_free_def demo_sha256_genesis [symmetric]
      demo_payload [of i] demo_payload [of j])

lemma demo_Run:
  "0 \<le> i \<Longrightarrow> \<exists>r. fst (Run demo_ext (demo_log i)) = Inr r \<and> OK r
     \<and> vr_Head r = al_self_hash (demo_row i) \<and> vr_FirstBadID r = 0"
  using Run_chain_inv [OF demo_log_inv demo_log_faults, of i] by (simp add: demo_log_rows OK_def)

lemma demo_stored: "0 \<le> i \<Longrightarrow> stored_head (w_db (demo_log i)) = Inr (al_self_hash (demo_row i))"
  using demo_log_inv [of i] by (simp add: chain_inv_def log_ok_def demo_log_rows)

lemma demo_self_hash: "al_self_hash (demo_row i) = al_self_hash (demo_row j)"
  by (simp add: demo_row_def row_of_event_def Let_def)

section \<open>Properties\<close>

text \<open>C1. Every history of appends, with any clock, any failures of the database at any
  statement and errors only logged, leaves a log that the verifier accepts: \<open>Run\<close>
  returns (its loop ends), reports no bad row, and the recomputed head is the stored
  one.\<close>

theorem audit_history_verifies:
  assumes "sha256_size X" and "genesis w0" and "(audit_step X)\<^sup>*\<^sup>* w0 w"
  shows "\<exists>r. Run X (w\<lparr>w_faults := []\<rparr>) = (Inr r, w\<lparr>w_faults := []\<rparr>) \<and> OK r
     \<and> vr_Head r = vr_Computed r
     \<and> vr_Height r = (if audit_log (w_db w) = [] then 0 else al_id (last (audit_log (w_db w))))"
proof -
  have "chain_inv X w"
    using audit_steps_inv [OF assms(3) genesis_chain_inv [OF assms(2)] assms(1)] by simp
  then have "chain_inv X (w\<lparr>w_faults := []\<rparr>)" by (simp add: chain_inv_def)
  from Run_chain_inv [OF this] show ?thesis by (simp add: OK_def)
qed

theorem audit_history_verifies_witness:
  "\<exists>r. Run demo_ext (demo_faulty\<lparr>w_faults := []\<rparr>) = (Inr r, demo_faulty\<lparr>w_faults := []\<rparr>) \<and> OK r
     \<and> vr_Head r = vr_Computed r
     \<and> vr_Height r = (if audit_log (w_db demo_faulty) = [] then 0
                      else al_id (last (audit_log (w_db demo_faulty))))"
  by (rule audit_history_verifies [OF demo_sha256_size demo_genesis])
     (rule rtranclp_trans [OF demo_steps])

text \<open>C2. Tamper evidence: two databases, in whatever state, whose logs the verifier
  accepts with the same head hold the same sequence of canonical rows, if the digest has
  no collision among the rows of the two logs.\<close>

theorem same_head_same_log:
  assumes "sha256_size X"
    and "w_faults w = []" and "idle w" and "distinct (map al_id (audit_log (w_db w)))"
    and "w_faults v = []" and "idle v" and "distinct (map al_id (audit_log (w_db v)))"
    and "fst (Run X w) = Inr r" and "OK r" and "fst (Run X v) = Inr s" and "OK s"
    and "vr_Head r = vr_Head s"
    and "digest_sound X (chain_inputs X genesisHash (walk_rows 0 (w_db w))
           \<union> chain_inputs X genesisHash (walk_rows 0 (w_db v)))"
  shows "map (payload X) (walk_rows 0 (w_db w)) = map (payload X) (walk_rows 0 (w_db v))"
  using assms Run_OK_iff [of w X r] Run_OK_iff [of v X s]
  by (intro same_head_same_payloads) auto

theorem same_head_same_log_witness:
  "map (payload demo_ext) (walk_rows 0 (w_db (demo_log 0)))
     = map (payload demo_ext) (walk_rows 0 (w_db (demo_log 5)))"
proof -
  obtain r s where "fst (Run demo_ext (demo_log 0)) = Inr r" and "OK r"
    and "fst (Run demo_ext (demo_log 5)) = Inr s" and "OK s" and "vr_Head r = vr_Head s"
    using demo_Run [of 0] demo_Run [of 5] demo_self_hash [of 0 5] by auto
  then show ?thesis
    by (intro same_head_same_log [where r = r and s = s])
       (simp_all add: demo_sha256_size demo_log_faults demo_log_idle demo_log_rows demo_walk demo_digest
         del: chain_inputs.simps)
qed

text \<open>C3. A head that was once current stays in the history: whatever is appended later,
  \<open>AnchorInHistory\<close> accepts it.\<close>

theorem anchored_head_stays:
  assumes "sha256_size X" and "genesis w0" and "(audit_step X)\<^sup>*\<^sup>* w0 w" and "(audit_step X)\<^sup>*\<^sup>* w w'"
    and "stored_head (w_db w) = Inr h"
  shows "AnchorInHistory X h (w'\<lparr>w_faults := []\<rparr>) = (Inr True, w'\<lparr>w_faults := []\<rparr>)"
proof -
  have inv: "chain_inv X w"
    using audit_steps_inv [OF assms(3) genesis_chain_inv [OF assms(2)] assms(1)] by simp
  then obtain rs where inv': "chain_inv X w'" and log: "audit_log (w_db w') = audit_log (w_db w) @ rs"
    using audit_steps_inv [OF assms(4) _ assms(1)] by blast
  have h: "h = chain_head genesisHash (audit_log (w_db w))"
    and ok: "log_ok X (w_audit_seq w') (w_db w')"
    using inv inv' assms(5) by (simp_all add: chain_inv_def log_ok_def)
  have "h \<noteq> []"
    using length_chain_head [of X genesisHash "audit_log (w_db w)"] inv assms(1) h
    by (auto simp: chain_inv_def log_ok_def genesisHash_def)
  moreover have "h = genesisHash \<or> (\<exists>xs r ys. walk_rows 0 (w_db w') = xs @ r # ys
      \<and> computeSelfHash X (chain_head genesisHash xs) r = h)"
  proof (cases "audit_log (w_db w)" rule: rev_cases)
    case (snoc xs r)
    with ok h log have "walk_rows 0 (w_db w') = xs @ r # rs
        \<and> computeSelfHash X (chain_head genesisHash xs) r = h"
      by (simp add: walk_rows_log_ok [OF ok]) (simp add: log_ok_def)
    then show ?thesis by blast
  qed (simp add: h)
  ultimately show ?thesis
    using AnchorInHistory_ok [of "w'\<lparr>w_faults := []\<rparr>" X h] inv' log_ok_distinct [OF ok]
    by (simp add: chain_inv_def)
qed

theorem anchored_head_stays_witness:
  "AnchorInHistory demo_ext (al_self_hash (demo_row 0)) (demo_faulty\<lparr>w_faults := []\<rparr>)
     = (Inr True, demo_faulty\<lparr>w_faults := []\<rparr>)"
  by (rule anchored_head_stays [OF demo_sha256_size demo_genesis demo_steps]) (simp add: demo_stored)







text \<open>C7. An append is atomic under every failure pattern: either nothing of the database
  has changed, and an error is reported, or one row has been added at the end, with a
  fresh number, chained to the head before it, and the head has moved to it.\<close>

theorem append_atomic:
  assumes "chain_inv X w" and "sha256_size X" and "event_ok ev" and "stored_head (w_db w) = Inr h"
    and "Append X ev w = (r, w')"
  shows "(w_db w' = w_db w \<and> (\<exists>e. r = Inl e)) \<or>
    (\<exists>row. audit_log (w_db w') = audit_log (w_db w) @ [row] \<and> w_audit_seq w < al_id row
       \<and> al_prev_hash row = h \<and> al_self_hash row = sha256 X (h @ canonicalRow X ev (w_now w))
       \<and> stored_head (w_db w') = Inr (al_self_hash row))"
proof -
  have "append_outcome X ev h w r w'"
    using Append_outcome [of w h X ev] assms by (simp add: chain_inv_def wp_def)
  moreover have "chain_inv X w'" using Append_chain_inv [OF assms(1-3)] assms(5) by simp
  ultimately show ?thesis
    by (auto simp: append_outcome_def chain_inv_def log_ok_def with_row_def with_head_def row_of_event_def)
qed

theorem append_atomic_witness:
  "let (r, w') = Append demo_ext demo_event (demo_log 0) in
   (w_db w' = w_db (demo_log 0) \<and> (\<exists>e. r = Inl e)) \<or>
    (\<exists>row. audit_log (w_db w') = audit_log (w_db (demo_log 0)) @ [row]
       \<and> w_audit_seq (demo_log 0) < al_id row \<and> al_prev_hash row = al_self_hash (demo_row 0)
       \<and> al_self_hash row = sha256 demo_ext (al_self_hash (demo_row 0)
            @ canonicalRow demo_ext demo_event (w_now (demo_log 0)))
       \<and> stored_head (w_db w') = Inr (al_self_hash row))"
  using append_atomic [OF demo_log_inv [of 0] demo_sha256_size demo_event_ok demo_stored [of 0]]
  by (simp split: prod.split)

end
