(* ===== verification/Audit_Jobs.thy ===== *)
theory Audit_Jobs
  imports Audit_Proofs
begin

text \<open>
  The signed anchors of the audit chain: the local Ed25519 signer
  (\<open>internal/audit/anchor.go\<close>), the job that signs the current head
  (\<open>internal/jobs/audit_chain_anchor.go\<close>), the job that verifies chain and anchor
  (\<open>internal/jobs/audit_chain_verify.go\<close>) and the queries on
  \<open>audit_chain_anchors\<close>.  A signer that is not configured (a nil interface) is
  \<open>None\<close>.  The verification job never fails because of a mismatch, so its outcome is
  the list of values of the label of \<open>AuditChainVerifyRunsTotal\<close> it increments, with
  the error it returns.
\<close>

section \<open>Signer\<close>

record LocalSigner =
  ls_priv :: bytes
  ls_pub :: bytes
  ls_signerID :: string



definition SignerID :: "LocalSigner option \<Rightarrow> string" where
  "SignerID s = (case s of None \<Rightarrow> '''' | Some s \<Rightarrow> ls_signerID s)"

text \<open>Two digits for each of the first eight bytes; the buffer is zeroed beyond them.\<close>

definition signerIDFromPub :: "bytes \<Rightarrow> string" where
  "signerIDFromPub pub = ''local:'' @
     (let out = hex_EncodeToString (take 8 pub) in out @ replicate (16 - length out) (CHR 0x00))"

section \<open>Queries\<close>



section \<open>The anchor job\<close>




definition auditChainAnchorInterval :: "duration \<Rightarrow> duration" where
  "auditChainAnchorInterval d = (if d < minute then hour else d)"

section \<open>The verification job\<close>



definition auditChainVerifyInterval :: "duration \<Rightarrow> duration" where
  "auditChainVerifyInterval d = (if d < minute then 24 * hour else d)"

section \<open>Histories of appends and anchors\<close>




















section \<open>Instances\<close>



text \<open>External code under which only the head of \<open>demo_log 0\<close> has been signed.\<close>

definition signed_ext :: ext where
  "signed_ext = demo_ext\<lparr>ed25519_Verify := (\<lambda>pub m sig. m = al_self_hash (demo_row 0) \<and> sig = pub @ m)\<rparr>"

lemma signed_ext_sha [simp]:
  "sha256 signed_ext = sha256 demo_ext" "uuid_String signed_ext = uuid_String demo_ext"
  by (simp_all add: signed_ext_def)

lemma signed_ext_row [simp]: "canonicalRow signed_ext = canonicalRow demo_ext"
  by (simp add: canonicalRow_def fun_eq_iff cong: option.case_cong)

lemma signed_ext_Append [simp]: "Append signed_ext = Append demo_ext"
  by (simp add: Append_def fun_eq_iff)

lemma signed_ext_payload [simp]: "payload signed_ext = payload demo_ext"
  by (simp add: payload_def fun_eq_iff)







section \<open>Properties\<close>





end
