(* ===== verification/Argon2_Phc.thy ===== *)
theory Argon2_Phc
  imports Store Codec Externals
begin

text \<open>
  Hashing and checking of authentication keys (\<open>internal/auth/argon2.go\<close>): the PHC
  string format with its printer and parser.  The Argon2id function itself is external
  code; it panics unless \<open>t \<ge> 1\<close>, \<open>p \<ge> 1\<close> and the requested length is at least 4, which
  the parser has to guarantee.  The semaphore that bounds concurrent evaluations has no
  effect on results and is left out.
\<close>

section \<open>Base64 without padding\<close>

definition b64_char :: "nat \<Rightarrow> char" where
  "b64_char n = (if n < 26 then char_of (65 + n) else if n < 52 then char_of (71 + n)
     else if n < 62 then char_of (n - 4) else if n = 62 then CHR ''+'' else CHR ''/'')"

definition b64_val :: "char \<Rightarrow> nat option" where
  "b64_val c = (let n = of_char c in
     if 65 \<le> n \<and> n \<le> 90 then Some (n - 65) else if 97 \<le> n \<and> n \<le> 122 then Some (n - 71)
     else if 48 \<le> n \<and> n \<le> 57 then Some (n + 4) else if n = 43 then Some 62
     else if n = 47 then Some 63 else None)"

fun b64_encode :: "nat list \<Rightarrow> nat list" where
  "b64_encode (a # b # c # bs) =
     [a div 4, (a mod 4) * 16 + b div 16, (b mod 16) * 4 + c div 64, c mod 64] @ b64_encode bs"
| "b64_encode [a, b] = [a div 4, (a mod 4) * 16 + b div 16, (b mod 16) * 4]"
| "b64_encode [a] = [a div 4, (a mod 4) * 16]"
| "b64_encode [] = []"

fun b64_decode :: "nat list \<Rightarrow> nat list option" where
  "b64_decode (a # b # c # d # bs) = (case b64_decode bs of None \<Rightarrow> None
     | Some r \<Rightarrow> Some ([a * 4 + b div 16, (b mod 16) * 16 + c div 4, (c mod 4) * 64 + d] @ r))"
| "b64_decode [a, b, c] = Some [a * 4 + b div 16, (b mod 16) * 16 + c div 4]"
| "b64_decode [a, b] = Some [a * 4 + b div 16]"
| "b64_decode [a] = None"
| "b64_decode [] = Some []"

definition RawStd_EncodeToString :: "bytes \<Rightarrow> string" where
  "RawStd_EncodeToString bs = map b64_char (b64_encode (map of_char bs))"

text \<open>The decoder skips line breaks and ignores the unused low bits of the last character.\<close>

definition RawStd_DecodeString :: "string \<Rightarrow> bytes option" where
  "RawStd_DecodeString s =
     (let vs = map b64_val (filter (\<lambda>c. c \<noteq> CHR 0x0A \<and> c \<noteq> CHR 0x0D) s) in
      if None \<in> set vs then None else map_option (map char_of) (b64_decode (map the vs)))"

lemma b64_val_char: "n < 64 \<Longrightarrow> b64_val (b64_char n) = Some n"
  by (auto simp: b64_val_def b64_char_def Let_def)

lemma b64_encode_less: "\<forall>b \<in> set bs. b < 256 \<Longrightarrow> v \<in> set (b64_encode bs) \<Longrightarrow> v < 64"
  by (induction bs rule: b64_encode.induct) auto

lemma b64_decode_encode: "\<forall>b \<in> set bs. b < 256 \<Longrightarrow> b64_decode (b64_encode bs) = Some bs"
proof (induction bs rule: b64_encode.induct)
  case (1 a b c bs)
  have "a div 4 * 4 + ((a mod 4) * 16 + b div 16) div 16 = a"
    and "((a mod 4) * 16 + b div 16) mod 16 * 16 + ((b mod 16) * 4 + c div 64) div 4 = b"
    and "((b mod 16) * 4 + c div 64) mod 4 * 64 + c mod 64 = c"
    using "1.prems" by auto
  with 1 show ?case by simp
qed auto

lemma RawStd_chars: "c \<in> set (RawStd_EncodeToString bs) \<Longrightarrow> b64_val c \<noteq> None"
proof -
  assume "c \<in> set (RawStd_EncodeToString bs)"
  then obtain v where "v \<in> set (b64_encode (map of_char bs))" and "c = b64_char v"
    by (auto simp: RawStd_EncodeToString_def)
  moreover have "v < 64"
    by (rule b64_encode_less [OF _ calculation(1)]) (auto simp: of_char_less)
  ultimately show ?thesis by (simp add: b64_val_char)
qed

lemma RawStd_roundtrip: "RawStd_DecodeString (RawStd_EncodeToString bs) = Some bs"
proof -
  let ?e = "b64_encode (map of_char bs)"
  have less: "\<forall>v \<in> set ?e. v < 64" using b64_encode_less [of "map of_char bs"] by (auto simp: of_char_less)
  have "filter (\<lambda>c. c \<noteq> CHR 0x0A \<and> c \<noteq> CHR 0x0D) (RawStd_EncodeToString bs) = RawStd_EncodeToString bs"
    by (rule filter_True) (auto dest: RawStd_chars simp: b64_val_def)
  moreover have vals: "map b64_val (RawStd_EncodeToString bs) = map Some ?e"
    using less by (simp add: RawStd_EncodeToString_def b64_val_char)
  moreover have "b64_decode ?e = Some (map of_char bs)"
    by (rule b64_decode_encode) (auto simp: of_char_less)
  ultimately show ?thesis
    by (simp add: RawStd_DecodeString_def comp_def)
qed

section \<open>Splitting and numbers\<close>

text \<open>\<open>strings.Split(s, sep)\<close> for a separator of one byte.\<close>

fun split_on :: "char \<Rightarrow> string \<Rightarrow> string list" where
  "split_on c [] = [[]]"
| "split_on c (x # xs) = (if x = c then [] # split_on c xs
     else case split_on c xs of [] \<Rightarrow> [[x]] | y # ys \<Rightarrow> (x # y) # ys)"

text \<open>\<open>strings.Cut(s, sep)\<close>\<close>

fun cut_on :: "char \<Rightarrow> string \<Rightarrow> (string \<times> string) option" where
  "cut_on c [] = None"
| "cut_on c (x # xs) = (if x = c then Some ([], xs)
     else map_option (\<lambda>(a, b). (x # a, b)) (cut_on c xs))"

definition is_digit :: "char \<Rightarrow> bool" where
  "is_digit c \<longleftrightarrow> 48 \<le> (of_char c :: nat) \<and> of_char c \<le> (57 :: nat)"

fun dec_val :: "nat \<Rightarrow> string \<Rightarrow> nat" where
  "dec_val acc [] = acc"
| "dec_val acc (c # cs) = dec_val (acc * 10 + (of_char c - 48)) cs"

text \<open>\<open>strconv.ParseUint(s, 10, 32)\<close>: \<open>None\<close> on a syntax or range error.\<close>

definition ParseUint32 :: "string \<Rightarrow> nat option" where
  "ParseUint32 s = (if s \<noteq> [] \<and> list_all is_digit s \<and> dec_val 0 s < 2 ^ 32 then Some (dec_val 0 s) else None)"

text \<open>
  \<open>fmt.Sscanf(s, "v=%d", &version)\<close>: after the literal text, blanks are skipped, a sign
  is accepted, and the longest run of digits is read; what follows is not looked at.
\<close>

definition sscanf_version :: "string \<Rightarrow> int option" where
  "sscanf_version s = (if take 2 s \<noteq> ''v='' then None else
     (let t = dropWhile (\<lambda>c. c \<in> set [CHR 0x20, CHR 0x09, CHR 0x0B, CHR 0x0C, CHR 0x0D]) (drop 2 s);
          neg = (t \<noteq> [] \<and> hd t = CHR ''-'');
          u = (if t \<noteq> [] \<and> (hd t = CHR ''-'' \<or> hd t = CHR ''+'') then tl t else t);
          ds = takeWhile is_digit u
      in if ds = [] then None
         else let n = int (dec_val 0 ds); v = (if neg then - n else n)
              in if - (2 ^ 63) \<le> v \<and> v < 2 ^ 63 then Some v else None))"

lemma split_on_nonempty: "split_on c s \<noteq> []"
  by (cases s) (auto split: list.split)

lemma split_on_append:
  "c \<notin> set a \<Longrightarrow> split_on c (a @ c # b) = a # split_on c b"
  by (induction a) auto

lemma split_on_single: "c \<notin> set a \<Longrightarrow> split_on c a = [a]"
  by (induction a) auto

lemma cut_on_append: "c \<notin> set a \<Longrightarrow> cut_on c (a @ c # b) = Some (a, b)"
  by (induction a) auto

lemma dec_val_append: "dec_val acc (s @ t) = dec_val (dec_val acc s) t"
  by (induction s arbitrary: acc) auto

lemma is_digit_char: "m < 10 \<Longrightarrow> is_digit (digit_char m)"
  by (simp add: is_digit_def)

lemma show_nat_digits: "list_all is_digit (show_nat n)"
proof (induction n rule: show_nat.induct)
  case (1 n)
  then show ?case
    by (simp add: show_nat.simps [of n] is_digit_char del: digit_char.simps)
qed

lemma dec_val_show_nat: "dec_val 0 (show_nat n) = n"
proof (induction n rule: show_nat.induct)
  case (1 n)
  then show ?case
    by (subst show_nat.simps) (auto simp: dec_val_append)
qed

lemma show_nat_nonempty: "show_nat n \<noteq> []"
  by (subst show_nat.simps) simp

lemma ParseUint32_show: "n < 2 ^ 32 \<Longrightarrow> ParseUint32 (show_nat n) = Some n"
  by (simp add: ParseUint32_def show_nat_nonempty show_nat_digits dec_val_show_nat)

lemma digit_free: "list_all is_digit s \<Longrightarrow> \<not> is_digit c \<Longrightarrow> c \<notin> set s"
  by (auto simp: list_all_iff)

section \<open>The PHC format\<close>

record Argon2Params =
  ap_T :: nat
  ap_MKiB :: nat
  ap_P :: nat

definition argon2Version :: nat where "argon2Version = 19"
definition saltLen :: nat where "saltLen = 16"
definition keyLen :: nat where "keyLen = 32"

definition print_PHC :: "Argon2Params \<Rightarrow> bytes \<Rightarrow> bytes \<Rightarrow> string" where
  "print_PHC p salt dk =
     ''$argon2id$v='' @ show_nat argon2Version @ ''$m='' @ show_nat (ap_MKiB p) @ '',t='' @
     show_nat (ap_T p) @ '',p='' @ show_nat (ap_P p) @ ''$'' @
     RawStd_EncodeToString salt @ ''$'' @ RawStd_EncodeToString dk"

definition HashAuthKey :: "ext \<Rightarrow> bytes \<Rightarrow> Argon2Params \<Rightarrow> string act" where
  "HashAuthKey X authKey p =
     (if authKey = [] then raiseE (Msg ''empty auth key'')
      else bindE (randRead saltLen) (\<lambda>salt.
        let dk = argon2_IDKey X authKey salt (ap_T p) (ap_MKiB p) (ap_P p) keyLen
        in returnE (print_PHC p salt dk)))"

text \<open>The loop over the parameters; \<open>p\<close> is truncated to eight bits.\<close>

fun parse_params :: "string list \<Rightarrow> Argon2Params \<Rightarrow> Argon2Params result" where
  "parse_params [] acc = Inr acc"
| "parse_params (pair # kv) acc = (case cut_on CHR ''='' pair of
     None \<Rightarrow> Inl (Msg ''argon2: invalid param'')
   | Some (k, v) \<Rightarrow> (case ParseUint32 v of
       None \<Rightarrow> Inl (Msg ''argon2: invalid param'')
     | Some n \<Rightarrow>
         if k = ''m'' then parse_params kv (acc\<lparr>ap_MKiB := n\<rparr>)
         else if k = ''t'' then parse_params kv (acc\<lparr>ap_T := n\<rparr>)
         else if k = ''p'' then parse_params kv (acc\<lparr>ap_P := n mod 256\<rparr>)
         else Inl (Msg ''argon2: unknown param'')))"

definition parsePHC :: "string \<Rightarrow> (Argon2Params \<times> bytes \<times> bytes) result" where
  "parsePHC s =
     (let parts = split_on CHR ''$'' s in
      if length parts \<noteq> 6 then Inl (Msg ''argon2: invalid PHC parts'')
      else if parts ! 1 \<noteq> ''argon2id'' then Inl (Msg ''argon2: unsupported algorithm'')
      else if sscanf_version (parts ! 2) \<noteq> Some (int argon2Version) then Inl (Msg ''argon2: unsupported version'')
      else let kv = split_on CHR '','' (parts ! 3) in
      if length kv \<noteq> 3 then Inl (Msg ''argon2: invalid params'')
      else case parse_params kv \<lparr>ap_T = 0, ap_MKiB = 0, ap_P = 0\<rparr> of
        Inl e \<Rightarrow> Inl e
      | Inr p \<Rightarrow>
          if ap_T p < 1 \<or> ap_P p < 1 \<or> ap_MKiB p < 8 * ap_P p then Inl (Msg ''argon2: out-of-range params'')
          else case RawStd_DecodeString (parts ! 4) of
            None \<Rightarrow> Inl (Msg ''argon2: decode salt'')
          | Some salt \<Rightarrow> (case RawStd_DecodeString (parts ! 5) of
              None \<Rightarrow> Inl (Msg ''argon2: decode hash'')
            | Some hash \<Rightarrow>
                if length hash < 4 then Inl (Msg ''argon2: hash too short'')
                else Inr (p, salt, hash)))"

definition VerifyAuthKey :: "ext \<Rightarrow> bytes \<Rightarrow> string \<Rightarrow> bool result" where
  "VerifyAuthKey X authKey encoded = (case parsePHC encoded of
     Inl e \<Rightarrow> Inl e
   | Inr (p, salt, want) \<Rightarrow>
       Inr (argon2_IDKey X authKey salt (ap_T p) (ap_MKiB p) (ap_P p) (length want) = want))"

section \<open>Parsing what was printed\<close>

text \<open>The ranges of the Go types and the limits of Argon2.\<close>

definition params_ok :: "Argon2Params \<Rightarrow> bool" where
  "params_ok p \<longleftrightarrow> 1 \<le> ap_T p \<and> ap_T p < 2 ^ 32 \<and> 1 \<le> ap_P p \<and> ap_P p < 256
     \<and> 8 * ap_P p \<le> ap_MKiB p \<and> ap_MKiB p < 2 ^ 32"

lemma show_nat_free: "\<not> is_digit c \<Longrightarrow> c \<notin> set (show_nat n)"
  by (rule digit_free [OF show_nat_digits])

lemma RawStd_free: "b64_val c = None \<Longrightarrow> c \<notin> set (RawStd_EncodeToString bs)"
  by (metis RawStd_chars)

lemmas phc_free = show_nat_free RawStd_free

lemma split_PHC:
  "split_on CHR ''$'' (print_PHC p salt dk) =
     ['''', ''argon2id'', ''v='' @ show_nat argon2Version,
      ''m='' @ show_nat (ap_MKiB p) @ '',t='' @ show_nat (ap_T p) @ '',p='' @ show_nat (ap_P p),
      RawStd_EncodeToString salt, RawStd_EncodeToString dk]"
proof -
  let ?S = "split_on CHR ''$''"
  have fields: "print_PHC p salt dk = '''' @ CHR ''$'' # ''argon2id'' @ CHR ''$'' #
     (''v='' @ show_nat argon2Version) @ CHR ''$'' #
     (''m='' @ show_nat (ap_MKiB p) @ '',t='' @ show_nat (ap_T p) @ '',p='' @ show_nat (ap_P p)) @ CHR ''$'' #
     RawStd_EncodeToString salt @ CHR ''$'' # RawStd_EncodeToString dk"
    by (simp add: print_PHC_def)
  show ?thesis
    unfolding fields
    by (subst split_on_append, simp add: phc_free is_digit_def b64_val_def)+
       (subst split_on_single, simp_all add: phc_free is_digit_def b64_val_def)
qed

lemma split_params:
  "split_on CHR '','' (''m='' @ show_nat m @ '',t='' @ show_nat t @ '',p='' @ show_nat p) =
     [''m='' @ show_nat m, ''t='' @ show_nat t, ''p='' @ show_nat p]"
proof -
  have fields: "''m='' @ show_nat m @ '',t='' @ show_nat t @ '',p='' @ show_nat p =
     (''m='' @ show_nat m) @ CHR '','' # (''t='' @ show_nat t) @ CHR '','' # (''p='' @ show_nat p)"
    by simp
  show ?thesis
    unfolding fields
    by (subst split_on_append, simp add: phc_free is_digit_def)+
       (subst split_on_single, simp_all add: phc_free is_digit_def)
qed

lemma sscanf_version_show: "n < 10 ^ 9 \<Longrightarrow> sscanf_version (''v='' @ show_nat n) = Some (int n)"
proof -
  assume n: "n < 10 ^ 9"
  obtain d ds where s: "show_nat n = d # ds" using show_nat_nonempty by (meson list.exhaust)
  have "is_digit d" using show_nat_digits [of n] s by simp
  then have nb: "d \<notin> set [CHR 0x20, CHR 0x09, CHR 0x0B, CHR 0x0C, CHR 0x0D]" "d \<noteq> CHR ''-''" "d \<noteq> CHR ''+''"
    by (auto simp: is_digit_def)
  then have "dropWhile (\<lambda>c. c \<in> set [CHR 0x20, CHR 0x09, CHR 0x0B, CHR 0x0C, CHR 0x0D]) (show_nat n) = show_nat n"
    by (simp add: s)
  moreover have "takeWhile is_digit (show_nat n) = show_nat n"
    using show_nat_digits [of n] by (simp add: list_all_iff)
  ultimately show ?thesis
    using nb n dec_val_show_nat [of n] show_nat_nonempty [of n]
    by (simp add: sscanf_version_def Let_def s)
qed

lemma parse_print_PHC:
  assumes "params_ok p" and "4 \<le> length dk"
  shows "parsePHC (print_PHC p salt dk) = Inr (p, salt, dk)"
proof -
  have cuts: "cut_on CHR ''='' (k # CHR ''='' # show_nat n) = Some ([k], show_nat n)" if "k \<noteq> CHR ''=''" for k n
    using that by simp
  have "parse_params [''m='' @ show_nat (ap_MKiB p), ''t='' @ show_nat (ap_T p), ''p='' @ show_nat (ap_P p)]
      \<lparr>ap_T = 0, ap_MKiB = 0, ap_P = 0\<rparr> = Inr p"
    using assms(1) by (simp add: params_ok_def ParseUint32_show)
  then show ?thesis
    using assms
    by (simp add: parsePHC_def split_PHC split_params [simplified] sscanf_version_show [simplified]
        argon2Version_def RawStd_roundtrip params_ok_def)
qed

section \<open>Properties\<close>

text \<open>C18. Round trip of key hashing: with parameters in range, the string that
  \<open>HashAuthKey\<close> returns parses back to the parameters, the salt that was drawn and the
  derived key; \<open>VerifyAuthKey\<close> accepts the key, and accepts another key exactly if
  Argon2id derives the same bytes from it.\<close>

theorem hash_auth_key_roundtrip:
  assumes "params_ok p" and "k \<noteq> []"
    and idkey: "\<And>a s t m q n. length (argon2_IDKey X a s t m q n) = n"
  shows "\<exists>s salt dk w'. HashAuthKey X k p w = (Inr s, w') \<and> w_db w' = w_db w
    \<and> length salt = saltLen \<and> dk = argon2_IDKey X k salt (ap_T p) (ap_MKiB p) (ap_P p) keyLen
    \<and> parsePHC s = Inr (p, salt, dk) \<and> VerifyAuthKey X k s = Inr True
    \<and> (\<forall>k'. VerifyAuthKey X k' s
          = Inr (argon2_IDKey X k' salt (ap_T p) (ap_MKiB p) (ap_P p) keyLen = dk))"
proof -
  let ?salt = "map (w_rand w) [w_rand_pos w..<w_rand_pos w + saltLen]"
  let ?dk = "argon2_IDKey X k ?salt (ap_T p) (ap_MKiB p) (ap_P p) keyLen"
  have "HashAuthKey X k p w = (Inr (print_PHC p ?salt ?dk), w\<lparr>w_rand_pos := w_rand_pos w + saltLen\<rparr>)"
    using assms(2) by (simp add: HashAuthKey_def bindE_def randRead_def returnE_def Let_def)
  moreover have "parsePHC (print_PHC p ?salt ?dk) = Inr (p, ?salt, ?dk)"
    using assms(1) idkey by (intro parse_print_PHC) (simp_all add: keyLen_def)
  ultimately show ?thesis
    using idkey by (simp add: VerifyAuthKey_def)
qed

theorem hash_auth_key_roundtrip_witness:
  "\<exists>s salt dk w'. HashAuthKey demo_ext ''key'' \<lparr>ap_T = 3, ap_MKiB = 65536, ap_P = 4\<rparr> demo_world = (Inr s, w') \<and> w_db w' = w_db demo_world
    \<and> length salt = saltLen \<and> dk = argon2_IDKey demo_ext ''key'' salt 3 65536 4 keyLen
    \<and> parsePHC s = Inr (\<lparr>ap_T = 3, ap_MKiB = 65536, ap_P = 4\<rparr>, salt, dk) \<and> VerifyAuthKey demo_ext ''key'' s = Inr True
    \<and> (\<forall>k'. VerifyAuthKey demo_ext k' s = Inr (argon2_IDKey demo_ext k' salt 3 65536 4 keyLen = dk))"
  using hash_auth_key_roundtrip [of "\<lparr>ap_T = 3, ap_MKiB = 65536, ap_P = 4\<rparr>" "''key''" demo_ext demo_world]
  by (simp add: params_ok_def demo_ext_def)

text \<open>C19. No stored string makes the server panic: whatever \<open>parsePHC\<close> accepts has
  parameters in the ranges of their Go types and within the limits of Argon2
  (\<open>t \<ge> 1\<close>, \<open>p \<ge> 1\<close>, \<open>m \<ge> 8 p\<close>) and a hash of at least four bytes.\<close>

theorem parsePHC_params_in_range:
  assumes "parsePHC s = Inr (p, salt, hash)"
  shows "params_ok p \<and> 4 \<le> length hash"
proof -
  have range: "parse_params kv acc = Inr q \<Longrightarrow> ap_T acc < 2 ^ 32 \<Longrightarrow> ap_MKiB acc < 2 ^ 32 \<Longrightarrow> ap_P acc < 256
      \<Longrightarrow> ap_T q < 2 ^ 32 \<and> ap_MKiB q < 2 ^ 32 \<and> ap_P q < 256" for kv acc q
    by (induction kv acc rule: parse_params.induct)
       (auto split: option.splits if_splits simp: ParseUint32_def)
  from assms show ?thesis
    by (auto simp: parsePHC_def Let_def params_ok_def split: if_splits sum.splits option.splits dest: range)
qed

theorem parsePHC_params_in_range_witness:
  "params_ok \<lparr>ap_T = 3, ap_MKiB = 64, ap_P = 4\<rparr> \<and> 4 \<le> length ''hash''"
  by (rule parsePHC_params_in_range [OF parse_print_PHC [of "\<lparr>ap_T = 3, ap_MKiB = 64, ap_P = 4\<rparr>" "''hash''" "''salt''"]])
     (simp_all add: params_ok_def)

end
