(* ===== verification/Aead.thy ===== *)
theory Aead
  imports Argon2_Phc
begin

text \<open>
  The versioned AES-256-GCM envelope (\<open>internal/crypto/aead.go\<close>) and the key that
  encrypts authentication keys at rest (\<open>internal/auth/mfa_kek.go\<close>).  A key that was
  never initialised or has been closed is \<open>None\<close>.
\<close>

section \<open>Envelopes\<close>

definition nonceSize :: nat where "nonceSize = 12"
definition tagSize :: nat where "tagSize = 16"
definition versionSize :: nat where "versionSize = 1"
definition EnvelopeVersionV1 :: char where "EnvelopeVersionV1 = CHR 0x01"

lemmas aead_sizes = nonceSize_def tagSize_def versionSize_def

definition AESGCMOpen :: "ext \<Rightarrow> bytes \<Rightarrow> bytes \<Rightarrow> bytes \<Rightarrow> bytes result" where
  "AESGCMOpen X key blob aad =
     (if length key \<noteq> 32 then Inl (Msg ''aead: key length'')
      else if length blob < versionSize + nonceSize + tagSize then Inl (Msg ''aead: blob too short'')
      else if blob ! 0 \<noteq> EnvelopeVersionV1 then Inl (Msg ''aead: unsupported envelope version'')
      else let nonce = take nonceSize (drop versionSize blob);
               ct = drop (versionSize + nonceSize) blob
           in case gcm_open X key nonce ct aad of
                None \<Rightarrow> Inl (Wrap ''aead: open'' (Msg ''cipher: message authentication failed''))
              | Some pt \<Rightarrow> Inr pt)"

definition AESGCMSeal :: "ext \<Rightarrow> bytes \<Rightarrow> bytes \<Rightarrow> bytes \<Rightarrow> bytes \<Rightarrow> bytes result" where
  "AESGCMSeal X key nonce plaintext aad =
     (if length key \<noteq> 32 then Inl (Msg ''aead: key length'')
      else if length nonce \<noteq> nonceSize then Inl (Msg ''aead: nonce length'')
      else Inr (EnvelopeVersionV1 # nonce @ gcm_seal X key nonce plaintext aad))"

text \<open>\<open>crypto/cipher\<close>: opening inverts sealing, and the tag has 16 bytes.\<close>

definition gcm_correct :: "ext \<Rightarrow> bool" where
  "gcm_correct X \<longleftrightarrow> (\<forall>k n p a. gcm_open X k n (gcm_seal X k n p a) a = Some p
     \<and> length (gcm_seal X k n p a) = length p + 16)"

text \<open>
  Authenticity on the inputs at hand: what is sealed for one of the given additional data
  does not open for another one of them.
\<close>

definition gcm_binds :: "ext \<Rightarrow> bytes \<Rightarrow> bytes set \<Rightarrow> bool" where
  "gcm_binds X k A \<longleftrightarrow> (\<forall>n p. \<forall>a \<in> A. \<forall>a' \<in> A. a' \<noteq> a \<longrightarrow> gcm_open X k n (gcm_seal X k n p a) a' = None)"

lemma open_seal:
  assumes "gcm_correct X" and "AESGCMSeal X key nonce pt aad = Inr blob"
  shows "AESGCMOpen X key blob aad = Inr pt"
proof -
  have "length (gcm_seal X key nonce pt aad) = length pt + 16"
    and "gcm_open X key nonce (gcm_seal X key nonce pt aad) aad = Some pt"
    using assms(1) by (simp_all add: gcm_correct_def)
  with assms(2) show ?thesis
    by (auto simp: AESGCMSeal_def AESGCMOpen_def aead_sizes Let_def split: if_splits)
qed

lemma open_wrong_aad:
  assumes "gcm_binds X key {aad, aad'}" and "AESGCMSeal X key nonce pt aad = Inr blob" and "aad' \<noteq> aad"
  shows "\<exists>e. AESGCMOpen X key blob aad' = Inl e"
  using assms
  by (auto simp: AESGCMSeal_def AESGCMOpen_def gcm_binds_def aead_sizes Let_def split: if_splits)

section \<open>The key of the challenge store\<close>

record MFAKEK =
  kek_buf :: bytes
  kek_instanceLocal :: bool

definition NewMFAKEK :: "ext \<Rightarrow> bytes \<Rightarrow> MFAKEK act" where
  "NewMFAKEK X seed =
     (if length seed > 0 then
        (if length seed < 16 then raiseE (Msg ''mfa kek: seed must be at least 16 bytes'')
         else returnE \<lparr>kek_buf = hkdf_sha256 X seed [] ''oblivio/mfa-kek/v1'' 32, kek_instanceLocal = False\<rparr>)
      else bindE (randRead 32) (\<lambda>raw. returnE \<lparr>kek_buf = raw, kek_instanceLocal = True\<rparr>))"

definition IsInstanceLocal :: "MFAKEK option \<Rightarrow> bool" where
  "IsInstanceLocal k = (case k of None \<Rightarrow> True | Some k \<Rightarrow> kek_instanceLocal k)"

definition kek_Seal :: "ext \<Rightarrow> MFAKEK option \<Rightarrow> bytes \<Rightarrow> bytes \<Rightarrow> bytes act" where
  "kek_Seal X k plaintext aad = (case k of
     None \<Rightarrow> raiseE (Msg ''mfa kek: not initialised'')
   | Some k \<Rightarrow> bindE (randRead 12) (\<lambda>nonce. liftE (AESGCMSeal X (kek_buf k) nonce plaintext aad)))"

definition kek_Open :: "ext \<Rightarrow> MFAKEK option \<Rightarrow> bytes \<Rightarrow> bytes \<Rightarrow> bytes result" where
  "kek_Open X k blob aad = (case k of
     None \<Rightarrow> Inl (Msg ''mfa kek: not initialised'')
   | Some k \<Rightarrow> AESGCMOpen X (kek_buf k) blob aad)"

text \<open>Padded base64, as \<open>base64.StdEncoding\<close> reads it.\<close>

definition Std_DecodeString :: "string \<Rightarrow> bytes option" where
  "Std_DecodeString s =
     (let t = filter (\<lambda>c. c \<noteq> CHR 0x0A \<and> c \<noteq> CHR 0x0D) s;
          body = (if length t > 1 \<and> drop (length t - 2) t = ''=='' then take (length t - 2) t
                  else if length t > 0 \<and> last t = CHR ''='' then take (length t - 1) t else t)
      in if length t mod 4 \<noteq> 0 then None else RawStd_DecodeString body)"

definition DecodeKEKSeed :: "string \<Rightarrow> bytes result" where
  "DecodeKEKSeed s =
     (if s = '''' then Inr []
      else case hex_DecodeString s of Some b \<Rightarrow> Inr b
      | None \<Rightarrow> (case Std_DecodeString s of Some b \<Rightarrow> Inr b
      | None \<Rightarrow> (case RawStd_DecodeString s of Some b \<Rightarrow> Inr b
      | None \<Rightarrow> Inl (Msg ''mfa kek seed: not valid hex or base64''))))"

lemma NewMFAKEK_key_length:
  assumes "\<And>s t i n. length (hkdf_sha256 X s t i n) = n" and "fst (NewMFAKEK X seed w) = Inr k"
  shows "length (kek_buf k) = 32"
  using assms
  by (auto simp: NewMFAKEK_def raiseE_def returnE_def bindE_def randRead_def split: if_splits)

lemma demo_gcm_correct: "gcm_correct demo_ext"
  by (simp add: gcm_correct_def demo_ext_def Let_def)

lemma mod_add_cancel_le:
  fixes a b c q :: nat
  assumes "(c + a) mod q = (c + b) mod q" and "b < q" and "a \<le> b"
  shows "a = b"
proof -
  have "q dvd (c + b) - (c + a)"
    using assms by (subst mod_eq_dvd_iff_nat [symmetric]) auto
  then have "q dvd b - a" by simp
  with assms(2) have "b - a = 0" using nat_dvd_not_less [of "b - a" q] by (cases "b - a = 0") auto
  with assms(3) show ?thesis by simp
qed

lemma mod_add_cancel:
  fixes a b c q :: nat
  shows "(c + a) mod q = (c + b) mod q \<Longrightarrow> a < q \<Longrightarrow> b < q \<Longrightarrow> a = b"
  using mod_add_cancel_le [of c a q b] mod_add_cancel_le [of c b q a] by (cases "a \<le> b") auto

lemma demo_tag_inj: "take 16 (demo_sha256 (xs @ [a])) = take 16 (demo_sha256 (xs @ [b])) \<Longrightarrow> a = b"
proof -
  define P :: nat where "P = 2 ^ 127 - 1"
  define m where "m = nat_of_bytes xs 7 * 256"
  have P: "256 \<le> P" "P < 256 ^ 16" by (simp_all add: P_def)
  assume "take 16 (demo_sha256 (xs @ [a])) = take 16 (demo_sha256 (xs @ [b]))"
  then have eq: "bytes_of_nat 16 ((m + of_char a) mod P + 1) = bytes_of_nat 16 ((m + of_char b) mod P + 1)"
    unfolding demo_sha256_def nat_of_bytes_snoc P_def [symmetric] m_def [symmetric]
    by (subst (asm) (1 2) take_bytes_of_nat) simp_all
  have "(m + x) mod P + 1 < 256 ^ 16" for x
    using P mod_less_divisor [of P "m + x"] by linarith
  then have "(m + of_char a) mod P + 1 = (m + of_char b) mod P + 1"
    by (intro bytes_of_nat_inj [OF eq])
  then have m: "(m + of_char a) mod P = (m + of_char b) mod P" by (rule add_right_imp_eq)
  have "(of_char a :: nat) < P" "(of_char b :: nat) < P"
    using of_char_less [of a] of_char_less [of b] P by linarith+
  with m have "(of_char a :: nat) = of_char b" by (rule mod_add_cancel)
  then show ?thesis by simp
qed

lemma demo_gcm_binds: "gcm_binds demo_ext k {''a'', ''b''}"
proof -
  have "take 16 (demo_sha256 (xs @ ''a'')) \<noteq> take 16 (demo_sha256 (xs @ ''b''))" for xs
    using demo_tag_inj [of xs "CHR ''a''" "CHR ''b''"] by auto
  from this [of "k @ _ @ _"] show ?thesis
    by (auto simp: gcm_binds_def demo_ext_def Let_def) metis
qed

section \<open>Properties\<close>

text \<open>C20. Encryption at rest: what \<open>Seal\<close> produces under a 32-byte key opens to the
  plaintext with the same additional data, does not open with other additional data (so
  a ciphertext cannot be moved to another challenge), and carries version, nonce and tag
  around the ciphertext.\<close>

theorem kek_seal_open:
  assumes "gcm_correct X" and "length (kek_buf k) = 32"
    and "aad' \<noteq> aad" and "gcm_binds X (kek_buf k) {aad, aad'}"
  shows "\<exists>blob w'. kek_Seal X (Some k) pt aad w = (Inr blob, w') \<and> w_db w' = w_db w
    \<and> length blob = 1 + 12 + length pt + 16 \<and> kek_Open X (Some k) blob aad = Inr pt
    \<and> (\<exists>e. kek_Open X (Some k) blob aad' = Inl e)"
proof -
  let ?nonce = "map (w_rand w) [w_rand_pos w..<w_rand_pos w + 12]"
  obtain blob where seal: "AESGCMSeal X (kek_buf k) ?nonce pt aad = Inr blob"
    and "length blob = 1 + 12 + length pt + 16"
    using assms by (simp add: AESGCMSeal_def nonceSize_def gcm_correct_def)
  moreover have "kek_Seal X (Some k) pt aad w = (Inr blob, w\<lparr>w_rand_pos := w_rand_pos w + 12\<rparr>)"
    using seal by (simp add: kek_Seal_def bindE_def randRead_def liftE_def)
  ultimately show ?thesis
    using open_seal [OF assms(1) seal] open_wrong_aad [OF assms(4) seal assms(3)] by (simp add: kek_Open_def)
qed

theorem kek_seal_open_witness:
  "\<exists>blob w'. kek_Seal demo_ext (Some \<lparr>kek_buf = replicate 32 (CHR ''k''), kek_instanceLocal = True\<rparr>)
        ''secret'' ''a'' demo_world = (Inr blob, w') \<and> w_db w' = w_db demo_world
    \<and> length blob = 1 + 12 + length ''secret'' + 16
    \<and> kek_Open demo_ext (Some \<lparr>kek_buf = replicate 32 (CHR ''k''), kek_instanceLocal = True\<rparr>) blob ''a''
        = Inr ''secret''
    \<and> (\<exists>e. kek_Open demo_ext (Some \<lparr>kek_buf = replicate 32 (CHR ''k''), kek_instanceLocal = True\<rparr>)
           blob ''b'' = Inl e)"
  by (rule kek_seal_open) (simp_all add: demo_gcm_correct demo_gcm_binds)

end
