(* ===== verification/Repo_Auth.thy ===== *)
theory Repo_Auth
  imports Store
begin

text \<open>
  The generated queries on the account tables (\<open>internal/store/repos/repo_users\<close>,
  \<open>repo_user_auth\<close>, \<open>repo_user_kdf_params\<close>, \<open>repo_user_vault\<close>,
  \<open>repo_user_login_totp\<close>, \<open>repo_email_verification_tokens\<close>,
  \<open>repo_auth_sessions\<close>, \<open>repo_auth_tokens\<close>, \<open>repo_mfa_challenges\<close>,
  \<open>repo_recovery_sessions\<close>), one action per query, after the SQL text of the query and
  the constraints of the schema: a primary key or unique violation is SQLSTATE 23505, a
  missing referenced user 23503, an integer out of range 22003, a row level security
  violation 42501.
\<close>

section \<open>Constraints\<close>

definition fk_user :: "db \<Rightarrow> uuid \<Rightarrow> bool" where
  "fk_user d u \<longleftrightarrow> (\<exists>r \<in> set (users d). us_id r = u)"

definition int4_max :: int where
  "int4_max = 2147483647"

text \<open>\<open>citext\<close> compares case-insensitively.\<close>

definition to_lower :: "char \<Rightarrow> char" where
  "to_lower c = (let n = of_char c :: nat in if 65 \<le> n \<and> n \<le> 90 then char_of (n + 32) else c)"

definition citext_eq :: "string \<Rightarrow> string \<Rightarrow> bool" where
  "citext_eq a b \<longleftrightarrow> map to_lower a = map to_lower b"

section \<open>users\<close>

definition CreateUser :: "string \<Rightarrow> User act" where
  "CreateUser email = bindE uuidNew (\<lambda>i. dml (\<lambda>w.
     if (\<exists>r \<in> set (users (w_db w)). us_id r = i \<or> citext_eq (us_email r) email)
     then Inl (PgError ''23505'')
     else let u = \<lparr>us_id = i, us_email = email, us_email_verified_at = None, us_is_active = True,
                   us_created_at = w_now w, us_updated_at = w_now w\<rparr>
          in Inr (u, (w_db w)\<lparr>users := users (w_db w) @ [u]\<rparr>)))"

text \<open>Deleting a user cascades to every table that references it.\<close>

definition delete_user_rows :: "uuid \<Rightarrow> db \<Rightarrow> db" where
  "delete_user_rows u d = d\<lparr>
     users := del_where (\<lambda>r. us_id r = u) (users d),
     user_kdf_params := del_where (\<lambda>r. uk_user_id r = u) (user_kdf_params d),
     user_auth := del_where (\<lambda>r. ua_user_id r = u) (user_auth d),
     user_vault := del_where (\<lambda>r. uv_user_id r = u) (user_vault d),
     user_login_totp := del_where (\<lambda>r. ul_user_id r = u) (user_login_totp d),
     email_verification_tokens := del_where (\<lambda>r. ev_user_id r = u) (email_verification_tokens d),
     auth_sessions := del_where (\<lambda>r. as_user_id r = u) (auth_sessions d),
     auth_tokens := del_where (\<lambda>r. at_user_id r = Some u) (auth_tokens d),
     projects := del_where (\<lambda>r. pr_user_id r = u) (projects d),
     entries := del_where (\<lambda>r. en_user_id r = u) (entries d),
     idempotency_keys := del_where (\<lambda>r. ik_user_id r = u) (idempotency_keys d),
     user_webauthn_credentials := del_where (\<lambda>r. wc_user_id r = u) (user_webauthn_credentials d),
     mfa_challenges := del_where (\<lambda>r. mc_user_id r = u) (mfa_challenges d),
     recovery_sessions := del_where (\<lambda>r. rs_user_id r = u) (recovery_sessions d)\<rparr>"

definition DeleteUser :: "uuid \<Rightarrow> unit act" where
  "DeleteUser u = exec (\<lambda>w. if fk_user (w_db w) u then delete_user_rows u (w_db w) else w_db w)"

definition GetUserByEmail :: "string \<Rightarrow> User act" where
  "GetUserByEmail email = queryRow (\<lambda>w. List.find (\<lambda>r. citext_eq (us_email r) email) (users (w_db w)))"

definition GetUserByID :: "uuid \<Rightarrow> User act" where
  "GetUserByID u = queryRow (\<lambda>w. List.find (\<lambda>r. us_id r = u) (users (w_db w)))"

definition MarkEmailVerified :: "uuid \<Rightarrow> unit act" where
  "MarkEmailVerified u = exec (\<lambda>w. (w_db w)\<lparr>users := upd_where (\<lambda>r. us_id r = u)
     (\<lambda>r. r\<lparr>us_email_verified_at := Some (w_now w), us_updated_at := w_now w\<rparr>) (users (w_db w))\<rparr>)"

section \<open>user\_kdf\_params\<close>

definition GetUserKDFParams :: "uuid \<Rightarrow> UserKdfParam act" where
  "GetUserKDFParams u = queryRow (\<lambda>w. List.find (\<lambda>r. uk_user_id r = u) (user_kdf_params (w_db w)))"

definition UpsertUserKDFParams :: "UserKdfParam \<Rightarrow> unit act" where
  "UpsertUserKDFParams p = dml (\<lambda>w.
     if \<not> fk_user (w_db w) (uk_user_id p) then Inl (PgError ''23503'')
     else Inr ((), (w_db w)\<lparr>user_kdf_params :=
       upsert (\<lambda>r. uk_user_id r = uk_user_id p) (\<lambda>_. p) p (user_kdf_params (w_db w))\<rparr>))"

section \<open>user\_auth\<close>

definition GetUserAuth :: "uuid \<Rightarrow> UserAuth act" where
  "GetUserAuth u = queryRow (\<lambda>w. List.find (\<lambda>r. ua_user_id r = u) (user_auth (w_db w)))"

text \<open>The row that \<open>RecordFailedLogin\<close> computes at the given time.\<close>

definition failed_login_row :: "time \<Rightarrow> UserAuth \<Rightarrow> UserAuth" where
  "failed_login_row t r = r\<lparr>ua_failed_attempts := ua_failed_attempts r + 1,
     ua_locked_until :=
       (if ua_failed_attempts r + 1 \<ge> 5 \<and>
           (case ua_locked_until r of None \<Rightarrow> True | Some l \<Rightarrow> l \<le> t)
        then Some (t + 15 * minute) else ua_locked_until r)\<rparr>"

definition RecordFailedLogin :: "uuid \<Rightarrow> (int \<times> time option) act" where
  "RecordFailedLogin u = dml (\<lambda>w. case List.find (\<lambda>r. ua_user_id r = u) (user_auth (w_db w)) of
     None \<Rightarrow> Inl NoRows
   | Some r \<Rightarrow>
       if ua_failed_attempts r = int4_max then Inl (PgError ''22003'')
       else let r' = failed_login_row (w_now w) r in
         Inr ((ua_failed_attempts r', ua_locked_until r'), (w_db w)\<lparr>user_auth :=
           upd_where (\<lambda>r. ua_user_id r = u) (failed_login_row (w_now w)) (user_auth (w_db w))\<rparr>))"

definition failed_recovery_row :: "time \<Rightarrow> UserAuth \<Rightarrow> UserAuth" where
  "failed_recovery_row t r = r\<lparr>ua_recovery_failed_attempts := ua_recovery_failed_attempts r + 1,
     ua_recovery_locked_until :=
       (if ua_recovery_failed_attempts r + 1 \<ge> 5 \<and>
           (case ua_recovery_locked_until r of None \<Rightarrow> True | Some l \<Rightarrow> l \<le> t)
        then Some (t + hour) else ua_recovery_locked_until r)\<rparr>"

definition RecordFailedRecovery :: "uuid \<Rightarrow> (int \<times> time option) act" where
  "RecordFailedRecovery u = dml (\<lambda>w. case List.find (\<lambda>r. ua_user_id r = u) (user_auth (w_db w)) of
     None \<Rightarrow> Inl NoRows
   | Some r \<Rightarrow>
       if ua_recovery_failed_attempts r = int4_max then Inl (PgError ''22003'')
       else let r' = failed_recovery_row (w_now w) r in
         Inr ((ua_recovery_failed_attempts r', ua_recovery_locked_until r'), (w_db w)\<lparr>user_auth :=
           upd_where (\<lambda>r. ua_user_id r = u) (failed_recovery_row (w_now w)) (user_auth (w_db w))\<rparr>))"

definition ResetFailedLogin :: "uuid \<Rightarrow> unit act" where
  "ResetFailedLogin u = exec (\<lambda>w. (w_db w)\<lparr>user_auth := upd_where (\<lambda>r. ua_user_id r = u)
     (\<lambda>r. r\<lparr>ua_failed_attempts := 0, ua_locked_until := None\<rparr>) (user_auth (w_db w))\<rparr>)"

definition ResetFailedRecovery :: "uuid \<Rightarrow> unit act" where
  "ResetFailedRecovery u = exec (\<lambda>w. (w_db w)\<lparr>user_auth := upd_where (\<lambda>r. ua_user_id r = u)
     (\<lambda>r. r\<lparr>ua_recovery_failed_attempts := 0, ua_recovery_locked_until := None\<rparr>) (user_auth (w_db w))\<rparr>)"

definition UpsertUserAuth :: "uuid \<Rightarrow> string \<Rightarrow> unit act" where
  "UpsertUserAuth u h = dml (\<lambda>w.
     if \<not> fk_user (w_db w) u then Inl (PgError ''23503'')
     else Inr ((), (w_db w)\<lparr>user_auth := upsert (\<lambda>r. ua_user_id r = u)
       (\<lambda>r. r\<lparr>ua_auth_key_hash := h, ua_failed_attempts := 0, ua_locked_until := None\<rparr>)
       \<lparr>ua_user_id = u, ua_auth_key_hash = h, ua_failed_attempts = 0, ua_locked_until = None,
        ua_recovery_failed_attempts = 0, ua_recovery_locked_until = None\<rparr> (user_auth (w_db w))\<rparr>))"

section \<open>user\_vault\<close>

definition vault_overflow :: "uuid \<Rightarrow> db \<Rightarrow> bool" where
  "vault_overflow u d \<longleftrightarrow> (\<exists>r \<in> set (user_vault d). uv_user_id r = u \<and> uv_vault_key_version r = int4_max)"

definition CompleteRecovery :: "uuid \<Rightarrow> bytes \<Rightarrow> bytes \<Rightarrow> unit act" where
  "CompleteRecovery u v k = dml (\<lambda>w.
     if vault_overflow u (w_db w) then Inl (PgError ''22003'')
     else Inr ((), (w_db w)\<lparr>user_vault := upd_where (\<lambda>r. uv_user_id r = u)
       (\<lambda>r. r\<lparr>uv_verifier := v, uv_wrapped_vault_key := k,
          uv_vault_key_version := uv_vault_key_version r + 1,
          uv_recovery_used_at := Some (w_now w)\<rparr>) (user_vault (w_db w))\<rparr>))"

definition CreateUserVault :: "UserVault \<Rightarrow> unit act" where
  "CreateUserVault v = dml (\<lambda>w.
     if \<not> fk_user (w_db w) (uv_user_id v) then Inl (PgError ''23503'')
     else if (\<exists>r \<in> set (user_vault (w_db w)). uv_user_id r = uv_user_id v) then Inl (PgError ''23505'')
     else Inr ((), (w_db w)\<lparr>user_vault := user_vault (w_db w) @
       [v\<lparr>uv_vault_key_version := 1, uv_recovery_used_at := None\<rparr>]\<rparr>))"

definition GetUserVault :: "uuid \<Rightarrow> UserVault act" where
  "GetUserVault u = queryRow (\<lambda>w. List.find (\<lambda>r. uv_user_id r = u) (user_vault (w_db w)))"

definition UpdateUserVaultPassword :: "uuid \<Rightarrow> bytes \<Rightarrow> bytes \<Rightarrow> unit act" where
  "UpdateUserVaultPassword u v k = dml (\<lambda>w.
     if vault_overflow u (w_db w) then Inl (PgError ''22003'')
     else Inr ((), (w_db w)\<lparr>user_vault := upd_where (\<lambda>r. uv_user_id r = u)
       (\<lambda>r. r\<lparr>uv_verifier := v, uv_wrapped_vault_key := k,
          uv_vault_key_version := uv_vault_key_version r + 1\<rparr>) (user_vault (w_db w))\<rparr>))"

section \<open>user\_login\_totp\<close>

definition DeleteUserLoginTOTP :: "uuid \<Rightarrow> unit act" where
  "DeleteUserLoginTOTP u = exec (\<lambda>w. (w_db w)\<lparr>user_login_totp :=
     del_where (\<lambda>r. ul_user_id r = u) (user_login_totp (w_db w))\<rparr>)"

definition GetUserLoginTOTP :: "uuid \<Rightarrow> UserLoginTotp act" where
  "GetUserLoginTOTP u = queryRow (\<lambda>w. List.find (\<lambda>r. ul_user_id r = u) (user_login_totp (w_db w)))"

definition UpsertUserLoginTOTP :: "uuid \<Rightarrow> bytes \<Rightarrow> bytes \<Rightarrow> bool \<Rightarrow> unit act" where
  "UpsertUserLoginTOTP u ct nonce enabled = dml (\<lambda>w.
     if \<not> fk_user (w_db w) u then Inl (PgError ''23503'')
     else Inr ((), (w_db w)\<lparr>user_login_totp := upsert (\<lambda>r. ul_user_id r = u)
       (\<lambda>r. r\<lparr>ul_encrypted_secret := ct, ul_nonce := nonce, ul_enabled := enabled\<rparr>)
       \<lparr>ul_user_id = u, ul_encrypted_secret = ct, ul_nonce = nonce, ul_enabled = enabled,
        ul_created_at = w_now w\<rparr> (user_login_totp (w_db w))\<rparr>))"

section \<open>email\_verification\_tokens\<close>

definition ConsumeEmailVerificationToken :: "bytes \<Rightarrow> uuid act" where
  "ConsumeEmailVerificationToken h = dml (\<lambda>w.
     let live = (\<lambda>r. ev_token_hash r = h \<and> ev_consumed_at r = None \<and> ev_expires_at r > w_now w) in
     case List.find live (email_verification_tokens (w_db w)) of
       None \<Rightarrow> Inl NoRows
     | Some r \<Rightarrow> Inr (ev_user_id r, (w_db w)\<lparr>email_verification_tokens :=
         upd_where live (\<lambda>r. r\<lparr>ev_consumed_at := Some (w_now w)\<rparr>) (email_verification_tokens (w_db w))\<rparr>))"

definition DeleteExpiredEmailVerificationTokens :: "nat act" where
  "DeleteExpiredEmailVerificationTokens = dml (\<lambda>w.
     let dead = (\<lambda>r. ev_expires_at r \<le> w_now w \<and>
           (case ev_consumed_at r of None \<Rightarrow> True | Some c \<Rightarrow> c \<le> w_now w - 7 * 24 * hour)) in
     Inr (count_where dead (email_verification_tokens (w_db w)),
          (w_db w)\<lparr>email_verification_tokens := del_where dead (email_verification_tokens (w_db w))\<rparr>))"

definition InsertEmailVerificationToken :: "bytes \<Rightarrow> uuid \<Rightarrow> string \<Rightarrow> time \<Rightarrow> unit act" where
  "InsertEmailVerificationToken h u purpose expires = dml (\<lambda>w.
     if (\<exists>r \<in> set (email_verification_tokens (w_db w)). ev_token_hash r = h) then Inl (PgError ''23505'')
     else if \<not> fk_user (w_db w) u then Inl (PgError ''23503'')
     else Inr ((), (w_db w)\<lparr>email_verification_tokens := email_verification_tokens (w_db w) @
       [\<lparr>ev_token_hash = h, ev_user_id = u, ev_purpose = purpose, ev_expires_at = expires,
         ev_consumed_at = None\<rparr>]\<rparr>))"

definition InvalidateActiveEmailVerificationTokens :: "uuid \<Rightarrow> string \<Rightarrow> nat act" where
  "InvalidateActiveEmailVerificationTokens u purpose = dml (\<lambda>w.
     let p = (\<lambda>r. ev_user_id r = u \<and> ev_purpose r = purpose \<and> ev_consumed_at r = None) in
     Inr (count_where p (email_verification_tokens (w_db w)),
          (w_db w)\<lparr>email_verification_tokens :=
            upd_where p (\<lambda>r. r\<lparr>ev_consumed_at := Some (w_now w)\<rparr>) (email_verification_tokens (w_db w))\<rparr>))"

section \<open>auth\_sessions\<close>

definition DeleteExpiredSessions :: "time \<Rightarrow> nat act" where
  "DeleteExpiredSessions cutoff = dml (\<lambda>w.
     let dead = (\<lambda>r. rls_visible w (as_user_id r) \<and> (as_refresh_expires_at r < cutoff \<or>
           (case as_revoked_at r of None \<Rightarrow> False | Some t \<Rightarrow> t < cutoff))) in
     Inr (count_where dead (auth_sessions (w_db w)),
          (w_db w)\<lparr>auth_sessions := del_where dead (auth_sessions (w_db w))\<rparr>))"

definition GetSessionByID :: "uuid \<Rightarrow> AuthSession act" where
  "GetSessionByID i = queryRow (\<lambda>w. List.find (\<lambda>r. rls_visible w (as_user_id r) \<and>
     as_id r = i \<and> as_revoked_at r = None) (auth_sessions (w_db w)))"

definition GetSessionCurrentRefreshKey :: "uuid \<Rightarrow> bytes option act" where
  "GetSessionCurrentRefreshKey i = queryRow (\<lambda>w. map_option as_current_refresh_key
     (List.find (\<lambda>r. rls_visible w (as_user_id r) \<and> as_id r = i \<and> as_revoked_at r = None)
        (auth_sessions (w_db w))))"

definition ListUserSessions :: "uuid \<Rightarrow> AuthSession list act" where
  "ListUserSessions u = query (\<lambda>w. sort_key (\<lambda>r. - as_last_seen_at r)
     (filter (\<lambda>r. rls_visible w (as_user_id r) \<and> as_user_id r = u \<and> as_revoked_at r = None)
        (auth_sessions (w_db w))))"

definition revoke_where :: "(AuthSession \<Rightarrow> bool) \<Rightarrow> world \<Rightarrow> db" where
  "revoke_where p w = (w_db w)\<lparr>auth_sessions :=
     upd_where (\<lambda>r. rls_visible w (as_user_id r) \<and> p r)
       (\<lambda>r. r\<lparr>as_revoked_at := Some (w_now w)\<rparr>) (auth_sessions (w_db w))\<rparr>"

definition RevokeAllUserSessions :: "uuid \<Rightarrow> unit act" where
  "RevokeAllUserSessions u = exec (revoke_where (\<lambda>r. as_user_id r = u \<and> as_revoked_at r = None))"

definition RevokeAllUserSessionsExcept :: "uuid \<Rightarrow> uuid \<Rightarrow> nat act" where
  "RevokeAllUserSessionsExcept u i = dml (\<lambda>w.
     let p = (\<lambda>r. as_user_id r = u \<and> as_id r \<noteq> i \<and> as_revoked_at r = None) in
     Inr (count_where (\<lambda>r. rls_visible w (as_user_id r) \<and> p r) (auth_sessions (w_db w)), revoke_where p w))"

definition RevokeSession :: "uuid \<Rightarrow> unit act" where
  "RevokeSession i = exec (revoke_where (\<lambda>r. as_id r = i))"

definition SetSessionCurrentRefreshKey :: "uuid \<Rightarrow> bytes option \<Rightarrow> unit act" where
  "SetSessionCurrentRefreshKey i k = exec (\<lambda>w. (w_db w)\<lparr>auth_sessions :=
     upd_where (\<lambda>r. rls_visible w (as_user_id r) \<and> as_id r = i)
       (\<lambda>r. r\<lparr>as_current_refresh_key := k, as_last_seen_at := w_now w\<rparr>) (auth_sessions (w_db w))\<rparr>)"

definition TouchSession :: "uuid \<Rightarrow> unit act" where
  "TouchSession i = exec (\<lambda>w. (w_db w)\<lparr>auth_sessions :=
     upd_where (\<lambda>r. rls_visible w (as_user_id r) \<and> as_id r = i)
       (\<lambda>r. r\<lparr>as_last_seen_at := w_now w\<rparr>) (auth_sessions (w_db w))\<rparr>)"

record UpsertSessionParams =
  usp_user_id :: uuid
  usp_device_id :: string
  usp_device_type :: string
  usp_device_name :: "string option"
  usp_ip :: "string option"
  usp_country :: "string option"
  usp_access_expires_at :: time
  usp_refresh_expires_at :: time

text \<open>The row after a conflict on (user, device), and the row that is inserted otherwise.\<close>

definition merged_session :: "UpsertSessionParams \<Rightarrow> time \<Rightarrow> AuthSession \<Rightarrow> AuthSession" where
  "merged_session a t r = r\<lparr>as_device_type := usp_device_type a, as_device_name := usp_device_name a,
     as_ip := usp_ip a, as_country := usp_country a, as_access_expires_at := usp_access_expires_at a,
     as_refresh_expires_at := usp_refresh_expires_at a, as_revoked_at := None, as_last_seen_at := t\<rparr>"

definition fresh_session :: "UpsertSessionParams \<Rightarrow> time \<Rightarrow> uuid \<Rightarrow> AuthSession" where
  "fresh_session a t i = \<lparr>as_id = i, as_user_id = usp_user_id a, as_device_id = usp_device_id a,
     as_device_type = usp_device_type a, as_device_name = usp_device_name a,
     as_ip = usp_ip a, as_country = usp_country a, as_access_token_hash = None,
     as_refresh_token_hash = None, as_current_refresh_key = None,
     as_access_expires_at = usp_access_expires_at a, as_refresh_expires_at = usp_refresh_expires_at a,
     as_revoked_at = None, as_created_at = t, as_last_seen_at = t\<rparr>"

definition UpsertSession :: "UpsertSessionParams \<Rightarrow> AuthSession act" where
  "UpsertSession a = bindE uuidNew (\<lambda>i. dml (\<lambda>w.
     let same = (\<lambda>r. as_user_id r = usp_user_id a \<and> as_device_id r = usp_device_id a);
         rows = auth_sessions (w_db w)
     in if \<not> rls_visible w (usp_user_id a) then Inl (PgError ''42501'')
        else case List.find same rows of
          Some r \<Rightarrow> Inr (merged_session a (w_now w) r,
            (w_db w)\<lparr>auth_sessions := upd_where same (merged_session a (w_now w)) rows\<rparr>)
        | None \<Rightarrow>
            if (\<exists>r \<in> set rows. as_id r = i) then Inl (PgError ''23505'')
            else if \<not> fk_user (w_db w) (usp_user_id a) then Inl (PgError ''23503'')
            else Inr (fresh_session a (w_now w) i,
              (w_db w)\<lparr>auth_sessions := rows @ [fresh_session a (w_now w) i]\<rparr>)))"

section \<open>auth\_tokens\<close>

definition AuthTokenExists :: "bytes \<Rightarrow> bool act" where
  "AuthTokenExists k = query (\<lambda>w. \<exists>r \<in> set (auth_tokens (w_db w)). at_key r = k \<and> at_expires_at r > w_now w)"

definition DeleteAuthToken :: "bytes \<Rightarrow> unit act" where
  "DeleteAuthToken k = exec (\<lambda>w. (w_db w)\<lparr>auth_tokens := del_where (\<lambda>r. at_key r = k) (auth_tokens (w_db w))\<rparr>)"

definition delete_tokens_where :: "(world \<Rightarrow> AuthToken \<Rightarrow> bool) \<Rightarrow> nat act" where
  "delete_tokens_where p = dml (\<lambda>w. Inr (count_where (p w) (auth_tokens (w_db w)),
     (w_db w)\<lparr>auth_tokens := del_where (p w) (auth_tokens (w_db w))\<rparr>))"

text \<open>With a NULL argument the comparison is never true.\<close>

definition DeleteAuthTokensBySession :: "uuid option \<Rightarrow> nat act" where
  "DeleteAuthTokensBySession s = delete_tokens_where (\<lambda>w r. s \<noteq> None \<and> at_session_id r = s)"

definition DeleteAuthTokensByUser :: "uuid option \<Rightarrow> uuid option \<Rightarrow> nat act" where
  "DeleteAuthTokensByUser u except = delete_tokens_where (\<lambda>w r. u \<noteq> None \<and> at_user_id r = u \<and>
     (case except of None \<Rightarrow> True
      | Some s \<Rightarrow> (case at_session_id r of None \<Rightarrow> False | Some s' \<Rightarrow> s' \<noteq> s)))"

definition DeleteExpiredAuthTokens :: "nat act" where
  "DeleteExpiredAuthTokens = delete_tokens_where (\<lambda>w r. at_expires_at r \<le> w_now w)"

definition GetAuthToken :: "bytes \<Rightarrow> AuthToken act" where
  "GetAuthToken k = queryRow (\<lambda>w. List.find (\<lambda>r. at_key r = k \<and> at_expires_at r > w_now w) (auth_tokens (w_db w)))"

definition ListAuthTokensByPrefix :: "bytes \<Rightarrow> (bytes \<times> bytes) list act" where
  "ListAuthTokensByPrefix p = query (\<lambda>w. map (\<lambda>r. (at_key r, at_value r))
     (filter (\<lambda>r. at_expires_at r > w_now w \<and> (p = [] \<or> p \<le> at_key r \<and> at_key r < p @ [CHR 0xFF]))
        (auth_tokens (w_db w))))"

definition UpsertAuthToken :: "bytes \<Rightarrow> bytes \<Rightarrow> uuid option \<Rightarrow> uuid option \<Rightarrow> string \<Rightarrow> time \<Rightarrow> unit act" where
  "UpsertAuthToken k v u s ty expires = dml (\<lambda>w.
     if (case u of None \<Rightarrow> False | Some u \<Rightarrow> \<not> fk_user (w_db w) u) then Inl (PgError ''23503'')
     else Inr ((), (w_db w)\<lparr>auth_tokens := upsert (\<lambda>r. at_key r = k)
       (\<lambda>r. r\<lparr>at_value := v, at_user_id := u, at_session_id := s, at_token_type := ty, at_expires_at := expires\<rparr>)
       \<lparr>at_key = k, at_value = v, at_user_id = u, at_session_id = s, at_token_type = ty,
        at_expires_at = expires, at_created_at = w_now w\<rparr> (auth_tokens (w_db w))\<rparr>))"

section \<open>mfa\_challenges\<close>

definition DeleteExpiredMFAChallenges :: "nat act" where
  "DeleteExpiredMFAChallenges = dml (\<lambda>w. let dead = (\<lambda>r. mc_expires_at r \<le> w_now w) in
     Inr (count_where dead (mfa_challenges (w_db w)),
          (w_db w)\<lparr>mfa_challenges := del_where dead (mfa_challenges (w_db w))\<rparr>))"

definition DeleteMFAChallenge :: "uuid \<Rightarrow> nat act" where
  "DeleteMFAChallenge i = dml (\<lambda>w. let p = (\<lambda>r. mc_id r = i) in
     Inr (count_where p (mfa_challenges (w_db w)),
          (w_db w)\<lparr>mfa_challenges := del_where p (mfa_challenges (w_db w))\<rparr>))"

definition GetMFAChallenge :: "uuid \<Rightarrow> MfaChallenge act" where
  "GetMFAChallenge i = queryRow (\<lambda>w. List.find (\<lambda>r. mc_id r = i) (mfa_challenges (w_db w)))"

definition IncrementMFAFailedAttempts :: "uuid \<Rightarrow> int act" where
  "IncrementMFAFailedAttempts i = dml (\<lambda>w. case List.find (\<lambda>r. mc_id r = i) (mfa_challenges (w_db w)) of
     None \<Rightarrow> Inl NoRows
   | Some r \<Rightarrow>
       if mc_failed_attempts r = int4_max then Inl (PgError ''22003'')
       else Inr (mc_failed_attempts r + 1, (w_db w)\<lparr>mfa_challenges := upd_where (\<lambda>r. mc_id r = i)
         (\<lambda>r. r\<lparr>mc_failed_attempts := mc_failed_attempts r + 1\<rparr>) (mfa_challenges (w_db w))\<rparr>))"

definition InsertMFAChallenge :: "MfaChallenge \<Rightarrow> uuid act" where
  "InsertMFAChallenge c = dml (\<lambda>w.
     if (\<exists>r \<in> set (mfa_challenges (w_db w)). mc_id r = mc_id c) then Inl (PgError ''23505'')
     else if \<not> fk_user (w_db w) (mc_user_id c) then Inl (PgError ''23503'')
     else Inr (mc_id c, (w_db w)\<lparr>mfa_challenges := mfa_challenges (w_db w) @ [c\<lparr>mc_failed_attempts := 0\<rparr>]\<rparr>))"

definition TakeMFAChallenge :: "uuid \<Rightarrow> MfaChallenge act" where
  "TakeMFAChallenge i = dml (\<lambda>w. case List.find (\<lambda>r. mc_id r = i) (mfa_challenges (w_db w)) of
     None \<Rightarrow> Inl NoRows
   | Some r \<Rightarrow> Inr (r, (w_db w)\<lparr>mfa_challenges := del_where (\<lambda>r. mc_id r = i) (mfa_challenges (w_db w))\<rparr>))"

section \<open>recovery\_sessions\<close>

definition DeleteExpiredRecoverySessions :: "nat act" where
  "DeleteExpiredRecoverySessions = dml (\<lambda>w. let dead = (\<lambda>r. rs_expires_at r \<le> w_now w) in
     Inr (count_where dead (recovery_sessions (w_db w)),
          (w_db w)\<lparr>recovery_sessions := del_where dead (recovery_sessions (w_db w))\<rparr>))"

definition DeleteRecoverySession :: "uuid \<Rightarrow> nat act" where
  "DeleteRecoverySession i = dml (\<lambda>w. let p = (\<lambda>r. rs_id r = i) in
     Inr (count_where p (recovery_sessions (w_db w)),
          (w_db w)\<lparr>recovery_sessions := del_where p (recovery_sessions (w_db w))\<rparr>))"

definition GetRecoverySession :: "uuid \<Rightarrow> RecoverySession act" where
  "GetRecoverySession i = queryRow (\<lambda>w. List.find (\<lambda>r. rs_id r = i) (recovery_sessions (w_db w)))"

definition InsertRecoverySession :: "RecoverySession \<Rightarrow> uuid act" where
  "InsertRecoverySession s = dml (\<lambda>w.
     if (\<exists>r \<in> set (recovery_sessions (w_db w)). rs_id r = rs_id s) then Inl (PgError ''23505'')
     else if \<not> fk_user (w_db w) (rs_user_id s) then Inl (PgError ''23503'')
     else Inr (rs_id s, (w_db w)\<lparr>recovery_sessions := recovery_sessions (w_db w) @ [s]\<rparr>))"

definition TakeRecoverySession :: "uuid \<Rightarrow> RecoverySession act" where
  "TakeRecoverySession i = dml (\<lambda>w. case List.find (\<lambda>r. rs_id r = i) (recovery_sessions (w_db w)) of
     None \<Rightarrow> Inl NoRows
   | Some r \<Rightarrow> Inr (r, (w_db w)\<lparr>recovery_sessions := del_where (\<lambda>r. rs_id r = i) (recovery_sessions (w_db w))\<rparr>))"

section \<open>A concrete account\<close>

definition demo_user :: User where
  "demo_user = \<lparr>us_id = 1, us_email = ''a@b'', us_email_verified_at = None, us_is_active = True,
     us_created_at = 0, us_updated_at = 0\<rparr>"

definition demo_user_world :: world where
  "demo_user_world = demo_world\<lparr>w_db := empty_db\<lparr>users := [demo_user]\<rparr>\<rparr>"

end
