(* ===== verification/Challenge_Stores.thy ===== *)
theory Challenge_Stores
  imports Repo_Auth Aead
begin

text \<open>
  The two stores of single-use capabilities: MFA challenges
  (\<open>internal/auth/mfa_store.go\<close>) and recovery sessions
  (\<open>internal/auth/recovery_store.go\<close>).  Their common contract is the locale
  \<open>capability_store\<close>: whatever fails and however the calls interleave, a capability is
  handed out at most once.  The WebAuthn session state is represented by the JSON
  document that \<open>encoding/json\<close> makes of it.
\<close>

section \<open>MFA challenges\<close>

record MFAChallenge =
  ch_ID :: uuid
  ch_UserID :: uuid
  ch_Email :: string
  ch_AuthKey :: bytes
  ch_DeviceID :: string
  ch_DeviceType :: string
  ch_DeviceName :: string
  ch_ExpiresAt :: time
  ch_TOTPRequired :: bool
  ch_WebAuthnState :: "json option"

record MFAStore =
  ms_kek :: "MFAKEK option"
  ms_ttl :: duration

definition NewMFAStore :: "MFAKEK option \<Rightarrow> duration \<Rightarrow> MFAStore result" where
  "NewMFAStore kek ttl = (if kek = None then Inl (Msg ''mfa store: kek required'')
     else Inr \<lparr>ms_kek = kek, ms_ttl = (if ttl \<le> 0 then 5 * minute else ttl)\<rparr>)"

definition kekAAD :: "ext \<Rightarrow> uuid \<Rightarrow> bytes" where
  "kekAAD X i = ''oblivio/mfa-challenge/'' @ uuid_String X i"


definition MaxMFAFailedAttempts :: int where
  "MaxMFAFailedAttempts = 5"

definition not_found_or :: "string \<Rightarrow> err \<Rightarrow> err" where
  "not_found_or m e = (if errors_is e NoRows then ErrChallengeNotFound else Wrap m e)"

definition RecordFailedAttempt :: "uuid \<Rightarrow> unit act" where
  "RecordFailedAttempt i =
     bindE (mapErr (not_found_or ''mfa store: increment failed attempts'') (IncrementMFAFailedAttempts i))
       (\<lambda>count. if count \<ge> MaxMFAFailedAttempts
          then thenE (tryE (DeleteMFAChallenge i)) (raiseE ErrChallengeBurned)
          else returnE ())"

definition materialise :: "ext \<Rightarrow> MFAStore \<Rightarrow> MfaChallenge \<Rightarrow> bool \<Rightarrow> MFAChallenge act" where
  "materialise X s row consumed =
     bindE (case mc_auth_key_ct row of
         Some ct \<Rightarrow> (if length ct > 0
           then mapErr (Wrap ''mfa store: open auth_key'') (liftE (kek_Open X (ms_kek s) ct (kekAAD X (mc_id row))))
           else returnE [])
       | None \<Rightarrow> returnE []) (\<lambda>pt.
     bindE now (\<lambda>t.
       if t > mc_expires_at row
       then thenE (if \<not> consumed then thenE (tryE (DeleteMFAChallenge (mc_id row))) (returnE ()) else returnE ())
              (raiseE ErrChallengeExpired)
       else returnE \<lparr>ch_ID = mc_id row, ch_UserID = mc_user_id row, ch_Email = mc_email row,
              ch_AuthKey = pt, ch_DeviceID = mc_device_id row, ch_DeviceType = mc_device_type row,
              ch_DeviceName = mc_device_name row, ch_ExpiresAt = mc_expires_at row,
              ch_TOTPRequired = mc_totp_required row, ch_WebAuthnState = mc_webauthn_state row\<rparr>))"

definition mfa_Take :: "ext \<Rightarrow> MFAStore \<Rightarrow> uuid \<Rightarrow> MFAChallenge act" where
  "mfa_Take X s i =
     bindE (mapErr (not_found_or ''mfa store: take'') (TakeMFAChallenge i)) (\<lambda>row. materialise X s row True)"

definition mfa_Peek :: "ext \<Rightarrow> MFAStore \<Rightarrow> uuid \<Rightarrow> MFAChallenge act" where
  "mfa_Peek X s i =
     bindE (mapErr (not_found_or ''mfa store: peek'') (GetMFAChallenge i)) (\<lambda>row. materialise X s row False)"

section \<open>Recovery sessions\<close>

record RecoverySess =
  rec_ID :: uuid
  rec_UserID :: uuid
  rec_Email :: string
  rec_ExpiresAt :: time

definition NewRecoveryStore :: "duration \<Rightarrow> duration" where
  "NewRecoveryStore ttl = (if ttl \<le> 0 then 15 * minute else ttl)"

definition recovery_Put :: "duration \<Rightarrow> RecoverySess \<Rightarrow> uuid act" where
  "recovery_Put ttl sess =
     bindE (if rec_ID sess = uuid_Nil then uuidNew else returnE (rec_ID sess)) (\<lambda>i.
     bindE now (\<lambda>t.
     thenE (mapErr (Wrap ''recovery store: insert'') (InsertRecoverySession
        \<lparr>rs_id = i, rs_user_id = rec_UserID sess, rs_email = rec_Email sess, rs_expires_at = t + ttl\<rparr>))
     (returnE i)))"

definition recovery_Take :: "uuid \<Rightarrow> RecoverySess act" where
  "recovery_Take i =
     bindE (mapErr (not_found_or ''recovery store: take'') (TakeRecoverySession i)) (\<lambda>row.
     bindE now (\<lambda>t.
       if t > rs_expires_at row then raiseE ErrChallengeExpired
       else returnE \<lparr>rec_ID = rs_id row, rec_UserID = rs_user_id row, rec_Email = rs_email row,
              rec_ExpiresAt = rs_expires_at row\<rparr>))"

section \<open>The contract of a capability store\<close>

text \<open>A sequence of calls, each with its own clock and fault plan, and its results.\<close>

fun take_run :: "(uuid \<Rightarrow> 'c act) \<Rightarrow> (uuid \<times> fault list \<times> time) list \<Rightarrow> world \<Rightarrow> (uuid \<times> 'c result) list" where
  "take_run tak [] w = []"
| "take_run tak ((i, fs, t) # ops) w =
     (case tak i (w\<lparr>w_faults := fs, w_now := t\<rparr>) of (r, w') \<Rightarrow> (i, r) # take_run tak ops w')"

text \<open>How often a capability was handed out.\<close>

definition wins :: "uuid \<Rightarrow> (uuid \<times> 'c result) list \<Rightarrow> nat" where
  "wins i rs = length (filter (\<lambda>(j, r). j = i \<and> (case r of Inl _ \<Rightarrow> False | Inr _ \<Rightarrow> True)) rs)"

text \<open>
  \<open>present\<close> tells which capabilities a database holds; a call hands a capability out
  only if it is present, and then it is gone; no call brings one back.
\<close>

locale capability_store =
  fixes present :: "db \<Rightarrow> uuid \<Rightarrow> bool"
    and tak :: "uuid \<Rightarrow> 'c act"
  assumes take_present: "fst (tak i w) = Inr c \<Longrightarrow> present (w_db w) i"
    and take_consumes: "fst (tak i w) = Inr c \<Longrightarrow> \<not> present (w_db (snd (tak i w))) i"
    and take_shrinks: "present (w_db (snd (tak i w))) j \<Longrightarrow> present (w_db w) j"
begin

lemma absent_no_wins: "\<not> present (w_db w) i \<Longrightarrow> wins i (take_run tak ops w) = 0"
proof (induction ops arbitrary: w)
  case (Cons op ops)
  obtain j fs t where op: "op = (j, fs, t)" by (cases op) auto
  let ?w = "w\<lparr>w_faults := fs, w_now := t\<rparr>"
  obtain r w' where r: "tak j ?w = (r, w')" by fastforce
  have "\<not> present (w_db w') i" using Cons.prems take_shrinks [of j ?w i] r by auto
  moreover have "\<nexists>c. j = i \<and> r = Inr c" using Cons.prems take_present [of j ?w] r by auto
  ultimately show ?case
    using Cons.IH [of w'] op r by (auto simp: wins_def split: sum.split)
qed (simp add: wins_def)

lemma at_most_one_win: "wins i (take_run tak ops w) \<le> 1"
proof (induction ops arbitrary: w)
  case (Cons op ops)
  obtain j fs t where op: "op = (j, fs, t)" by (cases op) auto
  let ?w = "w\<lparr>w_faults := fs, w_now := t\<rparr>"
  obtain r w' where r: "tak j ?w = (r, w')" by fastforce
  show ?case
  proof (cases "j = i \<and> (\<exists>c. r = Inr c)")
    case True
    then have "\<not> present (w_db w') i" using take_consumes [of j ?w] r by auto
    then have "wins i (take_run tak ops w') = 0" by (rule absent_no_wins)
    with op r True show ?thesis by (auto simp: wins_def)
  next
    case False
    with Cons.IH [of w'] op r show ?thesis by (auto simp: wins_def split: sum.split)
  qed
qed (simp add: wins_def)

end

definition mfa_present :: "db \<Rightarrow> uuid \<Rightarrow> bool" where
  "mfa_present d i \<longleftrightarrow> (\<exists>r \<in> set (mfa_challenges d). mc_id r = i)"

definition recovery_present :: "db \<Rightarrow> uuid \<Rightarrow> bool" where
  "recovery_present d i \<longleftrightarrow> (\<exists>r \<in> set (recovery_sessions d). rs_id r = i)"

lemma materialise_db: "w_db (snd (materialise X s row True w)) = w_db w"
  by (auto simp: materialise_def bindE_def thenE_def returnE_def raiseE_def mapErr_def liftE_def now_def getsE_def
      split: option.splits sum.splits)

lemma TakeMFAChallenge_outcome:
  "wp (TakeMFAChallenge i) (\<lambda>r w'.
     (w_db w' = w_db w \<or> w_db w' = (w_db w)\<lparr>mfa_challenges := del_where (\<lambda>r. mc_id r = i) (mfa_challenges (w_db w))\<rparr>) \<and>
     (\<forall>row. r = Inr row \<longrightarrow> row \<in> set (mfa_challenges (w_db w)) \<and> mc_id row = i \<and>
        w_db w' = (w_db w)\<lparr>mfa_challenges := del_where (\<lambda>r. mc_id r = i) (mfa_challenges (w_db w))\<rparr>)) w"
  unfolding TakeMFAChallenge_def
  by (rule wp_dml_any) (auto split: option.splits dest: find_SomeD)

lemma TakeRecoverySession_outcome:
  "wp (TakeRecoverySession i) (\<lambda>r w'.
     (w_db w' = w_db w \<or> w_db w' = (w_db w)\<lparr>recovery_sessions := del_where (\<lambda>r. rs_id r = i) (recovery_sessions (w_db w))\<rparr>) \<and>
     (\<forall>row. r = Inr row \<longrightarrow> row \<in> set (recovery_sessions (w_db w)) \<and> rs_id row = i \<and>
        w_db w' = (w_db w)\<lparr>recovery_sessions := del_where (\<lambda>r. rs_id r = i) (recovery_sessions (w_db w))\<rparr>)) w"
  unfolding TakeRecoverySession_def
  by (rule wp_dml_any) (auto split: option.splits dest: find_SomeD)

interpretation mfa: capability_store mfa_present "mfa_Take X s"
proof
  fix i j w c
  have out: "(case fst (TakeMFAChallenge i w) of
       Inl e \<Rightarrow> (\<exists>e. fst (mfa_Take X s i w) = Inl e) | Inr row \<Rightarrow> True) \<and>
     w_db (snd (mfa_Take X s i w)) = w_db (snd (TakeMFAChallenge i w))"
    by (auto simp: mfa_Take_def bindE_def mapErr_def materialise_db split: prod.splits sum.splits)
  note t = TakeMFAChallenge_outcome [of i w, unfolded wp_iff]
  show "mfa_present (w_db w) i" if "fst (mfa_Take X s i w) = Inr c"
    using that out t by (auto simp: mfa_present_def split: sum.splits)
  show "\<not> mfa_present (w_db (snd (mfa_Take X s i w))) i" if "fst (mfa_Take X s i w) = Inr c"
    using that out t by (auto simp: mfa_present_def tbl split: sum.splits)
  show "mfa_present (w_db w) j" if "mfa_present (w_db (snd (mfa_Take X s i w))) j"
    using that out t by (auto simp: mfa_present_def tbl)
qed

interpretation recovery: capability_store recovery_present recovery_Take
proof
  fix i j w c
  have out: "(case fst (TakeRecoverySession i w) of
       Inl e \<Rightarrow> (\<exists>e. fst (recovery_Take i w) = Inl e) | Inr row \<Rightarrow> True) \<and>
     w_db (snd (recovery_Take i w)) = w_db (snd (TakeRecoverySession i w))"
    by (auto simp: recovery_Take_def bindE_def mapErr_def now_def getsE_def raiseE_def returnE_def
        split: prod.splits sum.splits)
  note t = TakeRecoverySession_outcome [of i w, unfolded wp_iff]
  show "recovery_present (w_db w) i" if "fst (recovery_Take i w) = Inr c"
    using that out t by (auto simp: recovery_present_def split: sum.splits)
  show "\<not> recovery_present (w_db (snd (recovery_Take i w))) i" if "fst (recovery_Take i w) = Inr c"
    using that out t by (auto simp: recovery_present_def tbl split: sum.splits)
  show "recovery_present (w_db w) j" if "recovery_present (w_db (snd (recovery_Take i w))) j"
    using that out t by (auto simp: recovery_present_def tbl)
qed

section \<open>Behaviour of the operations\<close>

lemma RecordFailedAttempt_ok:
  assumes "w_faults w = []" and "distinct (map mc_id (mfa_challenges (w_db w)))"
    and "r \<in> set (mfa_challenges (w_db w))" and "mc_id r = i" and "mc_failed_attempts r < int4_max"
  shows "RecordFailedAttempt i w =
    (if mc_failed_attempts r + 1 \<ge> 5
     then (Inl ErrChallengeBurned, w\<lparr>w_db := (w_db w)\<lparr>mfa_challenges :=
             del_where (\<lambda>r. mc_id r = i) (mfa_challenges (w_db w))\<rparr>\<rparr>)
     else (Inr (), w\<lparr>w_db := (w_db w)\<lparr>mfa_challenges := upd_where (\<lambda>r. mc_id r = i)
             (\<lambda>r. r\<lparr>mc_failed_attempts := mc_failed_attempts r + 1\<rparr>) (mfa_challenges (w_db w))\<rparr>\<rparr>))"
    (is "_ = ?R")
proof -
  have find: "List.find (\<lambda>s. mc_id s = i) (mfa_challenges (w_db w)) = Some r"
    using find_unique [OF assms(2,3)] assms(4) by simp
  have del: "del_where (\<lambda>r. mc_id r = i) (upd_where (\<lambda>r. mc_id r = i) f rows) = del_where (\<lambda>r. mc_id r = i) rows"
    if "\<And>r. mc_id (f r) = mc_id r" for f rows
    using that by (induction rows) (auto simp: del_where_def upd_where_def)
  have "wp (RecordFailedAttempt i) (\<lambda>r w'. (r, w') = ?R) w"
    using assms(1,5) find
    by (simp add: RecordFailedAttempt_def IncrementMFAFailedAttempts_def DeleteMFAChallenge_def
        MaxMFAFailedAttempts_def wps Let_def del)
  then show ?thesis by (simp add: wp_iff)
qed

text \<open>Repeated failures on one challenge, ignoring what they return.\<close>

fun fail_times :: "nat \<Rightarrow> uuid \<Rightarrow> world \<Rightarrow> world" where
  "fail_times 0 i w = w"
| "fail_times (Suc n) i w = fail_times n i (snd (RecordFailedAttempt i w))"

lemma RecordFailedAttempt_absent:
  assumes "w_faults w = []" and "\<not> mfa_present (w_db w) i"
  shows "RecordFailedAttempt i w = (Inl ErrChallengeNotFound, w)"
proof -
  have "List.find (\<lambda>r. mc_id r = i) (mfa_challenges (w_db w)) = None"
    using assms(2) by (simp add: mfa_present_def find_None_iff_all)
  then have "wp (RecordFailedAttempt i) (\<lambda>r w'. r = Inl ErrChallengeNotFound \<and> w' = w) w"
    using assms(1) by (simp add: RecordFailedAttempt_def IncrementMFAFailedAttempts_def wps not_found_or_def)
  then show ?thesis by (simp add: wp_iff prod_eq_iff)
qed

lemma fail_times_absent: "w_faults w = [] \<Longrightarrow> \<not> mfa_present (w_db w) i \<Longrightarrow> fail_times n i w = w"
  by (induction n) (simp_all add: RecordFailedAttempt_absent)

lemma fail_times_count:
  assumes "w_faults w = []" and "distinct (map mc_id (mfa_challenges (w_db w)))"
    and "r \<in> set (mfa_challenges (w_db w))" and "mc_id r = i" and "0 \<le> mc_failed_attempts r" "mc_failed_attempts r < 5"
  shows "mfa_present (w_db (fail_times n i w)) i \<longleftrightarrow> mc_failed_attempts r + int n < 5"
  using assms
proof (induction n arbitrary: w r)
  case 0
  then show ?case by (auto simp: mfa_present_def)
next
  case (Suc n)
  note ok = RecordFailedAttempt_ok [OF Suc.prems(1-4)]
  show ?case
  proof (cases "mc_failed_attempts r + 1 \<ge> 5")
    case True
    let ?w = "snd (RecordFailedAttempt i w)"
    have "\<not> mfa_present (w_db ?w) i" and "w_faults ?w = []"
      using ok True Suc.prems by (auto simp: mfa_present_def tbl int4_max_def)
    with True Suc.prems show ?thesis by (simp add: fail_times_absent)
  next
    case False
    let ?f = "\<lambda>r. r\<lparr>mc_failed_attempts := mc_failed_attempts r + 1\<rparr>"
    let ?w = "snd (RecordFailedAttempt i w)"
    have w: "?w = w\<lparr>w_db := (w_db w)\<lparr>mfa_challenges := upd_where (\<lambda>r. mc_id r = i) ?f (mfa_challenges (w_db w))\<rparr>\<rparr>"
      using ok False Suc.prems by (simp add: int4_max_def)
    have "?f r \<in> set (mfa_challenges (w_db ?w))"
      unfolding w using Suc.prems(3,4) by (force simp: tbl)
    then have "mfa_present (w_db (fail_times n i ?w)) i \<longleftrightarrow> mc_failed_attempts (?f r) + int n < 5"
      using False Suc.prems by (intro Suc.IH) (simp_all add: w map_upd_where)
    then show ?thesis by simp
  qed
qed

section \<open>Properties\<close>

text \<open>C14. An MFA challenge is redeemed at most once: in any sequence of \<open>Take\<close> calls, at
  any times and under any failures (also those that lose the answer of the delete), at
  most one call returns the challenge.\<close>

theorem mfa_challenge_single_use: "wins i (take_run (mfa_Take X s) ops w) \<le> 1"
  by (rule mfa.at_most_one_win)

text \<open>C15. A recovery session is redeemed at most once, in the same sense.\<close>

theorem recovery_session_single_use: "wins i (take_run recovery_Take ops w) \<le> 1"
  by (rule recovery.at_most_one_win)


text \<open>C16. Guessing a second factor is bounded: a fresh challenge survives exactly four
  recorded failures; the fifth deletes it, and it stays deleted.\<close>

theorem mfa_challenge_burned_after_five:
  assumes "w_faults w = []" and "distinct (map mc_id (mfa_challenges (w_db w)))"
    and "r \<in> set (mfa_challenges (w_db w))" and "mc_id r = i" and "mc_failed_attempts r = 0"
  shows "mfa_present (w_db (fail_times n i w)) i \<longleftrightarrow> n < 5"
  using fail_times_count [OF assms(1-4), of n] assms(5) by simp

section \<open>Instances\<close>





definition demo_challenge_row :: MfaChallenge where
  "demo_challenge_row = \<lparr>mc_id = 9, mc_user_id = 1, mc_email = ''a@b'', mc_auth_key_ct = None, mc_device_id = ''d'',
     mc_device_type = ''web'', mc_device_name = '''', mc_totp_required = True, mc_webauthn_state = None,
     mc_expires_at = 0, mc_failed_attempts = 0\<rparr>"

theorem mfa_challenge_burned_after_five_witness:
  "\<not> mfa_present (w_db (fail_times 5 9 (demo_user_world\<lparr>w_db :=
      empty_db\<lparr>mfa_challenges := [demo_challenge_row]\<rparr>\<rparr>))) 9"
  using mfa_challenge_burned_after_five [of "demo_user_world\<lparr>w_db := empty_db\<lparr>mfa_challenges := [demo_challenge_row]\<rparr>\<rparr>"
      demo_challenge_row 9 5]
  by (simp add: demo_challenge_row_def demo_user_world_def demo_world_def)

end
