(* ===== verification/Token_Store.thy ===== *)
theory Token_Store
  imports Repo_Auth Externals
begin

text \<open>
  Token storage (\<open>internal/auth/pgtokenstore.go\<close>, \<open>internal/auth/sessions.go\<close>) and the
  interface to the \<open>tokenmanager\<close> library that runs on top of it.

  The library is external: its three operations are fields of \<open>tokenlib\<close>, parameters of
  the model that receive the store as an argument, as \<open>tokenmanager.New\<close> does.  What the
  repository relies on is \<open>tokenlib_ok\<close>, after the comments of \<open>manager.go\<close> and
  \<open>pgtokenstore.go\<close>: a signed token is \<open>payload.signature\<close>, \<open>CreateToken\<close> sets the encoded
  data under \<open>tokenmanager:payload\<close>, \<open>ValidateToken\<close> checks the signature, looks the key
  up once and compares the token type, \<open>RevokeToken\<close> deletes the key.  The contract of the
  store is the locale \<open>token_store\<close>, interpreted on the Postgres store.
\<close>

section \<open>Data\<close>

record SessionData =
  sd_SessionID :: uuid
  sd_DeviceID :: string
  sd_DeviceType :: string

record TokenData =
  td_UserID :: string
  td_IssuedAt :: time
  td_Expiry :: time
  td_TokenType :: string
  td_AdditionalData :: SessionData

text \<open>\<open>tokenmanager.ITokenStore\<close>: the operations the library calls.\<close>

record ITokenStore =
  ts_Get :: "bytes \<Rightarrow> bytes act"
  ts_Set :: "bytes \<Rightarrow> bytes \<Rightarrow> duration \<Rightarrow> unit act"
  ts_Delete :: "bytes \<Rightarrow> unit act"

text \<open>The library: its operations for a store and a secret, and the ingredients in which
  their behaviour is described.\<close>

record tokenlib =
  tm_CreateToken :: "ITokenStore \<Rightarrow> bytes \<Rightarrow> duration \<Rightarrow> string \<Rightarrow> SessionData \<Rightarrow> string \<Rightarrow> (string \<times> TokenData) act"
  tm_ValidateToken :: "ITokenStore \<Rightarrow> bytes \<Rightarrow> string \<Rightarrow> string \<Rightarrow> TokenData option act"
  tm_RevokeToken :: "ITokenStore \<Rightarrow> string \<Rightarrow> unit act"
  tl_payload :: "uuid \<Rightarrow> string"
  tl_sign :: "bytes \<Rightarrow> string \<Rightarrow> string"
  tl_encode :: "TokenData \<Rightarrow> bytes"
  tl_decode :: "bytes \<Rightarrow> TokenData option"

text \<open>\<open>time.Time{}\<close>, the instant for which \<open>IsZero\<close> holds.\<close>

definition zero_time :: time where
  "zero_time = - 62135596800 * second"

definition AccessTokenType :: string where "AccessTokenType = ''access''"
definition RefreshTokenType :: string where "RefreshTokenType = ''refresh''"
definition tokenmanagerKeyPrefix :: string where "tokenmanagerKeyPrefix = ''tokenmanager:''"

section \<open>The Postgres store\<close>

text \<open>\<open>decodeEnvelope\<close> reads the fields of the token data; on error all are zero.\<close>

definition zero_envelope :: TokenData where
  "zero_envelope = \<lparr>td_UserID = '''', td_IssuedAt = zero_time, td_Expiry = zero_time, td_TokenType = '''',
     td_AdditionalData = \<lparr>sd_SessionID = uuid_Nil, sd_DeviceID = '''', sd_DeviceType = ''''\<rparr>\<rparr>"

definition decodeEnvelope :: "tokenlib \<Rightarrow> bytes \<Rightarrow> TokenData" where
  "decodeEnvelope L v = (case tl_decode L v of None \<Rightarrow> zero_envelope | Some d \<Rightarrow> d)"

definition nullUUIDFromString :: "ext \<Rightarrow> string \<Rightarrow> uuid option" where
  "nullUUIDFromString X s = (if s = '''' then None else uuid_Parse X s)"

definition nullUUID :: "uuid \<Rightarrow> uuid option" where
  "nullUUID i = (if i = uuid_Nil then None else Some i)"

definition pg_Get :: "bytes \<Rightarrow> bytes act" where
  "pg_Get key = bindE (mapErr (\<lambda>e. if errors_is e NoRows then ErrKeyNotFound else Wrap ''pg token store: get'' e)
     (GetAuthToken key)) (\<lambda>row. returnE (at_value row))"

text \<open>When an entry runs out: the expiry inside the value wins over the requested lifetime.\<close>

definition deadline :: "tokenlib \<Rightarrow> bytes \<Rightarrow> duration \<Rightarrow> time \<Rightarrow> time" where
  "deadline L v ttl t = (let env = decodeEnvelope L v in
     if td_Expiry env \<noteq> zero_time then td_Expiry env else t + ttl)"

definition pg_Set :: "ext \<Rightarrow> tokenlib \<Rightarrow> bytes \<Rightarrow> bytes \<Rightarrow> duration \<Rightarrow> unit act" where
  "pg_Set X L key v expiration = bindE now (\<lambda>t.
     let env = decodeEnvelope L v in
     UpsertAuthToken key v (nullUUIDFromString X (td_UserID env))
       (nullUUID (sd_SessionID (td_AdditionalData env))) (td_TokenType env) (deadline L v expiration t))"

definition pg_Delete :: "bytes \<Rightarrow> unit act" where
  "pg_Delete key = DeleteAuthToken key"

definition pg_Keys :: "bytes \<Rightarrow> string list act" where
  "pg_Keys prefix = bindE (mapErr (Wrap ''pg token store: keys'') (ListAuthTokensByPrefix prefix))
     (\<lambda>rows. returnE (map fst rows))"

definition pg_KeysAndValues :: "bytes \<Rightarrow> (string \<rightharpoonup> bytes) act" where
  "pg_KeysAndValues prefix = bindE (mapErr (Wrap ''pg token store: keys+values'') (ListAuthTokensByPrefix prefix))
     (\<lambda>rows. returnE (foldl (\<lambda>m (k, v). m(k \<mapsto> v)) Map.empty rows))"

definition pg_Exists :: "bytes \<Rightarrow> bool act" where
  "pg_Exists key = AuthTokenExists key"

definition DeleteBySession :: "uuid \<Rightarrow> unit act" where
  "DeleteBySession sessionID = (if sessionID = uuid_Nil then returnE ()
     else thenE (DeleteAuthTokensBySession (nullUUID sessionID)) (returnE ()))"

definition DeleteByUser :: "uuid \<Rightarrow> uuid option \<Rightarrow> unit act" where
  "DeleteByUser userID exceptSessionID =
     (let except = (case exceptSessionID of None \<Rightarrow> None
        | Some s \<Rightarrow> (if s \<noteq> uuid_Nil then Some s else None))
      in thenE (DeleteAuthTokensByUser (Some userID) except) (returnE ()))"

definition DeleteExpired :: "nat act" where
  "DeleteExpired = DeleteExpiredAuthTokens"

definition pg_store :: "ext \<Rightarrow> tokenlib \<Rightarrow> ITokenStore" where
  "pg_store X L = \<lparr>ts_Get = pg_Get, ts_Set = pg_Set X L, ts_Delete = pg_Delete\<rparr>"

section \<open>What is relied on of the library\<close>

definition token_key :: "string \<Rightarrow> bytes" where
  "token_key payload = tokenmanagerKeyPrefix @ payload"

text \<open>A signed token at its first dot.\<close>

fun cut_dot :: "string \<Rightarrow> (string \<times> string) option" where
  "cut_dot [] = None"
| "cut_dot (c # s) = (if c = CHR ''.'' then Some ([], s) else map_option (\<lambda>(a, b). (c # a, b)) (cut_dot s))"

definition create_spec ::
  "tokenlib \<Rightarrow> ITokenStore \<Rightarrow> bytes \<Rightarrow> duration \<Rightarrow> string \<Rightarrow> SessionData \<Rightarrow> string \<Rightarrow> (string \<times> TokenData) act" where
  "create_spec L S secret ttl user sd ty =
     bindE uuidNew (\<lambda>i. bindE now (\<lambda>t.
       let payload = tl_payload L i;
           d = \<lparr>td_UserID = user, td_IssuedAt = t, td_Expiry = t + ttl, td_TokenType = ty, td_AdditionalData = sd\<rparr>
       in thenE (ts_Set S (token_key payload) (tl_encode L d) ttl)
            (returnE (payload @ ''.'' @ tl_sign L secret payload, d))))"

definition validate_spec :: "tokenlib \<Rightarrow> ITokenStore \<Rightarrow> bytes \<Rightarrow> string \<Rightarrow> string \<Rightarrow> TokenData option act" where
  "validate_spec L S secret tok ty = (case cut_dot tok of
     None \<Rightarrow> returnE None
   | Some (payload, sig) \<Rightarrow>
       if sig \<noteq> tl_sign L secret payload then returnE None
       else bindE (tryE (ts_Get S (token_key payload))) (\<lambda>r. case r of
         Inl _ \<Rightarrow> returnE None
       | Inr v \<Rightarrow> bindE now (\<lambda>t. case tl_decode L v of
           None \<Rightarrow> returnE None
         | Some d \<Rightarrow> returnE (if td_TokenType d = ty \<and> t < td_Expiry d then Some d else None))))"

definition revoke_spec :: "ITokenStore \<Rightarrow> string \<Rightarrow> unit act" where
  "revoke_spec S tok = (case cut_dot tok of
     None \<Rightarrow> raiseE (Msg ''invalid token'') | Some (payload, _) \<Rightarrow> ts_Delete S (token_key payload))"

text \<open>The operations follow this protocol, payloads are nonempty, free of dots and distinct
  for distinct random numbers, and the encoding of the data can be read back.\<close>

definition tokenlib_ok :: "tokenlib \<Rightarrow> bool" where
  "tokenlib_ok L \<longleftrightarrow> tm_CreateToken L = create_spec L \<and> tm_ValidateToken L = validate_spec L
     \<and> tm_RevokeToken L = revoke_spec
     \<and> inj (tl_payload L) \<and> (\<forall>i. tl_payload L i \<noteq> [] \<and> CHR ''.'' \<notin> set (tl_payload L i))
     \<and> (\<forall>d. tl_decode L (tl_encode L d) = Some d)"

lemma cut_dot_signed: "CHR ''.'' \<notin> set p \<Longrightarrow> cut_dot (p @ CHR ''.'' # s) = Some (p, s)"
  by (induction p) auto

text \<open>The payload of a token that carries a good signature.\<close>

definition signed_payload :: "tokenlib \<Rightarrow> bytes \<Rightarrow> string \<Rightarrow> string option" where
  "signed_payload L secret tok = (case cut_dot tok of None \<Rightarrow> None
     | Some (p, sig) \<Rightarrow> if sig = tl_sign L secret p then Some p else None)"

section \<open>The contract of the store\<close>

locale token_store =
  fixes S :: ITokenStore
    and until :: "bytes \<Rightarrow> duration \<Rightarrow> time \<Rightarrow> time"
  assumes fetch_frame: "w_faults w = [] \<Longrightarrow> snd (ts_Get S k w) = w"
    and set_frame: "w_faults w = [] \<Longrightarrow> ts_Set S k v ttl w = (Inr (), w') \<Longrightarrow> w_faults w' = [] \<and> w_now w' = w_now w"
    and get_set_same: "w_faults w = [] \<Longrightarrow> ts_Set S k v ttl w = (Inr (), w') \<Longrightarrow>
          w_now w' < until v ttl (w_now w) \<Longrightarrow> fst (ts_Get S k w') = Inr v"
    and get_set_other: "w_faults w = [] \<Longrightarrow> ts_Set S k v ttl w = (Inr (), w') \<Longrightarrow> j \<noteq> k \<Longrightarrow>
          fst (ts_Get S j w') = fst (ts_Get S j w)"
    and del_frame: "w_faults w = [] \<Longrightarrow> \<exists>w'. ts_Delete S k w = (Inr (), w') \<and> w_faults w' = []"
    and get_del: "w_faults w = [] \<Longrightarrow> ts_Delete S k w = (Inr (), w') \<Longrightarrow>
          fst (ts_Get S j w') = (if j = k then Inl ErrKeyNotFound else fst (ts_Get S j w))"
begin

lemma validate_eval:
  assumes "w_faults w = []" and "signed_payload L secret tok = Some p"
  shows "validate_spec L S secret tok ty w =
    (Inr (case fst (ts_Get S (token_key p) w) of Inl _ \<Rightarrow> None
      | Inr v \<Rightarrow> (case tl_decode L v of None \<Rightarrow> None
          | Some d \<Rightarrow> if td_TokenType d = ty \<and> w_now w < td_Expiry d then Some d else None)), w)"
proof -
  obtain r where r: "ts_Get S (token_key p) w = (r, w)"
    using fetch_frame [OF assms(1)] by (metis prod.collapse)
  show ?thesis
    using assms(2) r
    by (auto simp: validate_spec_def signed_payload_def bindE_def tryE_def returnE_def now_def getsE_def
        split: option.splits sum.splits if_splits)
qed

lemma validate_rejects:
  assumes "signed_payload L secret tok = None"
  shows "validate_spec L S secret tok ty w = (Inr None, w)"
  using assms by (auto simp: validate_spec_def signed_payload_def returnE_def split: option.splits if_splits)

lemma validate_total:
  assumes "w_faults w = []"
  shows "\<exists>d. validate_spec L S secret tok ty w = (Inr d, w)"
proof (cases "signed_payload L secret tok")
  case None
  then show ?thesis using validate_rejects by blast
next
  case (Some p)
  then show ?thesis using validate_eval [OF assms] by blast
qed

lemma validate_cong:
  assumes "w_faults w = []" and "w_faults w' = []" and "w_now w' = w_now w"
    and "\<And>p. signed_payload L secret tok = Some p \<Longrightarrow> fst (ts_Get S (token_key p) w') = fst (ts_Get S (token_key p) w)"
  shows "fst (validate_spec L S secret tok ty w') = fst (validate_spec L S secret tok ty w)"
proof (cases "signed_payload L secret tok")
  case None
  then show ?thesis by (simp add: validate_rejects)
next
  case (Some p)
  then show ?thesis using assms by (simp add: validate_eval cong: sum.case_cong option.case_cong)
qed

text \<open>A created token validates, for its own type and secret, until it runs out.\<close>

lemma validate_created:
  assumes L: "tokenlib_ok L" and w: "w_faults w = []" and ttl: "0 < ttl"
    and until: "\<And>d. td_Expiry d = w_now w + ttl \<Longrightarrow> until (tl_encode L d) ttl (w_now w) = w_now w + ttl"
    and create: "create_spec L S secret ttl user sd ty w = (Inr (tok, d), w')"
  shows "validate_spec L S secret tok ty w' = (Inr (Some d), w')"
proof -
  let ?p = "tl_payload L (w_uuids w (w_uuid_pos w))" and ?w = "w\<lparr>w_uuid_pos := w_uuid_pos w + 1\<rparr>"
  have set: "ts_Set S (token_key ?p) (tl_encode L d) ttl ?w = (Inr (), w')"
    and tok: "tok = ?p @ ''.'' @ tl_sign L secret ?p"
    and d: "td_TokenType d = ty" "td_Expiry d = w_now w + ttl"
    using create by (auto simp: create_spec_def bindE_def thenE_def uuidNew_def now_def getsE_def returnE_def Let_def
        split: prod.splits sum.splits)
  have w': "w_faults w' = []" "w_now w' = w_now w"
    using set_frame [OF _ set] w by simp_all
  have "fst (ts_Get S (token_key ?p) w') = Inr (tl_encode L d)"
    using get_set_same [OF _ set] w w' until [OF d(2)] d ttl by simp
  then show ?thesis
    using L validate_eval [OF w'(1), of L secret tok ?p ty] d w' ttl
    by (simp add: tok cut_dot_signed signed_payload_def tokenlib_ok_def)
qed

text \<open>A revoked token does not validate any more.\<close>

lemma validate_revoked:
  assumes "w_faults w = []" and "revoke_spec S tok w = (Inr (), w')"
  shows "validate_spec L S secret tok ty w' = (Inr None, w')"
proof (cases "signed_payload L secret tok")
  case None
  then show ?thesis by (rule validate_rejects)
next
  case (Some p)
  then have del: "ts_Delete S (token_key p) w = (Inr (), w')"
    using assms(2) by (auto simp: revoke_spec_def signed_payload_def split: option.splits if_splits)
  with del_frame [OF assms(1), of "token_key p"] have "w_faults w' = []" by auto
  then show ?thesis
    using get_del [OF assms(1) del] Some by (simp add: validate_eval)
qed

end


section \<open>The Postgres store keeps the contract\<close>

lemma pg_Get_eval:
  "w_faults w = [] \<Longrightarrow> pg_Get k w =
     (case List.find (\<lambda>r. at_key r = k \<and> at_expires_at r > w_now w) (auth_tokens (w_db w)) of
        None \<Rightarrow> Inl ErrKeyNotFound | Some r \<Rightarrow> Inr (at_value r), w)"
  by (simp add: pg_Get_def GetAuthToken_def queryRow_def stmt_def mapErr_def bindE_def returnE_def split: option.split)

lemma pg_Delete_eval:
  "w_faults w = [] \<Longrightarrow> pg_Delete k w = (Inr (), w\<lparr>w_db := (w_db w)\<lparr>auth_tokens :=
      del_where (\<lambda>r. at_key r = k) (auth_tokens (w_db w))\<rparr>\<rparr>)"
  by (simp add: pg_Delete_def DeleteAuthToken_def exec_def stmt_def)

lemma find_del_token:
  "List.find (\<lambda>r. at_key r = j \<and> t < at_expires_at r) (del_where (\<lambda>r. at_key r = k) rows) =
     (if j = k then None else List.find (\<lambda>r. at_key r = j \<and> t < at_expires_at r) rows)"
  by (induction rows) (auto simp: del_where_def)

lemma find_upd_token:
  assumes "\<And>r. at_key (f r) = at_key r" and "\<And>r. at_value (f r) = v" and "\<And>r. at_expires_at (f r) = e"
  shows "map_option at_value (List.find (\<lambda>r. at_key r = j \<and> t < at_expires_at r) (upd_where (\<lambda>r. at_key r = k) f rows)) =
    (if j = k then (if t < e \<and> (\<exists>r \<in> set rows. at_key r = k) then Some v else None)
     else map_option at_value (List.find (\<lambda>r. at_key r = j \<and> t < at_expires_at r) rows))"
  by (induction rows) (auto simp: upd_where_def assms split: if_splits)

lemma find_upsert_token:
  assumes "\<And>r. at_key (f r) = at_key r" and "\<And>r. at_value (f r) = v" and "\<And>r. at_expires_at (f r) = e"
    and "at_key new = k" and "at_value new = v" and "at_expires_at new = e"
  shows "map_option at_value (List.find (\<lambda>r. at_key r = j \<and> t < at_expires_at r) (upsert (\<lambda>r. at_key r = k) f new rows)) =
    (if j = k then (if t < e then Some v else None)
     else map_option at_value (List.find (\<lambda>r. at_key r = j \<and> t < at_expires_at r) rows))"
proof (cases "\<exists>r \<in> set rows. at_key r = k")
  case True
  then show ?thesis using find_upd_token [OF assms(1-3)] by (simp add: upsert_def)
next
  case False
  then have "List.find (\<lambda>r. at_key r = k \<and> t < at_expires_at r) rows = None"
    by (auto simp: find_None_iff_all)
  with False assms(4-6) show ?thesis by (auto simp: upsert_def find_append split: option.split)
qed

lemma pg_Get_value:
  "w_faults w = [] \<Longrightarrow> fst (pg_Get k w) =
     (case map_option at_value (List.find (\<lambda>r. at_key r = k \<and> w_now w < at_expires_at r) (auth_tokens (w_db w))) of
        None \<Rightarrow> Inl ErrKeyNotFound | Some v \<Rightarrow> Inr v)"
  by (simp add: pg_Get_eval split: option.split)

lemma pg_Set_ok:
  assumes "w_faults w = []" and "pg_Set X L k v ttl w = (Inr (), w')"
  shows "\<exists>d. w' = w\<lparr>w_db := d\<rparr> \<and> (\<forall>j. fst (pg_Get j w') =
    (if j = k then (if w_now w < deadline L v ttl (w_now w) then Inr v else Inl ErrKeyNotFound) else fst (pg_Get j w)))"
proof -
  let ?e = "decodeEnvelope L v"
  let ?u = "nullUUIDFromString X (td_UserID ?e)" and ?s = "nullUUID (sd_SessionID (td_AdditionalData ?e))"
  let ?f = "\<lambda>r. r\<lparr>at_value := v, at_user_id := ?u, at_session_id := ?s, at_token_type := td_TokenType ?e,
      at_expires_at := deadline L v ttl (w_now w)\<rparr>"
  let ?new = "\<lparr>at_key = k, at_value = v, at_user_id = ?u, at_session_id = ?s, at_token_type = td_TokenType ?e,
      at_expires_at = deadline L v ttl (w_now w), at_created_at = w_now w\<rparr>"
  have "w' = w\<lparr>w_db := (w_db w)\<lparr>auth_tokens := upsert (\<lambda>r. at_key r = k) ?f ?new (auth_tokens (w_db w))\<rparr>\<rparr>"
    using assms by (auto simp: pg_Set_def UpsertAuthToken_def dml_def stmt_def bindE_def now_def getsE_def Let_def
        split: if_splits)
  then show ?thesis
    using assms(1) find_upsert_token [of ?f v "deadline L v ttl (w_now w)" ?new k _ "w_now w" "auth_tokens (w_db w)"]
    by (auto simp: pg_Get_value)
qed

interpretation pg: token_store "pg_store X L" "deadline L"
proof (unfold_locales, unfold pg_store_def ITokenStore.simps)
  fix w w' k j v ttl
  show "snd (pg_Get k w) = w" if "w_faults w = []"
    using that by (simp add: pg_Get_eval)
  show "\<exists>w'. pg_Delete k w = (Inr (), w') \<and> w_faults w' = []" if "w_faults w = []"
    using that by (simp add: pg_Delete_eval)
  show "fst (pg_Get j w') = (if j = k then Inl ErrKeyNotFound else fst (pg_Get j w))"
    if "w_faults w = []" and "pg_Delete k w = (Inr (), w')"
    using that by (auto simp: pg_Delete_eval pg_Get_value find_del_token)
  assume w: "w_faults w = []" and set: "pg_Set X L k v ttl w = (Inr (), w')"
  note ok = pg_Set_ok [OF w set]
  show "w_faults w' = [] \<and> w_now w' = w_now w" using ok w by auto
  show "fst (pg_Get k w') = Inr v" if "w_now w' < deadline L v ttl (w_now w)" using ok that by auto
  show "fst (pg_Get j w') = fst (pg_Get j w)" if "j \<noteq> k" using ok that by auto
qed

section \<open>A concrete library\<close>

text \<open>An instance that satisfies \<open>tokenlib_ok\<close>: payloads in unary, data in a prefix code.\<close>

fun enc_str :: "string \<Rightarrow> string" where
  "enc_str [] = ''0''"
| "enc_str (c # s) = CHR ''1'' # c # enc_str s"

fun dec_str :: "string \<Rightarrow> (string \<times> string) option" where
  "dec_str (CHR ''1'' # c # r) = map_option (\<lambda>(s, t). (c # s, t)) (dec_str r)"
| "dec_str (_ # r) = Some ([], r)"
| "dec_str [] = None"

lemma dec_enc_str [simp]: "dec_str (enc_str s @ t) = Some (s, t)"
  by (induction s) simp_all

definition enc_int :: "int \<Rightarrow> string" where
  "enc_int i = enc_str ((if i < 0 then CHR ''-'' else CHR ''+'') # replicate (nat \<bar>i\<bar>) CHR ''i'')"

definition int_of_unary :: "string \<Rightarrow> int" where
  "int_of_unary s = (if hd s = CHR ''-'' then - int (length s - 1) else int (length s - 1))"

definition demo_encode :: "TokenData \<Rightarrow> bytes" where
  "demo_encode d = enc_str (td_UserID d) @ enc_int (td_IssuedAt d) @ enc_int (td_Expiry d) @ enc_str (td_TokenType d)
     @ enc_int (int (sd_SessionID (td_AdditionalData d))) @ enc_str (sd_DeviceID (td_AdditionalData d))
     @ enc_str (sd_DeviceType (td_AdditionalData d))"

fun dec_strs :: "nat \<Rightarrow> string \<Rightarrow> string list option" where
  "dec_strs 0 s = Some []"
| "dec_strs (Suc n) s = (case dec_str s of None \<Rightarrow> None | Some (x, r) \<Rightarrow> map_option (Cons x) (dec_strs n r))"

definition demo_decode :: "bytes \<Rightarrow> TokenData option" where
  "demo_decode v = (case dec_strs 7 v of
     Some [u, i, e, ty, s, d, t] \<Rightarrow> Some \<lparr>td_UserID = u, td_IssuedAt = int_of_unary i, td_Expiry = int_of_unary e,
       td_TokenType = ty, td_AdditionalData = \<lparr>sd_SessionID = nat (int_of_unary s), sd_DeviceID = d, sd_DeviceType = t\<rparr>\<rparr>
   | _ \<Rightarrow> None)"

lemma demo_decode_encode: "demo_decode (demo_encode d) = Some d"
  using dec_enc_str [of "sd_DeviceType (td_AdditionalData d)" "[]"]
  by (simp add: demo_decode_def demo_encode_def enc_int_def int_of_unary_def numeral_eq_Suc del: enc_str.simps)

definition demo_lib_core :: tokenlib where
  "demo_lib_core = \<lparr>tm_CreateToken = (\<lambda>_ _ _ _ _ _. raiseE Fault), tm_ValidateToken = (\<lambda>_ _ _ _. returnE None),
     tm_RevokeToken = revoke_spec, tl_payload = (\<lambda>i. replicate (i + 1) CHR ''p''), tl_sign = (\<lambda>k p. k @ p),
     tl_encode = demo_encode, tl_decode = demo_decode\<rparr>"

definition demo_lib :: tokenlib where
  "demo_lib = demo_lib_core\<lparr>tm_CreateToken := create_spec demo_lib_core, tm_ValidateToken := validate_spec demo_lib_core\<rparr>"

lemma demo_lib_ok: "tokenlib_ok demo_lib"
proof -
  have fields: "tl_payload demo_lib = tl_payload demo_lib_core" "tl_sign demo_lib = tl_sign demo_lib_core"
    "tl_encode demo_lib = tl_encode demo_lib_core" "tl_decode demo_lib = tl_decode demo_lib_core"
    by (simp_all add: demo_lib_def)
  have "create_spec demo_lib = create_spec demo_lib_core" "validate_spec demo_lib = validate_spec demo_lib_core"
    unfolding create_spec_def validate_spec_def fields by rule+
  then show ?thesis
    by (simp add: tokenlib_ok_def demo_decode_encode demo_lib_def demo_lib_core_def inj_def)
qed

end
