(* ===== verification/Auth_Manager.thy ===== *)
theory Auth_Manager
  imports Token_Store
begin

text \<open>
  The session manager (\<open>internal/auth/manager.go\<close>): issuing, checking, rotating and
  revoking token pairs.  The tokens are rows of \<open>auth_tokens\<close> that carry the user and the
  session of their payload in columns of their own; revocation works on the columns and
  validation on the payload, so the central invariant is that the two agree.
\<close>

section \<open>The manager\<close>

record Manager =
  m_accessSecret :: bytes
  m_refreshSecret :: bytes
  m_accessTTL :: duration
  m_refreshTTL :: duration

record IssuedTokens =
  it_UserID :: uuid
  it_AccessToken :: string
  it_RefreshToken :: string
  it_AccessExpiresAt :: time
  it_RefreshExpiresAt :: time
  it_SessionID :: uuid
  it_DeviceID :: string

text \<open>A \<open>nil\<close> slice, which is also NULL in the database, is \<open>None\<close>.\<close>

definition refreshKeyFromSignedToken :: "string \<Rightarrow> bytes option" where
  "refreshKeyFromSignedToken signed = (case cut_dot signed of
     None \<Rightarrow> None
   | Some (payload, _) \<Rightarrow> if payload = [] then None else Some (tokenmanagerKeyPrefix @ payload))"

definition textOrNull :: "string \<Rightarrow> string option" where
  "textOrNull s = (if s = '''' then None else Some s)"

definition Issue :: "ext \<Rightarrow> tokenlib \<Rightarrow> Manager \<Rightarrow> uuid \<Rightarrow> string \<Rightarrow> string \<Rightarrow> string \<Rightarrow> IssuedTokens act" where
  "Issue X L m userID deviceID deviceType deviceName =
     (let S = pg_store X L in
      thenE (rejectIf (deviceID = '''') (Msg ''device_id required''))
      (bindE (SystemDo (bindE now (\<lambda>t.
          bindE (mapErr (Wrap ''persist session'') (UpsertSession
            \<lparr>usp_user_id = userID, usp_device_id = deviceID, usp_device_type = deviceType,
             usp_device_name = textOrNull deviceName, usp_ip = None, usp_country = None,
             usp_access_expires_at = t + m_accessTTL m, usp_refresh_expires_at = t + m_refreshTTL m\<rparr>))
          (\<lambda>r. returnE (as_id r)))))
      (\<lambda>sessionRow.
        let sd = \<lparr>sd_SessionID = sessionRow, sd_DeviceID = deviceID, sd_DeviceType = deviceType\<rparr> in
        thenE (mapErr (Wrap ''clear stale tokens'') (DeleteBySession sessionRow))
        (bindE (mapErr (Wrap ''issue access'')
           (tm_CreateToken L S (m_accessSecret m) (m_accessTTL m) (uuid_String X userID) sd AccessTokenType))
        (\<lambda>(accessTok, accessMeta).
        bindE (tryE (tm_CreateToken L S (m_refreshSecret m) (m_refreshTTL m) (uuid_String X userID) sd RefreshTokenType))
        (\<lambda>res. case res of
           Inl e \<Rightarrow> thenE (tryE (tm_RevokeToken L S accessTok)) (raiseE (Wrap ''issue refresh'' e))
         | Inr (refreshTok, refreshMeta) \<Rightarrow>
             bindE (tryE (SystemDo (SetSessionCurrentRefreshKey sessionRow (refreshKeyFromSignedToken refreshTok))))
             (\<lambda>stamp. case stamp of
                Inl e \<Rightarrow> thenE (tryE (tm_RevokeToken L S accessTok))
                  (thenE (tryE (tm_RevokeToken L S refreshTok)) (raiseE (Wrap ''stamp current refresh'' e)))
              | Inr _ \<Rightarrow> returnE \<lparr>it_UserID = userID, it_AccessToken = accessTok, it_RefreshToken = refreshTok,
                  it_AccessExpiresAt = td_Expiry accessMeta, it_RefreshExpiresAt = td_Expiry refreshMeta,
                  it_SessionID = sessionRow, it_DeviceID = deviceID\<rparr>)))))))"

definition Authenticate :: "ext \<Rightarrow> tokenlib \<Rightarrow> Manager \<Rightarrow> string \<Rightarrow> TokenData act" where
  "Authenticate X L m accessToken =
     bindE (tm_ValidateToken L (pg_store X L) (m_accessSecret m) accessToken AccessTokenType)
       (\<lambda>r. case r of None \<Rightarrow> raiseE (Msg ''invalid access token'') | Some d \<Rightarrow> returnE d)"

text \<open>\<open>subtle.ConstantTimeCompare(a, b) == 1\<close>; a \<open>nil\<close> slice has no bytes.\<close>

definition ConstantTimeCompare :: "bytes option \<Rightarrow> bytes option \<Rightarrow> bool" where
  "ConstantTimeCompare a b \<longleftrightarrow> (case a of None \<Rightarrow> [] | Some x \<Rightarrow> x) = (case b of None \<Rightarrow> [] | Some y \<Rightarrow> y)"

definition Refresh :: "ext \<Rightarrow> tokenlib \<Rightarrow> Manager \<Rightarrow> string \<Rightarrow> string \<Rightarrow> string \<Rightarrow> IssuedTokens act" where
  "Refresh X L m refreshToken deviceType deviceName =
     (let S = pg_store X L in
      bindE (tm_ValidateToken L S (m_refreshSecret m) refreshToken RefreshTokenType)
      (\<lambda>r. case r of
         None \<Rightarrow> raiseE (Msg ''invalid refresh token'')
       | Some tok \<Rightarrow> (case uuid_Parse X (td_UserID tok) of
           None \<Rightarrow> raiseE (Wrap ''invalid user id in token'' (Msg ''invalid UUID''))
         | Some userID \<Rightarrow>
             let sid = sd_SessionID (td_AdditionalData tok) in
             bindE (mapErr (Wrap ''read current refresh key'') (SystemDo (GetSessionCurrentRefreshKey sid)))
             (\<lambda>currentKey.
               if \<not> ConstantTimeCompare currentKey (refreshKeyFromSignedToken refreshToken)
               then thenE (tryE (SystemDo (thenE (DeleteByUser userID None) (RevokeAllUserSessions userID))))
                      (raiseE ErrRefreshReuse)
               else thenE (tryE (tm_RevokeToken L S refreshToken))
                     (thenE (tryE (DeleteBySession sid))
                       (Issue X L m userID (sd_DeviceID (td_AdditionalData tok))
                         (if deviceType = '''' then sd_DeviceType (td_AdditionalData tok) else deviceType)
                         deviceName))))))"

definition RevokeAllUserTokens :: "uuid \<Rightarrow> unit act" where
  "RevokeAllUserTokens userID = DeleteByUser userID None"

definition RevokeUserTokensExceptSession :: "uuid \<Rightarrow> uuid \<Rightarrow> unit act" where
  "RevokeUserTokensExceptSession userID exceptSessionID = DeleteByUser userID (Some exceptSessionID)"

definition manager_RevokeSession :: "uuid \<Rightarrow> unit act" where
  "manager_RevokeSession sessionID =
     thenE (mapErr (Wrap ''delete session tokens'') (DeleteBySession sessionID))
       (SystemDo (RevokeSession sessionID))"

definition Logout :: "ext \<Rightarrow> tokenlib \<Rightarrow> Manager \<Rightarrow> string \<Rightarrow> unit act" where
  "Logout X L m accessToken =
     bindE (tm_ValidateToken L (pg_store X L) (m_accessSecret m) accessToken AccessTokenType)
     (\<lambda>r. case r of
        None \<Rightarrow> returnE ()
      | Some d \<Rightarrow>
          thenE (mapErr (Wrap ''delete session tokens'') (DeleteBySession (sd_SessionID (td_AdditionalData d))))
            (mapErr (Wrap ''revoke session row'') (SystemDo (RevokeSession (sd_SessionID (td_AdditionalData d))))))"

section \<open>The invariant\<close>

text \<open>The columns of a token row agree with its payload.\<close>

definition token_row_ok :: "ext \<Rightarrow> tokenlib \<Rightarrow> AuthToken \<Rightarrow> bool" where
  "token_row_ok X L r \<longleftrightarrow> (case tl_decode L (at_value r) of None \<Rightarrow> False
     | Some d \<Rightarrow> at_user_id r = nullUUIDFromString X (td_UserID d)
         \<and> at_session_id r = nullUUID (sd_SessionID (td_AdditionalData d))
         \<and> at_token_type r = td_TokenType d \<and> (td_Expiry d = zero_time \<or> at_expires_at r = td_Expiry d))"

text \<open>Keys and session ids stem from the identifiers handed out so far, and a user has at
  most one session per device.\<close>

definition auth_db_ok :: "ext \<Rightarrow> tokenlib \<Rightarrow> (nat \<Rightarrow> uuid) \<Rightarrow> nat \<Rightarrow> db \<Rightarrow> bool" where
  "auth_db_ok X L us p d \<longleftrightarrow>
     (\<forall>r \<in> set (auth_tokens d). token_row_ok X L r \<and> (\<exists>n < p. at_key r = token_key (tl_payload L (us n)))) \<and>
     distinct (map at_key (auth_tokens d)) \<and>
     (\<forall>r \<in> set (auth_sessions d). \<exists>n < p. as_id r = us n) \<and>
     distinct (map as_id (auth_sessions d)) \<and>
     distinct (map (\<lambda>r. (as_user_id r, as_device_id r)) (auth_sessions d))"

lemma auth_db_ok_grow: "auth_db_ok X L us p d \<Longrightarrow> p \<le> q \<Longrightarrow> auth_db_ok X L us q d"
  unfolding auth_db_ok_def by (meson order_less_le_trans)

interpretation auth: db_invariant "auth_db_ok X L"
  by unfold_locales (rule auth_db_ok_grow)

abbreviation auth_inv :: "ext \<Rightarrow> tokenlib \<Rightarrow> world \<Rightarrow> bool" where
  "auth_inv X L \<equiv> db_inv (auth_db_ok X L)"

lemma keeps_delete_tokens: "keeps (auth_inv X L) (delete_tokens_where p)"
  unfolding delete_tokens_where_def
  by (rule auth.keeps_dml) (auto simp: auth_db_ok_def tbl distinct_map_del_where)

lemma keeps_DeleteBySession: "keeps (auth_inv X L) (DeleteBySession s)"
  unfolding DeleteBySession_def DeleteAuthTokensBySession_def
  by (auto intro: auth.keeps_intros keeps_delete_tokens)

lemma keeps_DeleteByUser: "keeps (auth_inv X L) (DeleteByUser u e)"
  unfolding DeleteByUser_def DeleteAuthTokensByUser_def Let_def
  by (intro auth.keeps_intros keeps_delete_tokens)

lemma keeps_pg_Get: "keeps (auth_inv X L) (pg_Get k)"
  unfolding pg_Get_def GetAuthToken_def by (intro auth.keeps_intros)

lemma keeps_pg_Delete: "keeps (auth_inv X L) (pg_Delete k)"
  unfolding pg_Delete_def DeleteAuthToken_def
  by (rule auth.keeps_exec) (auto simp: auth_db_ok_def tbl distinct_map_del_where)

lemma keeps_session_update:
  assumes "\<And>w r. as_id (f w r) = as_id r \<and> as_user_id (f w r) = as_user_id r \<and> as_device_id (f w r) = as_device_id r"
  shows "keeps (auth_inv X L) (exec (\<lambda>w. (w_db w)\<lparr>auth_sessions := upd_where (p w) (f w) (auth_sessions (w_db w))\<rparr>))"
  using assms by (intro auth.keeps_exec) (auto simp: auth_db_ok_def tbl map_upd_where)

lemma keeps_session_ops:
  "keeps (auth_inv X L) (RevokeSession i)" "keeps (auth_inv X L) (RevokeAllUserSessions u)"
  "keeps (auth_inv X L) (SetSessionCurrentRefreshKey i k)" "keeps (auth_inv X L) (TouchSession i)"
  unfolding RevokeSession_def RevokeAllUserSessions_def SetSessionCurrentRefreshKey_def TouchSession_def
    revoke_where_def
  by (intro keeps_session_update; simp)+

text \<open>After an identifier has been drawn, it may be used as a key.\<close>

interpretation auth_new: db_invariant "\<lambda>us p d. auth_db_ok X L us p d \<and> (\<exists>n < p. us n = i)"
  by (unfold_locales, auto intro: auth_db_ok_grow) (blast intro: order_less_le_trans)

lemma keeps_bind_uuidNew:
  assumes "\<And>i. keeps (db_inv (\<lambda>us p d. auth_db_ok X L us p d \<and> (\<exists>n < p. us n = i))) (f i)"
  shows "keeps (auth_inv X L) (bindE uuidNew f)"
  unfolding keeps_def
proof (intro allI impI)
  fix w assume "auth_inv X L w"
  then have "db_inv (\<lambda>us p d. auth_db_ok X L us p d \<and> (\<exists>n < p. us n = w_uuids w (w_uuid_pos w)))
      (w\<lparr>w_uuid_pos := w_uuid_pos w + 1\<rparr>)"
    by (auto simp: db_inv_def intro: auth_db_ok_grow)
  from assms [unfolded keeps_def, rule_format, OF this] show "auth_inv X L (snd (bindE uuidNew f w))"
    by (auto simp: bindE_def uuidNew_def db_inv_def)
qed

lemma keeps_UpsertSession: "keeps (auth_inv X L) (UpsertSession a)"
  unfolding UpsertSession_def
proof (intro keeps_bind_uuidNew auth_new.keeps_dml, goal_cases)
  case (1 i w r d)
  then show ?case
    by (auto simp: auth_db_ok_def tbl map_upd_where merged_session_def fresh_session_def find_None_iff_all Let_def
        split: if_splits option.splits; blast)
qed

lemma keeps_UpsertAuthToken:
  assumes "token_row_ok X L \<lparr>at_key = k, at_value = v, at_user_id = u, at_session_id = s, at_token_type = ty,
      at_expires_at = e, at_created_at = c\<rparr>"
    and "k = token_key (tl_payload L i)"
  shows "keeps (db_inv (\<lambda>us p d. auth_db_ok X L us p d \<and> (\<exists>n < p. us n = i))) (UpsertAuthToken k v u s ty e)"
  unfolding UpsertAuthToken_def
proof (rule auth_new.keeps_dml, goal_cases)
  case (1 w x d)
  let ?Q = "\<lambda>r. token_row_ok X L r \<and> (\<exists>n < w_uuid_pos w. at_key r = token_key (tl_payload L (w_uuids w n)))"
  have key: "\<exists>n < w_uuid_pos w. k = token_key (tl_payload L (w_uuids w n))" using 1 assms(2) by auto
  have row: "token_row_ok X L r" if "at_value r = v" "at_user_id r = u" "at_session_id r = s"
      "at_token_type r = ty" "at_expires_at r = e" for r
    using assms(1) that by (simp add: token_row_ok_def split: option.splits)
  let ?f = "\<lambda>r. r\<lparr>at_value := v, at_user_id := u, at_session_id := s, at_token_type := ty, at_expires_at := e\<rparr>"
  let ?new = "\<lparr>at_key = k, at_value = v, at_user_id = u, at_session_id = s, at_token_type = ty,
      at_expires_at = e, at_created_at = w_now w\<rparr>"
  have d: "d = (w_db w)\<lparr>auth_tokens := upsert (\<lambda>r. at_key r = k) ?f ?new (auth_tokens (w_db w))\<rparr>"
    using 1 by (auto split: if_splits)
  have "\<forall>r \<in> set (upsert (\<lambda>r. at_key r = k) ?f ?new (auth_tokens (w_db w))). ?Q r"
  proof (rule ball_upsert)
    show "?Q r" if "r \<in> set (auth_tokens (w_db w))" for r
      using 1 that unfolding auth_db_ok_def by blast
  qed (use key row in auto)
  moreover have "distinct (map at_key (auth_tokens d))"
    unfolding d using 1 by (auto simp: auth_db_ok_def intro!: distinct_map_upsert)
  ultimately show ?case using 1 by (simp add: d auth_db_ok_def)
qed

lemma keeps_create:
  assumes "tokenlib_ok L"
  shows "keeps (auth_inv X L) (create_spec L (pg_store X L) secret ttl user sd ty)"
  unfolding create_spec_def
proof (rule keeps_bind_uuidNew)
  fix i
  show "keeps (db_inv (\<lambda>us p d. auth_db_ok X L us p d \<and> (\<exists>n < p. us n = i)))
    (bindE now (\<lambda>t. let payload = tl_payload L i;
           d = \<lparr>td_UserID = user, td_IssuedAt = t, td_Expiry = t + ttl, td_TokenType = ty, td_AdditionalData = sd\<rparr>
       in thenE (ts_Set (pg_store X L) (token_key payload) (tl_encode L d) ttl)
            (returnE (payload @ ''.'' @ tl_sign L secret payload, d))))"
    using assms unfolding pg_store_def ITokenStore.simps pg_Set_def Let_def
    by (intro auth_new.keeps_intros keeps_UpsertAuthToken)
       (auto simp: token_row_ok_def tokenlib_ok_def decodeEnvelope_def deadline_def)
qed

lemma keeps_revoke: "keeps (auth_inv X L) (revoke_spec (pg_store X L) tok)"
  unfolding revoke_spec_def pg_store_def ITokenStore.simps
  by (auto intro: keeps_pg_Delete auth.keeps_intros split: option.split)

lemma keeps_validate: "keeps (auth_inv X L) (validate_spec L (pg_store X L) secret tok ty)"
  unfolding validate_spec_def pg_store_def ITokenStore.simps
  by (auto intro!: keeps_pg_Get auth.keeps_intros split: option.split sum.split)

lemmas keeps_auth = keeps_DeleteBySession keeps_DeleteByUser keeps_session_ops keeps_UpsertSession keeps_create
  keeps_revoke keeps_validate

lemma keeps_Issue:
  assumes L: "tokenlib_ok L"
  shows "keeps (auth_inv X L) (Issue X L m u dev ty nm)"
  using L unfolding Issue_def Let_def tokenlib_ok_def
  by (auto intro!: auth.keeps_intros keeps_cases keeps_auth L)

lemma keeps_Refresh:
  assumes L: "tokenlib_ok L"
  shows "keeps (auth_inv X L) (Refresh X L m tok ty nm)"
  using L unfolding Refresh_def Let_def tokenlib_ok_def GetSessionCurrentRefreshKey_def
  by (auto intro!: auth.keeps_intros keeps_cases keeps_auth keeps_Issue L)

lemma keeps_Logout:
  assumes L: "tokenlib_ok L"
  shows "keeps (auth_inv X L) (Logout X L m tok)"
  using L unfolding Logout_def tokenlib_ok_def
  by (auto intro!: auth.keeps_intros keeps_cases keeps_auth)

lemma keeps_manager_RevokeSession: "keeps (auth_inv X L) (manager_RevokeSession s)"
  unfolding manager_RevokeSession_def by (intro auth.keeps_intros keeps_auth)

section \<open>Reachable states\<close>

text \<open>
  Histories of the token tables: calls of the manager with any arguments and under any
  faults, the clock, and whatever the rest of the server does to other tables.
\<close>

inductive auth_reach :: "ext \<Rightarrow> tokenlib \<Rightarrow> Manager \<Rightarrow> world \<Rightarrow> bool" for X L m where
  start: "auth_tokens (w_db w) = [] \<Longrightarrow> auth_sessions (w_db w) = [] \<Longrightarrow> w_tx w = None \<Longrightarrow> auth_reach X L m w"
| issue: "auth_reach X L m w \<Longrightarrow> auth_reach X L m (snd (Issue X L m u dev ty nm w))"
| refresh: "auth_reach X L m w \<Longrightarrow> auth_reach X L m (snd (Refresh X L m tok ty nm w))"
| logout: "auth_reach X L m w \<Longrightarrow> auth_reach X L m (snd (Logout X L m tok w))"
| revoke: "auth_reach X L m w \<Longrightarrow> auth_reach X L m (snd (manager_RevokeSession sid w))"
| revoke_all: "auth_reach X L m w \<Longrightarrow> auth_reach X L m (snd (RevokeAllUserTokens u w))"
| revoke_except: "auth_reach X L m w \<Longrightarrow> auth_reach X L m (snd (RevokeUserTokensExceptSession u sid w))"
| sweep: "auth_reach X L m w \<Longrightarrow> auth_reach X L m (snd (DeleteExpired w))"
| environment: "auth_reach X L m w \<Longrightarrow> w_now w \<le> t \<Longrightarrow> w_uuid_pos w \<le> p \<Longrightarrow>
    auth_tokens d = auth_tokens (w_db w) \<Longrightarrow> auth_sessions d = auth_sessions (w_db w) \<Longrightarrow>
    auth_reach X L m (w\<lparr>w_faults := fs, w_db := d, w_tx := None, w_now := t, w_uuid_pos := p\<rparr>)"

lemma auth_reach_inv:
  assumes "tokenlib_ok L" and "auth_reach X L m w"
  shows "auth_inv X L w"
  using assms(2)
proof (induction rule: auth_reach.induct)
  case (start w)
  then show ?case by (simp add: db_inv_def auth_db_ok_def)
next
  case (environment w t p d fs)
  then have "auth_db_ok X L (w_uuids w) p (w_db w)" by (auto simp: db_inv_def intro: auth_db_ok_grow)
  with environment show ?case by (simp add: db_inv_def auth_db_ok_def)
next
  case (sweep w)
  with keeps_delete_tokens show ?case by (simp add: keeps_def DeleteExpired_def DeleteExpiredAuthTokens_def)
qed (use assms(1) keeps_Issue keeps_Refresh keeps_Logout keeps_manager_RevokeSession keeps_DeleteByUser
     in \<open>auto simp: keeps_def RevokeAllUserTokens_def RevokeUserTokensExceptSession_def\<close>)

section \<open>Validation reads the token table\<close>

text \<open>What a token that validates is backed by.\<close>

lemma validate_row:
  assumes "tokenlib_ok L" and "w_faults w = []"
    and "fst (tm_ValidateToken L (pg_store X L) secret tok ty w) = Inr (Some d)"
  shows "\<exists>p. \<exists>r \<in> set (auth_tokens (w_db w)). signed_payload L secret tok = Some p \<and> at_key r = token_key p \<and>
    tl_decode L (at_value r) = Some d \<and> td_TokenType d = ty \<and> w_now w < at_expires_at r"
proof -
  have spec: "fst (validate_spec L (pg_store X L) secret tok ty w) = Inr (Some d)"
    using assms by (simp add: tokenlib_ok_def)
  then obtain p where p: "signed_payload L secret tok = Some p"
    using pg.validate_rejects by (cases "signed_payload L secret tok") (simp, blast)
  from spec [unfolded pg.validate_eval [OF assms(2) p]] show ?thesis
    by (auto simp: p pg_store_def pg_Get_eval assms(2) split: option.splits if_splits dest!: find_SomeD)
qed

text \<open>The clients of the token table see only rows of live keys: what the deletion of rows
  means for validation.\<close>

definition validates :: "ext \<Rightarrow> tokenlib \<Rightarrow> bytes \<Rightarrow> string \<Rightarrow> string \<Rightarrow> world \<Rightarrow> TokenData option" where
  "validates X L secret tok ty w =
     (case fst (tm_ValidateToken L (pg_store X L) secret tok ty (w\<lparr>w_faults := []\<rparr>)) of
        Inl _ \<Rightarrow> None | Inr d \<Rightarrow> d)"

lemma validates_row:
  assumes "tokenlib_ok L" and "auth_db_ok X L us p (w_db w)" and "validates X L secret tok ty w = Some d"
  shows "\<exists>r \<in> set (auth_tokens (w_db w)). at_user_id r = nullUUIDFromString X (td_UserID d)
    \<and> at_session_id r = nullUUID (sd_SessionID (td_AdditionalData d))"
proof -
  have "fst (tm_ValidateToken L (pg_store X L) secret tok ty (w\<lparr>w_faults := []\<rparr>)) = Inr (Some d)"
    using assms(3) by (auto simp: validates_def split: sum.splits)
  from validate_row [OF assms(1) _ this] obtain r where r: "r \<in> set (auth_tokens (w_db w))"
      "tl_decode L (at_value r) = Some d" by auto
  then have "token_row_ok X L r" using assms(2) by (auto simp: auth_db_ok_def)
  with r show ?thesis by (auto simp: token_row_ok_def)
qed

lemma DeleteBySession_outcome:
  assumes "sid \<noteq> uuid_Nil"
  shows "wp (DeleteBySession sid) (\<lambda>r w'. r = Inr () \<longrightarrow>
    (\<forall>r \<in> set (auth_tokens (w_db w')). at_session_id r \<noteq> Some sid)) w"
  unfolding DeleteBySession_def DeleteAuthTokensBySession_def delete_tokens_where_def wps
  using assms by (auto intro!: wp_dml_any simp: nullUUID_def wps tbl)

lemma RevokeSession_tokens:
  "wp (SystemDo (RevokeSession sid)) (\<lambda>_ w'. auth_tokens (w_db w') = auth_tokens (w_db w)) w"
  unfolding RevokeSession_def
  by (rule wp_SystemDo_any) (auto intro!: wpi simp: tx_simps revoke_where_def)

lemma manager_RevokeSession_outcome:
  assumes "sid \<noteq> uuid_Nil"
  shows "wp (manager_RevokeSession sid) (\<lambda>r w'. r = Inr () \<longrightarrow>
    (\<forall>r \<in> set (auth_tokens (w_db w')). at_session_id r \<noteq> Some sid)) w"
  unfolding manager_RevokeSession_def wps
  by (rule wp_mono [OF DeleteBySession_outcome [OF assms]])
     (auto split: sum.split intro!: wp_mono [OF RevokeSession_tokens])

section \<open>Runs without faults\<close>

text \<open>Validation as a lookup in the list of rows.\<close>

definition token_lookup :: "tokenlib \<Rightarrow> time \<Rightarrow> string \<Rightarrow> AuthToken list \<Rightarrow> string \<Rightarrow> TokenData option" where
  "token_lookup L t ty rows p =
     (case List.find (\<lambda>r. at_key r = token_key p \<and> t < at_expires_at r) rows of
        None \<Rightarrow> None
      | Some r \<Rightarrow> (case tl_decode L (at_value r) of None \<Rightarrow> None
          | Some d \<Rightarrow> if td_TokenType d = ty \<and> t < td_Expiry d then Some d else None))"

lemma validate_lookup:
  assumes "tokenlib_ok L" and "w_faults w = []"
  shows "tm_ValidateToken L (pg_store X L) secret tok ty w =
    (Inr (case signed_payload L secret tok of None \<Rightarrow> None
      | Some p \<Rightarrow> token_lookup L (w_now w) ty (auth_tokens (w_db w)) p), w)"
proof (cases "signed_payload L secret tok")
  case None
  then show ?thesis using assms by (simp add: tokenlib_ok_def pg.validate_rejects)
next
  case (Some p)
  have get: "ts_Get (pg_store X L) = pg_Get" by (simp add: pg_store_def)
  from Some show ?thesis using assms
    by (auto simp: tokenlib_ok_def pg.validate_eval get pg_Get_eval token_lookup_def split: option.split)
qed

lemma validates_lookup:
  assumes "tokenlib_ok L"
  shows "validates X L secret tok ty w = (case signed_payload L secret tok of None \<Rightarrow> None
      | Some p \<Rightarrow> token_lookup L (w_now w) ty (auth_tokens (w_db w)) p)"
  using assms by (simp add: validates_def validate_lookup split: option.split)

definition token_row :: "ext \<Rightarrow> tokenlib \<Rightarrow> uuid \<Rightarrow> TokenData \<Rightarrow> time \<Rightarrow> AuthToken" where
  "token_row X L i d t = \<lparr>at_key = token_key (tl_payload L i), at_value = tl_encode L d,
     at_user_id = nullUUIDFromString X (td_UserID d), at_session_id = nullUUID (sd_SessionID (td_AdditionalData d)),
     at_token_type = td_TokenType d, at_expires_at = td_Expiry d, at_created_at = t\<rparr>"

definition new_token :: "string \<Rightarrow> time \<Rightarrow> duration \<Rightarrow> string \<Rightarrow> SessionData \<Rightarrow> TokenData" where
  "new_token user t ttl ty sd =
     \<lparr>td_UserID = user, td_IssuedAt = t, td_Expiry = t + ttl, td_TokenType = ty, td_AdditionalData = sd\<rparr>"

definition signed_token :: "tokenlib \<Rightarrow> bytes \<Rightarrow> uuid \<Rightarrow> string" where
  "signed_token L secret i = tl_payload L i @ ''.'' @ tl_sign L secret (tl_payload L i)"

lemma signed_payload_token: "tokenlib_ok L \<Longrightarrow> signed_payload L secret (signed_token L secret i) = Some (tl_payload L i)"
  by (simp add: signed_payload_def signed_token_def cut_dot_signed tokenlib_ok_def)

lemma refreshKey_token: "tokenlib_ok L \<Longrightarrow>
    refreshKeyFromSignedToken (signed_token L secret i) = Some (token_key (tl_payload L i))"
  by (simp add: refreshKeyFromSignedToken_def signed_token_def cut_dot_signed tokenlib_ok_def token_key_def)

lemma token_key_inj: "token_key p = token_key q \<longleftrightarrow> p = q"
  by (simp add: token_key_def)

lemma create_eval:
  assumes L: "tokenlib_ok L" and w: "w_faults w = []" and inj: "inj (w_uuids w)"
    and ok: "auth_db_ok X L (w_uuids w) (w_uuid_pos w) (w_db w)"
    and user: "case nullUUIDFromString X user of None \<Rightarrow> True | Some u \<Rightarrow> fk_user (w_db w) u"
    and d: "d = new_token user (w_now w) ttl ty sd" and i: "i = w_uuids w (w_uuid_pos w)"
  shows "create_spec L (pg_store X L) secret ttl user sd ty w = (Inr (signed_token L secret i, d),
    w\<lparr>w_db := (w_db w)\<lparr>auth_tokens := auth_tokens (w_db w) @ [token_row X L i d (w_now w)]\<rparr>,
      w_uuid_pos := w_uuid_pos w + 1\<rparr>)"
proof -
  have fresh: "\<not> (\<exists>r \<in> set (auth_tokens (w_db w)). at_key r = token_key (tl_payload L i))"
  proof
    assume "\<exists>r \<in> set (auth_tokens (w_db w)). at_key r = token_key (tl_payload L i)"
    then obtain n where "n < w_uuid_pos w" "tl_payload L (w_uuids w n) = tl_payload L i"
      using ok unfolding auth_db_ok_def by (metis token_key_inj)
    then show False using L inj by (simp add: tokenlib_ok_def i inj_eq)
  qed
  have dec: "decodeEnvelope L (tl_encode L d) = d" using L by (simp add: decodeEnvelope_def tokenlib_ok_def)
  have dead: "deadline L (tl_encode L d) ttl (w_now w) = td_Expiry d"
    by (simp add: deadline_def dec) (simp add: d new_token_def)
  have "wp (create_spec L (pg_store X L) secret ttl user sd ty) (\<lambda>r w'. r = Inr (signed_token L secret i, d) \<and>
    w' = w\<lparr>w_db := (w_db w)\<lparr>auth_tokens := auth_tokens (w_db w) @ [token_row X L i d (w_now w)]\<rparr>,
      w_uuid_pos := w_uuid_pos w + 1\<rparr>) w"
    unfolding create_spec_def wps
    using w user fresh dec dead
    by (simp add: new_token_def [symmetric] d [symmetric] i [symmetric] pg_store_def pg_Set_def UpsertAuthToken_def
        wps Let_def signed_token_def token_row_def upsert_def fk_user_def)
       (simp add: d new_token_def split: option.splits)
  then show ?thesis by (simp add: wp_iff prod_eq_iff)
qed

text \<open>What the fault-free runs start from.\<close>

definition auth_ready :: "ext \<Rightarrow> tokenlib \<Rightarrow> world \<Rightarrow> bool" where
  "auth_ready X L w \<longleftrightarrow> w_faults w = [] \<and> idle w \<and> inj (w_uuids w) \<and> uuid_Nil \<notin> range (w_uuids w) \<and>
     auth_db_ok X L (w_uuids w) (w_uuid_pos w) (w_db w)"

lemma auth_ready_inv: "auth_ready X L w \<Longrightarrow> auth_inv X L w"
  by (simp add: auth_ready_def db_inv_def idle_def)

lemma auth_inv_ok: "auth_inv X L w \<Longrightarrow> auth_db_ok X L (w_uuids w) (w_uuid_pos w) (w_db w)"
  by (simp add: db_inv_def)

text \<open>The session that a login of a user on a device belongs to.\<close>

definition session_of :: "uuid \<Rightarrow> string \<Rightarrow> world \<Rightarrow> uuid" where
  "session_of u dev w = (case List.find (\<lambda>r. as_user_id r = u \<and> as_device_id r = dev) (auth_sessions (w_db w)) of
     Some r \<Rightarrow> as_id r | None \<Rightarrow> w_uuids w (w_uuid_pos w))"

lemma SystemDo_eval:
  assumes "w_faults w = []" and "idle w"
    and "m (w\<lparr>w_tx := Some (w_db w), w_bypass := True, w_user := None\<rparr>) = (Inr x, w')" and "w_faults w' = []"
    and "w_tx w' = Some (w_db w)"
  shows "SystemDo m w = (Inr x, w'\<lparr>w_tx := None, w_bypass := False, w_user := None\<rparr>)"
proof -
  have "wp (SystemDo m) (\<lambda>r v. (r, v) = (Inr x, w'\<lparr>w_tx := None, w_bypass := False, w_user := None\<rparr>)) w"
    using assms unfolding SystemDo_def wps
    by (simp add: wps wp_def [of m])
  then show ?thesis by (simp add: wp_iff prod_eq_iff)
qed

lemma UpsertSession_eval:
  assumes "w_faults w = []" and "w_bypass w" and "fk_user (w_db w) (usp_user_id a)"
    and "auth_db_ok X L (w_uuids w) (w_uuid_pos w) (w_db w)" and "inj (w_uuids w)"
  shows "\<exists>r ss. UpsertSession a w = (Inr r, w\<lparr>w_db := (w_db w)\<lparr>auth_sessions := ss\<rparr>, w_uuid_pos := w_uuid_pos w + 1\<rparr>)
    \<and> as_id r = session_of (usp_user_id a) (usp_device_id a) w
    \<and> r \<in> set ss \<and> as_user_id r = usp_user_id a \<and> as_device_id r = usp_device_id a \<and> as_revoked_at r = None"
proof (cases "List.find (\<lambda>r. as_user_id r = usp_user_id a \<and> as_device_id r = usp_device_id a) (auth_sessions (w_db w))")
  case None
  have "\<not> (\<exists>r \<in> set (auth_sessions (w_db w)). as_id r = w_uuids w (w_uuid_pos w))"
    using assms(4,5) by (auto simp: auth_db_ok_def) (metis injD less_irrefl)
  with None assms show ?thesis
    by (intro exI [of _ "fresh_session a (w_now w) (w_uuids w (w_uuid_pos w))"]
        exI [of _ "auth_sessions (w_db w) @ [fresh_session a (w_now w) (w_uuids w (w_uuid_pos w))]"])
       (simp add: UpsertSession_def bindE_def uuidNew_def dml_def stmt_def rls_visible_def session_of_def
        fresh_session_def fk_user_def)
next
  case (Some r)
  then have "r \<in> set (auth_sessions (w_db w))" "as_user_id r = usp_user_id a" "as_device_id r = usp_device_id a"
    by (auto dest: find_SomeD)
  let ?r = "merged_session a (w_now w) r" and ?ss = "upd_where
    (\<lambda>r. as_user_id r = usp_user_id a \<and> as_device_id r = usp_device_id a) (merged_session a (w_now w))
    (auth_sessions (w_db w))"
  have "?r \<in> set ?ss" using \<open>r \<in> _\<close> \<open>as_user_id r = _\<close> \<open>as_device_id r = _\<close> by (force simp: tbl)
  moreover have "UpsertSession a w =
      (Inr ?r, w\<lparr>w_db := (w_db w)\<lparr>auth_sessions := ?ss\<rparr>, w_uuid_pos := w_uuid_pos w + 1\<rparr>)"
    using Some assms by (simp add: UpsertSession_def bindE_def uuidNew_def dml_def stmt_def rls_visible_def)
  ultimately show ?thesis
    using Some \<open>as_user_id r = _\<close> \<open>as_device_id r = _\<close>
    by (intro exI [of _ ?r] exI [of _ ?ss]) (simp add: session_of_def merged_session_def)
qed

definition session_params :: "Manager \<Rightarrow> uuid \<Rightarrow> string \<Rightarrow> string \<Rightarrow> string \<Rightarrow> time \<Rightarrow> UpsertSessionParams" where
  "session_params m u dev ty nm t = \<lparr>usp_user_id = u, usp_device_id = dev, usp_device_type = ty,
     usp_device_name = textOrNull nm, usp_ip = None, usp_country = None,
     usp_access_expires_at = t + m_accessTTL m, usp_refresh_expires_at = t + m_refreshTTL m\<rparr>"

lemma persist_session_eval:
  assumes ready: "auth_ready X L w" and fk: "fk_user (w_db w) u"
  shows "\<exists>r ss. SystemDo (bindE now (\<lambda>t. bindE (mapErr h (UpsertSession (session_params m u dev ty nm t))) (\<lambda>r. returnE (as_id r)))) w
      = (Inr (session_of u dev w), w\<lparr>w_db := (w_db w)\<lparr>auth_sessions := ss\<rparr>, w_uuid_pos := w_uuid_pos w + 1\<rparr>)
    \<and> as_id r = session_of u dev w \<and> r \<in> set ss \<and> as_user_id r = u \<and> as_device_id r = dev \<and> as_revoked_at r = None"
proof -
  let ?w = "w\<lparr>w_tx := Some (w_db w), w_bypass := True, w_user := None\<rparr>"
  let ?a = "session_params m u dev ty nm (w_now w)"
  have a: "usp_user_id ?a = u" "usp_device_id ?a = dev" by (simp_all add: session_params_def)
  have sess: "session_of u dev ?w = session_of u dev w" by (simp add: session_of_def split: option.split)
  have "\<exists>r ss. UpsertSession ?a ?w = (Inr r, ?w\<lparr>w_db := (w_db ?w)\<lparr>auth_sessions := ss\<rparr>, w_uuid_pos := w_uuid_pos ?w + 1\<rparr>)
    \<and> as_id r = session_of (usp_user_id ?a) (usp_device_id ?a) ?w
    \<and> r \<in> set ss \<and> as_user_id r = usp_user_id ?a \<and> as_device_id r = usp_device_id ?a \<and> as_revoked_at r = None"
    by (rule UpsertSession_eval [of ?w ?a X L]) (use ready fk in \<open>simp_all add: auth_ready_def a\<close>)
  then obtain r ss where up: "UpsertSession ?a ?w =
      (Inr r, ?w\<lparr>w_db := (w_db w)\<lparr>auth_sessions := ss\<rparr>, w_uuid_pos := w_uuid_pos w + 1\<rparr>)"
    and r: "as_id r = session_of u dev w" "r \<in> set ss" "as_user_id r = u" "as_device_id r = dev" "as_revoked_at r = None"
    unfolding a sess by auto
  have "wp (SystemDo (bindE now (\<lambda>t. bindE (mapErr h (UpsertSession (session_params m u dev ty nm t)))
      (\<lambda>r. returnE (as_id r))))) (\<lambda>x w'. x = Inr (as_id r) \<and>
      w' = w\<lparr>w_db := (w_db w)\<lparr>auth_sessions := ss\<rparr>, w_uuid_pos := w_uuid_pos w + 1\<rparr>) w"
    using ready up by (simp add: SystemDo_def auth_ready_def wps wp_def [of "UpsertSession ?a"])
  with r show ?thesis by (auto simp: wp_iff prod_eq_iff)
qed

lemma DeleteBySession_eval:
  "w_faults w = [] \<Longrightarrow> sid \<noteq> uuid_Nil \<Longrightarrow> DeleteBySession sid w = (Inr (), w\<lparr>w_db := (w_db w)\<lparr>auth_tokens :=
     del_where (\<lambda>r. at_session_id r = Some sid) (auth_tokens (w_db w))\<rparr>\<rparr>)"
  by (simp add: DeleteBySession_def DeleteAuthTokensBySession_def delete_tokens_where_def dml_def stmt_def thenE_def
      bindE_def returnE_def nullUUID_def)

lemma stamp_eval:
  assumes "w_faults w = []" and "idle w"
  shows "SystemDo (SetSessionCurrentRefreshKey sid k) w = (Inr (), w\<lparr>w_db := (w_db w)\<lparr>auth_sessions :=
    upd_where (\<lambda>r. as_id r = sid) (\<lambda>r. r\<lparr>as_current_refresh_key := k, as_last_seen_at := w_now w\<rparr>)
      (auth_sessions (w_db w))\<rparr>\<rparr>)"
proof -
  have "wp (SystemDo (SetSessionCurrentRefreshKey sid k)) (\<lambda>r w'. r = Inr () \<and> w' = w\<lparr>w_db := (w_db w)\<lparr>auth_sessions :=
    upd_where (\<lambda>r. as_id r = sid) (\<lambda>r. r\<lparr>as_current_refresh_key := k, as_last_seen_at := w_now w\<rparr>)
      (auth_sessions (w_db w))\<rparr>\<rparr>) w"
    using assms by (simp add: SystemDo_def SetSessionCurrentRefreshKey_def rls_visible_def wps)
  then show ?thesis by (simp add: wp_iff prod_eq_iff)
qed

lemma session_of_nonNil:
  assumes "auth_ready X L w"
  shows "session_of u dev w \<noteq> uuid_Nil"
proof (cases "List.find (\<lambda>r. as_user_id r = u \<and> as_device_id r = dev) (auth_sessions (w_db w))")
  case None
  with assms show ?thesis by (auto simp: session_of_def auth_ready_def) (metis rangeI)
next
  case (Some r)
  then have "\<exists>n. as_id r = w_uuids w n"
    using assms find_SomeD [OF Some] by (auto simp: auth_ready_def auth_db_ok_def)
  with Some assms show ?thesis by (auto simp: session_of_def auth_ready_def)
qed

text \<open>The two rows that \<open>Issue\<close> adds.\<close>

definition issued_rows :: "ext \<Rightarrow> tokenlib \<Rightarrow> Manager \<Rightarrow> uuid \<Rightarrow> string \<Rightarrow> string \<Rightarrow> world \<Rightarrow> AuthToken list" where
  "issued_rows X L m u dev ty w =
     (let sd = \<lparr>sd_SessionID = session_of u dev w, sd_DeviceID = dev, sd_DeviceType = ty\<rparr> in
      [token_row X L (w_uuids w (w_uuid_pos w + 1))
         (new_token (uuid_String X u) (w_now w) (m_accessTTL m) AccessTokenType sd) (w_now w),
       token_row X L (w_uuids w (w_uuid_pos w + 2))
         (new_token (uuid_String X u) (w_now w) (m_refreshTTL m) RefreshTokenType sd) (w_now w)])"

definition issued :: "tokenlib \<Rightarrow> Manager \<Rightarrow> uuid \<Rightarrow> string \<Rightarrow> world \<Rightarrow> IssuedTokens" where
  "issued L m u dev w = \<lparr>it_UserID = u,
     it_AccessToken = signed_token L (m_accessSecret m) (w_uuids w (w_uuid_pos w + 1)),
     it_RefreshToken = signed_token L (m_refreshSecret m) (w_uuids w (w_uuid_pos w + 2)),
     it_AccessExpiresAt = w_now w + m_accessTTL m, it_RefreshExpiresAt = w_now w + m_refreshTTL m,
     it_SessionID = session_of u dev w, it_DeviceID = dev\<rparr>"

lemma Issue_ok:
  assumes L: "tokenlib_ok L" and ready: "auth_ready X L w" and fk: "fk_user (w_db w) u"
    and uid: "nullUUIDFromString X (uuid_String X u) = Some u" and dev: "dev \<noteq> ''''"
  defines "sid \<equiv> session_of u dev w"
  shows "\<exists>ss. Issue X L m u dev ty nm w = (Inr (issued L m u dev w),
      w\<lparr>w_db := (w_db w)\<lparr>auth_sessions := ss, auth_tokens :=
          del_where (\<lambda>r. at_session_id r = Some sid) (auth_tokens (w_db w)) @ issued_rows X L m u dev ty w\<rparr>,
        w_uuid_pos := w_uuid_pos w + 3\<rparr>)
    \<and> (\<exists>r \<in> set ss. as_id r = sid \<and> as_user_id r = u \<and> as_device_id r = dev \<and> as_revoked_at r = None
         \<and> as_current_refresh_key r = Some (token_key (tl_payload L (w_uuids w (w_uuid_pos w + 2)))))"
proof -
  let ?persist = "SystemDo (bindE now (\<lambda>t. bindE (mapErr (Wrap ''persist session'')
      (UpsertSession (session_params m u dev ty nm t))) (\<lambda>r. returnE (as_id r))))"
  obtain r ss where s1: "?persist w = (Inr sid, w\<lparr>w_db := (w_db w)\<lparr>auth_sessions := ss\<rparr>, w_uuid_pos := w_uuid_pos w + 1\<rparr>)"
    and r: "as_id r = sid" "r \<in> set ss" "as_user_id r = u" "as_device_id r = dev" "as_revoked_at r = None"
    unfolding sid_def using persist_session_eval [OF ready fk] by blast
  let ?w1 = "w\<lparr>w_db := (w_db w)\<lparr>auth_sessions := ss\<rparr>, w_uuid_pos := w_uuid_pos w + 1\<rparr>"
  let ?d2 = "(w_db w)\<lparr>auth_sessions := ss, auth_tokens := del_where (\<lambda>r. at_session_id r = Some sid) (auth_tokens (w_db w))\<rparr>"
  let ?w2 = "w\<lparr>w_db := ?d2, w_uuid_pos := w_uuid_pos w + 1\<rparr>"
  have faults: "w_faults w = []" and inj: "inj (w_uuids w)" and idle: "idle w" using ready by (simp_all add: auth_ready_def)
  have nonNil: "sid \<noteq> uuid_Nil" unfolding sid_def by (rule session_of_nonNil [OF ready])
  have s2: "DeleteBySession sid ?w1 = (Inr (), ?w2)"
    using faults nonNil by (simp add: DeleteBySession_eval)
  have k1: "keeps (auth_inv X L) ?persist" by (intro auth.keeps_intros keeps_auth)
  from k1 [unfolded keeps_def, rule_format, OF auth_ready_inv [OF ready]] s1 have inv1: "auth_inv X L ?w1" by simp
  from keeps_DeleteBySession [unfolded keeps_def, rule_format, OF inv1, of sid] s2 have inv2: "auth_inv X L ?w2" by simp
  let ?sd = "\<lparr>sd_SessionID = sid, sd_DeviceID = dev, sd_DeviceType = ty\<rparr>"
  let ?acc = "new_token (uuid_String X u) (w_now w) (m_accessTTL m) AccessTokenType ?sd"
  let ?ref = "new_token (uuid_String X u) (w_now w) (m_refreshTTL m) RefreshTokenType ?sd"
  let ?i = "w_uuids w (w_uuid_pos w + 1)" and ?j = "w_uuids w (w_uuid_pos w + 2)"
  let ?w3 = "?w2\<lparr>w_db := ?d2\<lparr>auth_tokens := auth_tokens ?d2 @ [token_row X L ?i ?acc (w_now w)]\<rparr>,
      w_uuid_pos := w_uuid_pos w + 2\<rparr>"
  have s3: "create_spec L (pg_store X L) (m_accessSecret m) (m_accessTTL m) (uuid_String X u) ?sd AccessTokenType ?w2
      = (Inr (signed_token L (m_accessSecret m) ?i, ?acc), ?w3)"
    using create_eval [OF L _ _ auth_inv_ok [OF inv2] _ refl refl, where user = "uuid_String X u"] faults inj uid fk
    by (simp add: fk_user_def)
  from keeps_create [OF L, unfolded keeps_def, rule_format, OF inv2, of "m_accessSecret m" "m_accessTTL m" "uuid_String X u" ?sd AccessTokenType] s3
  have inv3: "auth_inv X L ?w3" by simp
  let ?w4 = "?w2\<lparr>w_db := ?d2\<lparr>auth_tokens := auth_tokens ?d2 @
      [token_row X L ?i ?acc (w_now w), token_row X L ?j ?ref (w_now w)]\<rparr>, w_uuid_pos := w_uuid_pos w + 3\<rparr>"
  have s4: "create_spec L (pg_store X L) (m_refreshSecret m) (m_refreshTTL m) (uuid_String X u) ?sd RefreshTokenType ?w3
      = (Inr (signed_token L (m_refreshSecret m) ?j, ?ref), ?w4)"
    using create_eval [OF L _ _ auth_inv_ok [OF inv3] _ refl refl, where user = "uuid_String X u"] faults inj uid fk
    by (simp add: fk_user_def)
  let ?stamp = "\<lambda>r. r\<lparr>as_current_refresh_key := Some (token_key (tl_payload L ?j)), as_last_seen_at := w_now w\<rparr>"
  let ?ss = "upd_where (\<lambda>r. as_id r = sid) ?stamp ss"
  let ?w5 = "w\<lparr>w_db := (w_db w)\<lparr>auth_sessions := ?ss, auth_tokens :=
      del_where (\<lambda>r. at_session_id r = Some sid) (auth_tokens (w_db w)) @ issued_rows X L m u dev ty w\<rparr>,
      w_uuid_pos := w_uuid_pos w + 3\<rparr>"
  have s5: "SystemDo (SetSessionCurrentRefreshKey sid (refreshKeyFromSignedToken (signed_token L (m_refreshSecret m) ?j))) ?w4
      = (Inr (), ?w5)"
    using faults idle by (simp add: stamp_eval refreshKey_token [OF L] issued_rows_def sid_def Let_def)
  have "Issue X L m u dev ty nm w = (Inr (issued L m u dev w), ?w5)"
    using L dev s1 s2 s3 s4 s5
    by (simp add: Issue_def tokenlib_ok_def thenE_def rejectIf_def bindE_def mapErr_def tryE_def returnE_def
        session_params_def issued_def new_token_def sid_def Let_def)
  moreover have "?stamp r \<in> set ?ss" using r(1,2) by (force simp: tbl)
  moreover have "as_id (?stamp r) = sid \<and> as_user_id (?stamp r) = u \<and> as_device_id (?stamp r) = dev
      \<and> as_revoked_at (?stamp r) = None \<and> as_current_refresh_key (?stamp r) = Some (token_key (tl_payload L ?j))"
    using r by simp
  ultimately show ?thesis by (intro exI [of _ ?ss]) blast
qed

section \<open>Lookups after an update of the table\<close>

lemma lookup_find:
  assumes "token_lookup L t ty rows p = Some d"
  obtains r where "List.find (\<lambda>r. at_key r = token_key p \<and> t < at_expires_at r) rows = Some r"
    and "r \<in> set rows" and "at_key r = token_key p" and "tl_decode L (at_value r) = Some d"
  using assms by (auto simp: token_lookup_def split: option.splits if_splits dest: find_SomeD)

lemma lookup_absent:
  "(\<And>r. r \<in> set rows \<Longrightarrow> at_key r \<noteq> token_key p) \<Longrightarrow> token_lookup L t ty rows p = None"
  by (auto simp: token_lookup_def find_None_iff_all split: option.split dest: find_SomeD)

lemma lookup_append_other:
  assumes "\<And>r. r \<in> set new \<Longrightarrow> at_key r \<noteq> token_key p"
  shows "token_lookup L t ty (rows @ new) p = token_lookup L t ty rows p"
proof -
  have "List.find (\<lambda>r. at_key r = token_key p \<and> t < at_expires_at r) new = None"
    using assms by (simp add: find_None_iff_all)
  then show ?thesis by (simp add: token_lookup_def find_append split: option.split)
qed

lemma lookup_del_kept:
  assumes "\<And>r. r \<in> set rows \<Longrightarrow> at_key r = token_key p \<Longrightarrow> \<not> q r"
  shows "token_lookup L t ty (del_where q rows) p = token_lookup L t ty rows p"
proof -
  have "List.find (\<lambda>r. (at_key r = token_key p \<and> t < at_expires_at r) \<and> \<not> q r) rows =
      List.find (\<lambda>r. at_key r = token_key p \<and> t < at_expires_at r) rows"
    using assms by (intro find_cong_pred) auto
  then show ?thesis by (simp add: token_lookup_def tbl)
qed

lemma lookup_del_removed:
  assumes "\<And>r. r \<in> set rows \<Longrightarrow> at_key r = token_key p \<Longrightarrow> q r"
  shows "token_lookup L t ty (del_where q rows) p = None"
  by (rule lookup_absent) (use assms in \<open>auto simp: tbl\<close>)

text \<open>A row at the end of the table, under a key of its own.\<close>

lemma lookup_new_row:
  assumes L: "tokenlib_ok L" and "\<And>r. r \<in> set rows \<Longrightarrow> at_key r \<noteq> token_key (tl_payload L i)"
    and "t < td_Expiry d" and "td_TokenType d = ty"
  shows "token_lookup L t ty (rows @ token_row X L i d c # rest) (tl_payload L i) = Some d"
proof -
  have "List.find (\<lambda>r. at_key r = token_key (tl_payload L i) \<and> t < at_expires_at r) rows = None"
    using assms(2) by (simp add: find_None_iff_all)
  then show ?thesis using assms by (simp add: token_lookup_def find_append token_row_def tokenlib_ok_def)
qed

text \<open>The keys of the next tokens are not in use.\<close>

lemma key_unused:
  assumes "tokenlib_ok L" and "inj us" and "auth_db_ok X L us p d" and "p \<le> n"
    and "r \<in> set (auth_tokens d)"
  shows "at_key r \<noteq> token_key (tl_payload L (us n))"
proof
  assume "at_key r = token_key (tl_payload L (us n))"
  moreover obtain k where "k < p" "at_key r = token_key (tl_payload L (us k))"
    using assms(3,5) by (auto simp: auth_db_ok_def)
  ultimately have "us k = us n" using assms(1) by (simp add: tokenlib_ok_def token_key_inj inj_eq)
  then show False using assms(2,4) \<open>k < p\<close> by (simp add: inj_eq)
qed

text \<open>The table after \<open>Issue\<close>: the new pair validates, tokens of the session that were valid
  before do not, and those of other sessions are as before.\<close>

lemma issue_table:
  assumes L: "tokenlib_ok L" and inj: "inj (w_uuids w)" and ttl: "0 < m_accessTTL m" "0 < m_refreshTTL m"
    and ok: "auth_db_ok X L (w_uuids w) (w_uuid_pos w) (w_db w)"
    and rows_def: "rows = del_where (\<lambda>r. at_session_id r = Some sid) (auth_tokens (w_db w)) @ issued_rows X L m u dev ty w"
    and sd_def: "sd = \<lparr>sd_SessionID = session_of u dev w, sd_DeviceID = dev, sd_DeviceType = ty\<rparr>"
  shows "token_lookup L (w_now w) AccessTokenType rows (tl_payload L (w_uuids w (w_uuid_pos w + 1)))
      = Some (new_token (uuid_String X u) (w_now w) (m_accessTTL m) AccessTokenType sd)"
    and "token_lookup L (w_now w) RefreshTokenType rows (tl_payload L (w_uuids w (w_uuid_pos w + 2)))
      = Some (new_token (uuid_String X u) (w_now w) (m_refreshTTL m) RefreshTokenType sd)"
    and "token_lookup L t k (auth_tokens (w_db w)) p = Some d \<Longrightarrow>
      token_lookup L t k' rows p =
        (if nullUUID (sd_SessionID (td_AdditionalData d)) = Some sid then None
         else token_lookup L t k' (auth_tokens (w_db w)) p)"
proof -
  let ?pos = "w_uuid_pos w"
  note unused = key_unused [OF L inj ok]
  have distinct: "tl_payload L (w_uuids w (?pos + 1)) \<noteq> tl_payload L (w_uuids w (?pos + 2))"
    using L inj by (simp add: tokenlib_ok_def inj_eq)
  show "token_lookup L (w_now w) AccessTokenType rows (tl_payload L (w_uuids w (?pos + 1)))
      = Some (new_token (uuid_String X u) (w_now w) (m_accessTTL m) AccessTokenType sd)"
    unfolding rows_def issued_rows_def Let_def sd_def
    by (rule lookup_new_row [OF L]) (use unused ttl in \<open>auto simp: tbl new_token_def\<close>)
  have "token_lookup L (w_now w) RefreshTokenType ((del_where (\<lambda>r. at_session_id r = Some sid) (auth_tokens (w_db w))
        @ [hd (issued_rows X L m u dev ty w)]) @ tl (issued_rows X L m u dev ty w)) (tl_payload L (w_uuids w (?pos + 2)))
      = Some (new_token (uuid_String X u) (w_now w) (m_refreshTTL m) RefreshTokenType sd)"
    unfolding issued_rows_def Let_def sd_def list.sel
    by (rule lookup_new_row [OF L]) (use unused ttl distinct in \<open>auto simp: tbl new_token_def token_row_def token_key_inj\<close>)
  then show "token_lookup L (w_now w) RefreshTokenType rows (tl_payload L (w_uuids w (?pos + 2)))
      = Some (new_token (uuid_String X u) (w_now w) (m_refreshTTL m) RefreshTokenType sd)"
    by (simp add: rows_def issued_rows_def Let_def)
  assume "token_lookup L t k (auth_tokens (w_db w)) p = Some d"
  then obtain r where r: "r \<in> set (auth_tokens (w_db w))" "at_key r = token_key p" "tl_decode L (at_value r) = Some d"
    by (rule lookup_find)
  have uniq: "s = r" if "s \<in> set (auth_tokens (w_db w))" "at_key s = token_key p" for s
    using ok r that by (auto simp: auth_db_ok_def dest: distinct_map_eqD)
  have sess: "at_session_id r = nullUUID (sd_SessionID (td_AdditionalData d))"
    using ok r by (auto simp: auth_db_ok_def token_row_ok_def)
  have "token_lookup L t k' rows p =
      token_lookup L t k' (del_where (\<lambda>r. at_session_id r = Some sid) (auth_tokens (w_db w))) p"
    unfolding rows_def issued_rows_def Let_def
    by (rule lookup_append_other)
       (use unused [OF _ r(1), of "w_uuid_pos w + 1"] unused [OF _ r(1), of "w_uuid_pos w + 2"] r(2)
        in \<open>auto simp: token_row_def\<close>)
  then show "token_lookup L t k' rows p =
        (if nullUUID (sd_SessionID (td_AdditionalData d)) = Some sid then None
         else token_lookup L t k' (auth_tokens (w_db w)) p)"
    using sess by (auto intro!: lookup_del_removed lookup_del_kept dest: uniq)
qed

lemma issue_table_old:
  assumes L: "tokenlib_ok L" and inj: "inj (w_uuids w)"
    and ok: "auth_db_ok X L (w_uuids w) (w_uuid_pos w) (w_db w)" and n: "n < w_uuid_pos w"
    and old: "token_lookup L t k (auth_tokens (w_db w)) (tl_payload L (w_uuids w n)) = None"
  shows "token_lookup L t k (del_where (\<lambda>r. at_session_id r = Some sid) (auth_tokens (w_db w))
      @ issued_rows X L m u dev ty w) (tl_payload L (w_uuids w n)) = None"
proof -
  let ?p = "tl_payload L (w_uuids w n)" and ?q = "\<lambda>r. at_session_id r = Some sid"
  have "token_lookup L t k (del_where ?q (auth_tokens (w_db w)) @ issued_rows X L m u dev ty w) ?p =
      token_lookup L t k (del_where ?q (auth_tokens (w_db w))) ?p"
    using L inj n by (intro lookup_append_other)
      (auto simp: issued_rows_def Let_def token_row_def token_key_inj tokenlib_ok_def inj_eq)
  also have "\<dots> = None"
  proof (cases "\<exists>r \<in> set (auth_tokens (w_db w)). at_key r = token_key ?p \<and> ?q r")
    case True
    then obtain r where r: "r \<in> set (auth_tokens (w_db w))" "at_key r = token_key ?p" "?q r" by blast
    have "s = r" if "s \<in> set (auth_tokens (w_db w))" "at_key s = token_key ?p" for s
      using ok r that by (auto simp: auth_db_ok_def dest: distinct_map_eqD)
    with r show ?thesis by (intro lookup_del_removed) auto
  next
    case False
    then show ?thesis using old by (subst lookup_del_kept) auto
  qed
  finally show ?thesis .
qed

lemma Issue_pair:
  assumes "tokenlib_ok L" and "auth_ready X L w" and "fk_user (w_db w) u"
    and "nullUUIDFromString X (uuid_String X u) = Some u" and "dev \<noteq> ''''"
    and "0 < m_accessTTL m" and "0 < m_refreshTTL m"
  obtains w' da dr where "Issue X L m u dev ty nm w = (Inr (issued L m u dev w), w')"
    and "validates X L (m_accessSecret m) (it_AccessToken (issued L m u dev w)) AccessTokenType w' = Some da"
    and "validates X L (m_refreshSecret m) (it_RefreshToken (issued L m u dev w)) RefreshTokenType w' = Some dr"
    and "td_UserID da = uuid_String X u" and "td_UserID dr = uuid_String X u"
    and "sd_SessionID (td_AdditionalData da) = session_of u dev w"
    and "sd_SessionID (td_AdditionalData dr) = session_of u dev w"
    and "\<And>secret tok k d. validates X L secret tok k w = Some d \<Longrightarrow> validates X L secret tok k w' =
           (if sd_SessionID (td_AdditionalData d) = session_of u dev w then None else Some d)"
    and "\<And>secret tok k n. n < w_uuid_pos w \<Longrightarrow> signed_payload L secret tok = Some (tl_payload L (w_uuids w n)) \<Longrightarrow>
           validates X L secret tok k w = None \<Longrightarrow> validates X L secret tok k w' = None"
    and "w_faults w' = []" and "idle w'"
proof -
  have L: "tokenlib_ok L" by (rule assms)
  have ready: "w_faults w = []" "inj (w_uuids w)" "auth_db_ok X L (w_uuids w) (w_uuid_pos w) (w_db w)"
    using assms(2) by (simp_all add: auth_ready_def)
  let ?sid = "session_of u dev w"
  let ?rows = "del_where (\<lambda>r. at_session_id r = Some ?sid) (auth_tokens (w_db w)) @ issued_rows X L m u dev ty w"
  obtain ss where issue: "Issue X L m u dev ty nm w = (Inr (issued L m u dev w),
      w\<lparr>w_db := (w_db w)\<lparr>auth_sessions := ss, auth_tokens := ?rows\<rparr>, w_uuid_pos := w_uuid_pos w + 3\<rparr>)"
    using Issue_ok [OF assms(1-5), of m ty nm] by auto
  let ?w = "w\<lparr>w_db := (w_db w)\<lparr>auth_sessions := ss, auth_tokens := ?rows\<rparr>, w_uuid_pos := w_uuid_pos w + 3\<rparr>"
  note table = issue_table [OF L ready(2) assms(6,7) ready(3) refl refl]
  have nonNil: "?sid \<noteq> uuid_Nil" by (rule session_of_nonNil [OF assms(2)])
  have others: "validates X L secret tok k ?w = (if sd_SessionID (td_AdditionalData d) = ?sid then None else Some d)"
    if "validates X L secret tok k w = Some d" for secret tok k d
    using that table(3) nonNil
    by (auto simp: validates_lookup [OF L] nullUUID_def split: option.splits if_splits)
  let ?sd = "\<lparr>sd_SessionID = ?sid, sd_DeviceID = dev, sd_DeviceType = ty\<rparr>"
  let ?da = "new_token (uuid_String X u) (w_now w) (m_accessTTL m) AccessTokenType ?sd"
  let ?dr = "new_token (uuid_String X u) (w_now w) (m_refreshTTL m) RefreshTokenType ?sd"
  have access: "validates X L (m_accessSecret m) (it_AccessToken (issued L m u dev w)) AccessTokenType ?w = Some ?da"
    using table(1) by (simp add: validates_lookup [OF L] issued_def signed_payload_token [OF L])
  have refresh: "validates X L (m_refreshSecret m) (it_RefreshToken (issued L m u dev w)) RefreshTokenType ?w = Some ?dr"
    using table(2) by (simp add: validates_lookup [OF L] issued_def signed_payload_token [OF L])
  have old: "validates X L secret tok k ?w = None" if "n < w_uuid_pos w"
      "signed_payload L secret tok = Some (tl_payload L (w_uuids w n))" "validates X L secret tok k w = None"
    for secret tok k n
    using that issue_table_old [OF L ready(2,3)] by (simp add: validates_lookup [OF L])
  show ?thesis
    by (rule that [OF issue access refresh]) (use others old assms(2) in \<open>simp_all add: new_token_def auth_ready_def\<close>)
qed

section \<open>Refresh and logout without faults\<close>

text \<open>The presented refresh token is valid and belongs to the given user and live session.\<close>

definition presented :: "ext \<Rightarrow> tokenlib \<Rightarrow> Manager \<Rightarrow> string \<Rightarrow> TokenData \<Rightarrow> uuid \<Rightarrow> AuthSession \<Rightarrow> world \<Rightarrow> bool" where
  "presented X L m tok d u r w \<longleftrightarrow> validates X L (m_refreshSecret m) tok RefreshTokenType w = Some d
     \<and> uuid_Parse X (td_UserID d) = Some u \<and> sd_SessionID (td_AdditionalData d) \<noteq> uuid_Nil
     \<and> List.find (\<lambda>r. as_id r = sd_SessionID (td_AdditionalData d) \<and> as_revoked_at r = None) (auth_sessions (w_db w)) = Some r"

lemma ready_validate:
  assumes "tokenlib_ok L" and "auth_ready X L w"
  shows "tm_ValidateToken L (pg_store X L) secret tok ty w = (Inr (validates X L secret tok ty w), w)"
  using assms by (simp add: validate_lookup validates_lookup auth_ready_def)

lemma current_key_eval:
  assumes "auth_ready X L w"
    and "List.find (\<lambda>r. as_id r = sid \<and> as_revoked_at r = None) (auth_sessions (w_db w)) = Some r"
  shows "SystemDo (GetSessionCurrentRefreshKey sid) w = (Inr (as_current_refresh_key r), w)"
proof -
  have "wp (SystemDo (GetSessionCurrentRefreshKey sid)) (\<lambda>x w'. x = Inr (as_current_refresh_key r) \<and> w' = w) w"
    using assms by (simp add: SystemDo_def GetSessionCurrentRefreshKey_def rls_visible_def auth_ready_def wps)
  then show ?thesis by (simp add: wp_iff prod_eq_iff)
qed

definition without_tokens :: "(AuthToken \<Rightarrow> bool) \<Rightarrow> world \<Rightarrow> world" where
  "without_tokens q w = w\<lparr>w_db := (w_db w)\<lparr>auth_tokens := del_where q (auth_tokens (w_db w))\<rparr>\<rparr>"

lemma ready_without_tokens: "auth_ready X L w \<Longrightarrow> auth_ready X L (without_tokens q w)"
  by (auto simp: auth_ready_def without_tokens_def auth_db_ok_def tbl distinct_map_del_where)

lemma del_where_del_where: "del_where q (del_where p rows) = del_where (\<lambda>r. p r \<or> q r) rows"
  by (simp add: del_where_def conj_commute)

lemma Refresh_current:
  assumes L: "tokenlib_ok L" and ready: "auth_ready X L w" and tok: "presented X L m tok d u r w"
    and cur: "ConstantTimeCompare (as_current_refresh_key r) (refreshKeyFromSignedToken tok)"
  defines "sid \<equiv> sd_SessionID (td_AdditionalData d)"
  obtains q where "Refresh X L m tok ty nm w =
      Issue X L m u (sd_DeviceID (td_AdditionalData d))
        (if ty = '''' then sd_DeviceType (td_AdditionalData d) else ty) nm (without_tokens q w)"
    and "\<And>s. at_session_id s = Some sid \<Longrightarrow> q s"
proof -
  obtain p where p: "signed_payload L (m_refreshSecret m) tok = Some p"
    using tok by (auto simp: presented_def validates_lookup [OF L] split: option.splits)
  then obtain sig where cut: "cut_dot tok = Some (p, sig)"
    by (auto simp: signed_payload_def split: option.splits if_splits)
  have faults: "w_faults w = []" using ready by (simp add: auth_ready_def)
  have revoke: "revoke_spec (pg_store X L) tok w = (Inr (), without_tokens (\<lambda>r. at_key r = token_key p) w)"
    using faults by (simp add: revoke_spec_def cut pg_store_def pg_Delete_eval without_tokens_def)
  have nonNil: "sid \<noteq> uuid_Nil" using tok by (simp add: sid_def presented_def)
  have del: "DeleteBySession sid (without_tokens (\<lambda>r. at_key r = token_key p) w) =
      (Inr (), without_tokens (\<lambda>r. at_key r = token_key p \<or> at_session_id r = Some sid) w)"
    using faults nonNil by (simp add: DeleteBySession_eval without_tokens_def del_where_del_where)
  have "Refresh X L m tok ty nm w =
      Issue X L m u (sd_DeviceID (td_AdditionalData d))
        (if ty = '''' then sd_DeviceType (td_AdditionalData d) else ty) nm
        (without_tokens (\<lambda>r. at_key r = token_key p \<or> at_session_id r = Some sid) w)"
    using tok cur revoke del current_key_eval [OF ready, of sid r] L
    by (simp add: Refresh_def presented_def ready_validate [OF L ready] bindE_def thenE_def mapErr_def tryE_def
        sid_def [symmetric] Let_def) (simp add: tokenlib_ok_def bindE_def tryE_def)
  then show ?thesis by (rule that) simp
qed

lemma Refresh_rotates:
  assumes L: "tokenlib_ok L" and ready: "auth_ready X L w" and tok: "presented X L m tok d u r w"
    and cur: "ConstantTimeCompare (as_current_refresh_key r) (refreshKeyFromSignedToken tok)"
    and fk: "fk_user (w_db w) u" and uid: "nullUUIDFromString X (uuid_String X u) = Some u"
    and dev: "sd_DeviceID (td_AdditionalData d) \<noteq> ''''" and ttl: "0 < m_accessTTL m" "0 < m_refreshTTL m"
  obtains t w' da dr where "Refresh X L m tok ty nm w = (Inr t, w')"
    and "validates X L (m_accessSecret m) (it_AccessToken t) AccessTokenType w' = Some da"
    and "validates X L (m_refreshSecret m) (it_RefreshToken t) RefreshTokenType w' = Some dr"
    and "td_UserID da = uuid_String X u" and "td_UserID dr = uuid_String X u"
    and "\<And>secret tok' k d'. validates X L secret tok' k w = Some d' \<Longrightarrow>
           sd_SessionID (td_AdditionalData d') = sd_SessionID (td_AdditionalData d) \<Longrightarrow>
           validates X L secret tok' k w' = None"
    and "w_faults w' = []"
proof -
  let ?sid = "sd_SessionID (td_AdditionalData d)"
  obtain q where ref: "Refresh X L m tok ty nm w =
      Issue X L m u (sd_DeviceID (td_AdditionalData d))
        (if ty = '''' then sd_DeviceType (td_AdditionalData d) else ty) nm (without_tokens q w)"
    and q: "\<And>s. at_session_id s = Some ?sid \<Longrightarrow> q s"
    by (rule Refresh_current [OF L ready tok cur, of ty nm]) blast
  have ready': "auth_ready X L (without_tokens q w)" by (rule ready_without_tokens [OF ready])
  have fk': "fk_user (w_db (without_tokens q w)) u" using fk by (simp add: without_tokens_def fk_user_def)
  have ok: "auth_db_ok X L (w_uuids w) (w_uuid_pos w) (w_db w)" using ready by (simp add: auth_ready_def)
  have gone: "\<exists>n < w_uuid_pos w. signed_payload L secret tok' = Some (tl_payload L (w_uuids w n)) \<and>
      validates X L secret tok' k (without_tokens q w) = None"
    if v: "validates X L secret tok' k w = Some d'" and s: "sd_SessionID (td_AdditionalData d') = ?sid"
    for secret tok' k d'
  proof -
    obtain p where p: "signed_payload L secret tok' = Some p"
      and look: "token_lookup L (w_now w) k (auth_tokens (w_db w)) p = Some d'"
      using v by (auto simp: validates_lookup [OF L] split: option.splits)
    from look obtain r where r: "r \<in> set (auth_tokens (w_db w))" "at_key r = token_key p"
        "tl_decode L (at_value r) = Some d'" by (rule lookup_find)
    have "at_session_id r = Some ?sid"
      using ok r s tok by (auto simp: auth_db_ok_def token_row_ok_def nullUUID_def presented_def)
    then have "q r" by (rule q)
    then have "x = r" if "x \<in> set (auth_tokens (w_db w))" "at_key x = token_key p" for x
      using ok r that by (auto simp: auth_db_ok_def dest: distinct_map_eqD)
    with \<open>q r\<close> have "validates X L secret tok' k (without_tokens q w) = None"
      by (simp add: validates_lookup [OF L] p without_tokens_def) (blast intro: lookup_del_removed)
    moreover obtain n where "n < w_uuid_pos w" "p = tl_payload L (w_uuids w n)"
      using ok r by (auto simp: auth_db_ok_def token_key_inj)
    ultimately show ?thesis using p by blast
  qed
  show ?thesis
  proof (rule Issue_pair [OF L ready' fk' uid dev ttl,
        of "if ty = '''' then sd_DeviceType (td_AdditionalData d) else ty" nm], goal_cases)
    case (1 w' da dr)
    have "validates X L secret tok' k w' = None"
      if "validates X L secret tok' k w = Some d'" "sd_SessionID (td_AdditionalData d') = ?sid" for secret tok' k d'
      using gone [OF that] 1(9) by (auto simp: without_tokens_def)
    then show ?thesis by (intro that [OF ref [unfolded 1(1)] 1(2-5) _ 1(10)])
  qed
qed

text \<open>Right after \<open>Issue\<close>, the refresh token is the current one of its session.\<close>

lemma Issue_presented:
  assumes L: "tokenlib_ok L" and ready: "auth_ready X L w" and fk: "fk_user (w_db w) u"
    and uid: "nullUUIDFromString X (uuid_String X u) = Some u" and dev: "dev \<noteq> ''''"
    and ttl: "0 < m_accessTTL m" "0 < m_refreshTTL m" and parse: "uuid_Parse X (uuid_String X u) = Some u"
  obtains w' d r where "Issue X L m u dev ty nm w = (Inr (issued L m u dev w), w')" and "auth_ready X L w'"
    and "presented X L m (it_RefreshToken (issued L m u dev w)) d u r w'"
    and "as_current_refresh_key r = refreshKeyFromSignedToken (it_RefreshToken (issued L m u dev w))"
    and "sd_DeviceID (td_AdditionalData d) = dev" and "fk_user (w_db w') u"
proof -
  let ?sid = "session_of u dev w"
  let ?rows = "del_where (\<lambda>r. at_session_id r = Some ?sid) (auth_tokens (w_db w)) @ issued_rows X L m u dev ty w"
  obtain ss r where issue: "Issue X L m u dev ty nm w = (Inr (issued L m u dev w),
      w\<lparr>w_db := (w_db w)\<lparr>auth_sessions := ss, auth_tokens := ?rows\<rparr>, w_uuid_pos := w_uuid_pos w + 3\<rparr>)"
    and r: "r \<in> set ss" "as_id r = ?sid" "as_revoked_at r = None"
      "as_current_refresh_key r = Some (token_key (tl_payload L (w_uuids w (w_uuid_pos w + 2))))"
    using Issue_ok [OF L ready fk uid dev, of m ty nm] by auto
  let ?w = "w\<lparr>w_db := (w_db w)\<lparr>auth_sessions := ss, auth_tokens := ?rows\<rparr>, w_uuid_pos := w_uuid_pos w + 3\<rparr>"
  have inv: "auth_inv X L ?w" by (rule keepsD [OF keeps_Issue [OF L] auth_ready_inv [OF ready] issue])
  have inj: "inj (w_uuids w)" and ok: "auth_db_ok X L (w_uuids w) (w_uuid_pos w) (w_db w)"
    using ready by (simp_all add: auth_ready_def)
  have ready': "auth_ready X L ?w"
    using auth_inv_ok [OF inv] ready by (simp add: auth_ready_def)
  have ids: "distinct (map as_id ss)" using auth_inv_ok [OF inv] by (simp add: auth_db_ok_def)
  have find: "List.find (\<lambda>r. as_id r = ?sid \<and> as_revoked_at r = None) ss = Some r"
  proof (cases "List.find (\<lambda>r. as_id r = ?sid \<and> as_revoked_at r = None) ss")
    case None
    then show ?thesis using r by (auto simp: find_None_iff_all)
  next
    case (Some x)
    with r ids show ?thesis by (auto dest!: find_SomeD dest: distinct_map_eqD)
  qed
  let ?d = "new_token (uuid_String X u) (w_now w) (m_refreshTTL m) RefreshTokenType
      \<lparr>sd_SessionID = ?sid, sd_DeviceID = dev, sd_DeviceType = ty\<rparr>"
  have "validates X L (m_refreshSecret m) (it_RefreshToken (issued L m u dev w)) RefreshTokenType ?w = Some ?d"
    using issue_table(2) [OF L inj ttl ok refl refl]
    by (simp add: validates_lookup [OF L] issued_def signed_payload_token [OF L])
  then have "presented X L m (it_RefreshToken (issued L m u dev w)) ?d u r ?w"
    using find session_of_nonNil [OF ready] parse by (simp add: presented_def new_token_def)
  then show ?thesis
    by (rule that [OF issue ready']) (use r fk in \<open>simp_all add: issued_def refreshKey_token [OF L] new_token_def fk_user_def\<close>)
qed

lemma revoked_row:
  assumes "s \<in> set (upd_where (\<lambda>r. q r \<and> as_revoked_at r = None) (\<lambda>r. r\<lparr>as_revoked_at := Some t\<rparr>) rows)" and "q s"
  shows "as_revoked_at s \<noteq> None"
  using assms by (induction rows) (auto simp: upd_where_def split: if_splits)

lemma revoked_row_all:
  assumes "s \<in> set (upd_where q (\<lambda>r. r\<lparr>as_revoked_at := Some t\<rparr>) rows)" and "q s"
  shows "as_revoked_at s \<noteq> None"
  using assms by (induction rows) (auto simp: upd_where_def split: if_splits)

section \<open>Properties\<close>

text \<open>C13. In every state that the manager can reach, whatever calls, faults and other
  activity led to it, the user, session, type and expiry columns of a token row are those
  of its payload, the keys are distinct, and a user has one session per device.\<close>

theorem auth_reachable_consistent:
  assumes "tokenlib_ok L" and "auth_reach X L m w"
  shows "auth_db_ok X L (w_uuids w) (w_uuid_pos w) (w_db w)"
  using auth_reach_inv [OF assms] by (simp add: db_inv_def)

text \<open>C10. Revocation of a session is authoritative: once \<open>RevokeSession\<close> has reported
  success, under any faults, no string whatsoever validates as a token of the session,
  for no secret and type and at no time.\<close>

theorem revoke_session_kills_tokens:
  assumes "tokenlib_ok L" and "auth_reach X L m w" and "sid \<noteq> uuid_Nil"
    and "manager_RevokeSession sid w = (Inr (), w')"
  shows "\<forall>secret tok ty t d. validates X L secret tok ty (w'\<lparr>w_now := t\<rparr>) = Some d \<longrightarrow>
    sd_SessionID (td_AdditionalData d) \<noteq> sid"
proof (intro allI impI)
  fix secret tok ty t d
  assume v: "validates X L secret tok ty (w'\<lparr>w_now := t\<rparr>) = Some d"
  have "auth_inv X L w'"
    by (rule keepsD [OF keeps_manager_RevokeSession auth_reach_inv [OF assms(1,2)] assms(4)])
  then have "auth_db_ok X L (w_uuids w') (w_uuid_pos w') (w_db (w'\<lparr>w_now := t\<rparr>))" by (simp add: db_inv_def)
  from validates_row [OF assms(1) this v] show "sd_SessionID (td_AdditionalData d) \<noteq> sid"
    using manager_RevokeSession_outcome [OF assms(3), of w] assms(3,4) by (auto simp: wp_iff nullUUID_def)
qed

text \<open>C12. \<open>Issue\<close> for an existing user on a named device succeeds; both tokens validate and
  belong to the user and to the returned session; the tokens of that session that were
  valid before are dead, and the tokens of all other sessions are untouched.\<close>

theorem issue_pair:
  assumes "tokenlib_ok L" and "auth_ready X L w" and "fk_user (w_db w) u"
    and "nullUUIDFromString X (uuid_String X u) = Some u" and "dev \<noteq> ''''"
    and "0 < m_accessTTL m" and "0 < m_refreshTTL m"
  shows "\<exists>t w' da dr. Issue X L m u dev ty nm w = (Inr t, w')
    \<and> validates X L (m_accessSecret m) (it_AccessToken t) AccessTokenType w' = Some da
    \<and> validates X L (m_refreshSecret m) (it_RefreshToken t) RefreshTokenType w' = Some dr
    \<and> td_UserID da = uuid_String X u \<and> td_UserID dr = uuid_String X u
    \<and> sd_SessionID (td_AdditionalData da) = it_SessionID t \<and> sd_SessionID (td_AdditionalData dr) = it_SessionID t
    \<and> (\<forall>secret tok k d. validates X L secret tok k w = Some d \<longrightarrow>
         validates X L secret tok k w' =
           (if sd_SessionID (td_AdditionalData d) = it_SessionID t then None else Some d))"
  by (rule Issue_pair [OF assms, of ty nm]) (auto simp: issued_def)


text \<open>C11. \<open>Refresh\<close> with the current refresh token of a live session rotates the pair: it
  returns tokens of the same user that validate, and every token of the session that was
  valid before, the presented one included, is dead.\<close>

theorem refresh_rotates:
  assumes "tokenlib_ok L" and "auth_ready X L w" and "presented X L m tok d u r w"
    and "ConstantTimeCompare (as_current_refresh_key r) (refreshKeyFromSignedToken tok)"
    and "fk_user (w_db w) u" and "nullUUIDFromString X (uuid_String X u) = Some u"
    and "sd_DeviceID (td_AdditionalData d) \<noteq> ''''" and "0 < m_accessTTL m" and "0 < m_refreshTTL m"
  shows "\<exists>t w' da dr. Refresh X L m tok ty nm w = (Inr t, w')
    \<and> validates X L (m_accessSecret m) (it_AccessToken t) AccessTokenType w' = Some da
    \<and> validates X L (m_refreshSecret m) (it_RefreshToken t) RefreshTokenType w' = Some dr
    \<and> td_UserID da = uuid_String X u \<and> td_UserID dr = uuid_String X u
    \<and> (\<forall>secret tok' k d'. validates X L secret tok' k w = Some d' \<and>
         sd_SessionID (td_AdditionalData d') = sd_SessionID (td_AdditionalData d) \<longrightarrow>
         validates X L secret tok' k w' = None)"
  by (rule Refresh_rotates [OF assms, of ty nm]) blast

text \<open>C22. A replay of the rotated token is rejected, but not recognised as a reuse: it fails
  the validation, and \<open>Refresh\<close> returns the plain "invalid refresh token" error and leaves
  every session alone.  (The reuse branch needs an old refresh token that still validates.)\<close>

theorem refresh_replay_only_rejected:
  assumes "tokenlib_ok L" and "auth_ready X L w" and "presented X L m tok d u r w"
    and "ConstantTimeCompare (as_current_refresh_key r) (refreshKeyFromSignedToken tok)"
    and "fk_user (w_db w) u" and "nullUUIDFromString X (uuid_String X u) = Some u"
    and "sd_DeviceID (td_AdditionalData d) \<noteq> ''''" and "0 < m_accessTTL m" and "0 < m_refreshTTL m"
  shows "\<exists>w'. snd (Refresh X L m tok ty nm w) = w' \<and>
    Refresh X L m tok ty' nm' w' = (Inl (Msg ''invalid refresh token''), w')"
proof (rule Refresh_rotates [OF assms, of ty nm], goal_cases)
  case (1 t w' da dr)
  have "validates X L (m_refreshSecret m) tok RefreshTokenType w' = None"
    using 1(6) assms(3) by (auto simp: presented_def)
  then have "Refresh X L m tok ty' nm' w' = (Inl (Msg ''invalid refresh token''), w')"
    using 1(7) by (simp add: Refresh_def validate_lookup [OF assms(1)] validates_lookup [OF assms(1)]
        bindE_def raiseE_def Let_def)
  with 1(1) show ?case by simp
qed

text \<open>C21. The reuse branch burns everything: a valid refresh token that is not the current
  one of its session yields \<open>ErrRefreshReuse\<close>, after which no token of the user validates
  and every session of the user is revoked.\<close>

theorem refresh_reuse_burns_user:
  assumes "tokenlib_ok L" and "auth_ready X L w" and "presented X L m tok d u r w"
    and "\<not> ConstantTimeCompare (as_current_refresh_key r) (refreshKeyFromSignedToken tok)"
  shows "\<exists>w'. Refresh X L m tok ty nm w = (Inl ErrRefreshReuse, w')
    \<and> (\<forall>secret tok' k d'. validates X L secret tok' k w' = Some d' \<longrightarrow> nullUUIDFromString X (td_UserID d') \<noteq> Some u)
    \<and> (\<forall>s \<in> set (auth_sessions (w_db w')). as_user_id s = u \<longrightarrow> as_revoked_at s \<noteq> None)"
proof -
  let ?w = "w\<lparr>w_db := (w_db w)\<lparr>auth_sessions := upd_where (\<lambda>r. as_user_id r = u \<and> as_revoked_at r = None)
      (\<lambda>r. r\<lparr>as_revoked_at := Some (w_now w)\<rparr>) (auth_sessions (w_db w)),
      auth_tokens := del_where (\<lambda>r. at_user_id r = Some u) (auth_tokens (w_db w))\<rparr>\<rparr>"
  have "wp (SystemDo (thenE (DeleteByUser u None) (RevokeAllUserSessions u))) (\<lambda>x w'. x = Inr () \<and> w' = ?w) w"
    using assms(2)
    by (simp add: SystemDo_def DeleteByUser_def DeleteAuthTokensByUser_def delete_tokens_where_def
        RevokeAllUserSessions_def revoke_where_def rls_visible_def auth_ready_def wps)
  then have burn: "SystemDo (thenE (DeleteByUser u None) (RevokeAllUserSessions u)) w = (Inr (), ?w)"
    by (simp add: wp_iff prod_eq_iff)
  have ref: "Refresh X L m tok ty nm w = (Inl ErrRefreshReuse, ?w)"
    using assms(3,4) burn current_key_eval [OF assms(2), of _ r]
    by (simp add: Refresh_def presented_def ready_validate [OF assms(1,2)] bindE_def thenE_def mapErr_def tryE_def
        raiseE_def Let_def)
  have inv: "auth_inv X L ?w"
    by (rule keepsD [OF keeps_Refresh [OF assms(1)] auth_ready_inv [OF assms(2)] ref])
  have dead: "nullUUIDFromString X (td_UserID d') \<noteq> Some u"
    if "validates X L secret tok' k ?w = Some d'" for secret tok' k d'
    using validates_row [OF assms(1) auth_inv_ok [OF inv] that] by (auto simp: tbl)
  have revoked: "as_revoked_at s \<noteq> None" if "s \<in> set (auth_sessions (w_db ?w))" "as_user_id s = u" for s
    by (rule revoked_row [where q = "\<lambda>r. as_user_id r = u"]) (use that in simp_all)
  show ?thesis by (intro exI [of _ ?w] conjI ref) (use dead revoked in blast)+
qed

text \<open>C33. \<open>Logout\<close> with a valid access token ends its session: no token of the session
  validates afterwards and the session row is revoked.\<close>

theorem logout_ends_session:
  assumes "tokenlib_ok L" and "auth_ready X L w"
    and "validates X L (m_accessSecret m) tok AccessTokenType w = Some d"
    and "sid = sd_SessionID (td_AdditionalData d)" and "sid \<noteq> uuid_Nil"
  shows "\<exists>w'. Logout X L m tok w = (Inr (), w')
    \<and> (\<forall>secret tok' k d'. validates X L secret tok' k w' = Some d' \<longrightarrow> sd_SessionID (td_AdditionalData d') \<noteq> sid)
    \<and> (\<forall>s \<in> set (auth_sessions (w_db w')). as_id s = sid \<longrightarrow> as_revoked_at s \<noteq> None)"
proof -
  let ?w = "w\<lparr>w_db := (w_db w)\<lparr>auth_sessions := upd_where (\<lambda>r. as_id r = sid)
      (\<lambda>r. r\<lparr>as_revoked_at := Some (w_now w)\<rparr>) (auth_sessions (w_db w)),
      auth_tokens := del_where (\<lambda>r. at_session_id r = Some sid) (auth_tokens (w_db w))\<rparr>\<rparr>"
  have "wp (Logout X L m tok) (\<lambda>x w'. x = Inr () \<and> w' = ?w) w"
    using assms
    by (simp add: Logout_def wps wp_def [of "tm_ValidateToken _ _ _ _ _"] ready_validate SystemDo_def
        DeleteBySession_def DeleteAuthTokensBySession_def nullUUID_def delete_tokens_where_def
        RevokeSession_def revoke_where_def rls_visible_def auth_ready_def)
  then have out: "Logout X L m tok w = (Inr (), ?w)" by (simp add: wp_iff prod_eq_iff)
  have inv: "auth_inv X L ?w"
    by (rule keepsD [OF keeps_Logout [OF assms(1)] auth_ready_inv [OF assms(2)] out])
  have dead: "sd_SessionID (td_AdditionalData d') \<noteq> sid"
    if "validates X L secret tok' k ?w = Some d'" for secret tok' k d'
    using validates_row [OF assms(1) auth_inv_ok [OF inv] that] assms(5) by (auto simp: tbl nullUUID_def)
  have revoked: "as_revoked_at s \<noteq> None" if "s \<in> set (auth_sessions (w_db ?w))" "as_id s = sid" for s
    by (rule revoked_row_all [where q = "\<lambda>r. as_id r = sid"]) (use that in simp_all)
  show ?thesis by (intro exI [of _ ?w] conjI out) (use dead revoked in blast)+
qed

section \<open>Instances\<close>

definition demo_manager :: Manager where
  "demo_manager = \<lparr>m_accessSecret = ''a'', m_refreshSecret = ''r'', m_accessTTL = 20 * minute,
     m_refreshTTL = 720 * hour\<rparr>"

lemma demo_ready: "auth_ready X L demo_user_world"
  by (auto simp: auth_ready_def auth_db_ok_def demo_user_world_def demo_world_def empty_db_def idle_def inj_def uuid_Nil_def)

lemma demo_account:
  "fk_user (w_db demo_user_world) 1" "nullUUIDFromString demo_ext (uuid_String demo_ext 1) = Some 1"
  "uuid_Parse demo_ext (uuid_String demo_ext 1) = Some 1"
  "0 < m_accessTTL demo_manager" "0 < m_refreshTTL demo_manager" "''dev'' \<noteq> ''''"
  by (simp_all add: demo_user_world_def demo_user_def fk_user_def nullUUIDFromString_def demo_ext_def demo_manager_def
      duration_defs)

definition demo_login :: world where
  "demo_login = snd (Issue demo_ext demo_lib demo_manager 1 ''dev'' ''web'' '''' demo_user_world)"

definition demo_issued :: IssuedTokens where
  "demo_issued = issued demo_lib demo_manager 1 ''dev'' demo_user_world"

lemma demo_login_reach: "auth_reach demo_ext demo_lib demo_manager demo_login"
  unfolding demo_login_def
  by (intro auth_reach.issue auth_reach.start) (simp_all add: demo_user_world_def demo_world_def empty_db_def)

lemma demo_presented:
  obtains d r where "auth_ready demo_ext demo_lib demo_login"
    and "presented demo_ext demo_lib demo_manager (it_RefreshToken demo_issued) d 1 r demo_login"
    and "as_current_refresh_key r = refreshKeyFromSignedToken (it_RefreshToken demo_issued)"
    and "sd_DeviceID (td_AdditionalData d) \<noteq> ''''" and "fk_user (w_db demo_login) 1"
proof (rule Issue_presented [OF demo_lib_ok demo_ready demo_account(1,2,6,4,5,3), of "''web''" "''''"], goal_cases)
  case (1 w' d r)
  then have "demo_login = w'" by (simp add: demo_login_def)
  with 1 show ?case by (intro that [of d r]) (simp_all add: demo_issued_def)
qed

theorem auth_reachable_consistent_witness:
  "auth_db_ok demo_ext demo_lib (w_uuids demo_login) (w_uuid_pos demo_login) (w_db demo_login)"
  by (rule auth_reachable_consistent [OF demo_lib_ok demo_login_reach])

lemma manager_RevokeSession_succeeds:
  "w_faults w = [] \<Longrightarrow> fst (manager_RevokeSession sid w) = Inr ()"
proof -
  assume "w_faults w = []"
  then have "wp (manager_RevokeSession sid) (\<lambda>r _. r = Inr ()) w"
    by (simp add: manager_RevokeSession_def DeleteBySession_def DeleteAuthTokensBySession_def delete_tokens_where_def
        SystemDo_def RevokeSession_def wps)
  then show ?thesis by (simp add: wp_iff)
qed

theorem revoke_session_kills_tokens_witness:
  "\<not> (\<exists>secret tok ty t d. validates demo_ext demo_lib secret tok ty
     ((snd (manager_RevokeSession 1 demo_login))\<lparr>w_now := t\<rparr>) = Some d \<and> sd_SessionID (td_AdditionalData d) = 1)"
proof -
  have "w_faults demo_login = []" by (rule demo_presented) (simp add: auth_ready_def)
  then have "manager_RevokeSession 1 demo_login = (Inr (), snd (manager_RevokeSession 1 demo_login))"
    by (simp add: prod_eq_iff manager_RevokeSession_succeeds)
  from revoke_session_kills_tokens [OF demo_lib_ok demo_login_reach _ this] show ?thesis
    by (auto simp: uuid_Nil_def)
qed

theorem issue_pair_witness:
  "\<exists>t w' da dr. Issue demo_ext demo_lib demo_manager 1 ''dev'' ''web'' '''' demo_user_world = (Inr t, w')
    \<and> validates demo_ext demo_lib ''a'' (it_AccessToken t) AccessTokenType w' = Some da
    \<and> validates demo_ext demo_lib ''r'' (it_RefreshToken t) RefreshTokenType w' = Some dr"
  using issue_pair [OF demo_lib_ok demo_ready demo_account(1,2,6,4,5), of "''web''" "''''"]
  by (auto simp: demo_manager_def)

lemma ConstantTimeCompare_refl: "ConstantTimeCompare k k"
  by (simp add: ConstantTimeCompare_def)

theorem refresh_rotates_witness:
  "\<exists>t w' da dr. Refresh demo_ext demo_lib demo_manager (it_RefreshToken demo_issued) '''' '''' demo_login = (Inr t, w')
    \<and> validates demo_ext demo_lib ''a'' (it_AccessToken t) AccessTokenType w' = Some da
    \<and> validates demo_ext demo_lib ''r'' (it_RefreshToken t) RefreshTokenType w' = Some dr"
proof (rule demo_presented, goal_cases)
  case (1 d r)
  from refresh_rotates [OF demo_lib_ok 1(1,2) _ 1(5) demo_account(2) 1(4) demo_account(4,5), of "''''" "''''"] 1(3)
  show ?case by (auto simp: ConstantTimeCompare_refl demo_manager_def)
qed

theorem refresh_replay_only_rejected_witness:
  "let w' = snd (Refresh demo_ext demo_lib demo_manager (it_RefreshToken demo_issued) '''' '''' demo_login) in
   Refresh demo_ext demo_lib demo_manager (it_RefreshToken demo_issued) '''' '''' w' =
     (Inl (Msg ''invalid refresh token''), w')"
proof (rule demo_presented, goal_cases)
  case (1 d r)
  from refresh_replay_only_rejected [OF demo_lib_ok 1(1,2) _ 1(5) demo_account(2) 1(4) demo_account(4,5),
      of "''''" "''''" "''''" "''''"] 1(3)
  show ?case by (simp add: ConstantTimeCompare_refl)
qed

text \<open>The stamp of the session is replaced, as by a concurrent refresh.\<close>

lemma restamp_presented:
  assumes L: "tokenlib_ok L" and ready: "auth_ready X L w" and tok: "presented X L m tok d u r w"
    and w'_def: "w' = snd (SystemDo (SetSessionCurrentRefreshKey (sd_SessionID (td_AdditionalData d)) k) w)"
  shows "auth_ready X L w'"
    and "presented X L m tok d u (r\<lparr>as_current_refresh_key := k, as_last_seen_at := w_now w\<rparr>) w'"
proof -
  let ?sid = "sd_SessionID (td_AdditionalData d)"
  let ?f = "\<lambda>r. r\<lparr>as_current_refresh_key := k, as_last_seen_at := w_now w\<rparr>"
  have w': "w' = w\<lparr>w_db := (w_db w)\<lparr>auth_sessions := upd_where (\<lambda>r. as_id r = ?sid) ?f (auth_sessions (w_db w))\<rparr>\<rparr>"
    using ready by (simp add: w'_def stamp_eval auth_ready_def)
  show "auth_ready X L w'"
    using ready by (auto simp: w' auth_ready_def auth_db_ok_def tbl map_upd_where; metis)
  have find: "List.find (\<lambda>r. as_id r = ?sid \<and> as_revoked_at r = None) (upd_where (\<lambda>r. as_id r = ?sid) ?f rows) =
      map_option ?f (List.find (\<lambda>r. as_id r = ?sid \<and> as_revoked_at r = None) rows)" for rows :: "AuthSession list"
    by (induction rows) (auto simp: upd_where_def)
  have "List.find (\<lambda>r. as_id r = ?sid \<and> as_revoked_at r = None) (auth_sessions (w_db w')) = Some (?f r)"
  proof -
    have "auth_sessions (w_db w') = upd_where (\<lambda>r. as_id r = ?sid) ?f (auth_sessions (w_db w))" by (simp add: w')
    with find [of "auth_sessions (w_db w)"] tok show ?thesis by (simp add: presented_def)
  qed
  moreover have "validates X L s tok ty w' = validates X L s tok ty w" for s ty
    by (simp add: validates_lookup [OF L] w' split: option.split)
  ultimately show "presented X L m tok d u (?f r) w'"
    using tok by (simp add: presented_def)
qed

theorem refresh_reuse_burns_user_witness:
  "\<exists>sid. fst (Refresh demo_ext demo_lib demo_manager (it_RefreshToken demo_issued) '''' ''''
      (snd (SystemDo (SetSessionCurrentRefreshKey sid (Some ''other'')) demo_login))) = Inl ErrRefreshReuse"
proof (rule demo_presented, goal_cases)
  case (1 d r)
  let ?sid = "sd_SessionID (td_AdditionalData d)"
  have "refreshKeyFromSignedToken (it_RefreshToken demo_issued) \<noteq> Some ''other''"
    using demo_lib_ok by (simp add: demo_issued_def issued_def refreshKey_token token_key_def tokenmanagerKeyPrefix_def)
  then have "\<not> ConstantTimeCompare (Some ''other'') (refreshKeyFromSignedToken (it_RefreshToken demo_issued))"
    by (auto simp: ConstantTimeCompare_def split: option.splits)
  with refresh_reuse_burns_user [OF demo_lib_ok restamp_presented [OF demo_lib_ok 1(1,2) refl, of "Some ''other''"],
      of "''''" "''''"]
  show ?case by (intro exI [of _ ?sid]) auto
qed

theorem logout_ends_session_witness:
  "\<exists>sid w'. Logout demo_ext demo_lib demo_manager (it_AccessToken demo_issued) demo_login = (Inr (), w') \<and>
    \<not> (\<exists>secret tok k d. validates demo_ext demo_lib secret tok k w' = Some d \<and> sd_SessionID (td_AdditionalData d) = sid)"
proof (rule Issue_pair [OF demo_lib_ok demo_ready demo_account(1,2,6,4,5), of "''web''" "''''"], goal_cases)
  case (1 w' da dr)
  have login: "demo_login = w'" using 1(1) by (simp add: demo_login_def)
  have ready: "auth_ready demo_ext demo_lib demo_login" by (rule demo_presented) assumption
  have valid: "validates demo_ext demo_lib (m_accessSecret demo_manager) (it_AccessToken demo_issued) AccessTokenType
      demo_login = Some da"
    using 1(2) by (simp add: login demo_issued_def)
  have "sd_SessionID (td_AdditionalData da) \<noteq> uuid_Nil"
    using 1(6) session_of_nonNil [OF demo_ready] by simp
  from logout_ends_session [OF demo_lib_ok ready valid refl this] show ?case by blast
qed

end
