(* ===== verification/Repo_Vault.thy ===== *)
theory Repo_Vault
  imports Repo_Auth "HOL-Library.Product_Lexorder"
begin

text \<open>
  The generated queries on the tables of the vault (\<open>internal/store/repos/repo_entries\<close>,
  \<open>repo_projects\<close>, \<open>repo_idempotency_keys\<close>, \<open>repo_user_webauthn_credentials\<close>) and the reads of
  \<open>repo_audit_log\<close>.  Rows of the tables with row level security are seen and changed only
  where the policy of the connection allows it; foreign keys are checked, and enforced on
  deletion, past the policies, as Postgres does.
\<close>

section \<open>entries\<close>

definition fk_project :: "db \<Rightarrow> uuid option \<Rightarrow> bool" where
  "fk_project d p \<longleftrightarrow> (case p of None \<Rightarrow> True | Some i \<Rightarrow> (\<exists>r \<in> set (projects d). pr_id r = i))"

text \<open>The rows that a statement with \<open>WHERE id = $1 AND user_id = $2\<close> touches.\<close>

definition own_entry :: "world \<Rightarrow> uuid \<Rightarrow> uuid \<Rightarrow> Entry \<Rightarrow> bool" where
  "own_entry w i u r \<longleftrightarrow> rls_visible w (en_user_id r) \<and> en_id r = i \<and> en_user_id r = u"

definition CountEntriesByProject :: "uuid \<Rightarrow> uuid option \<Rightarrow> nat act" where
  "CountEntriesByProject u p = query (\<lambda>w. count_where (\<lambda>r. rls_visible w (en_user_id r) \<and> en_user_id r = u
     \<and> p \<noteq> None \<and> en_project_id r = p) (entries (w_db w)))"

record EntryParams =
  ep_ID :: uuid
  ep_UserID :: uuid
  ep_ProjectID :: "uuid option"
  ep_Kind :: EntryKind
  ep_EncryptedBlob :: bytes
  ep_WrappedItemKey :: bytes
  ep_TitleHash :: bytes
  ep_DomainHash :: "bytes option"
  ep_HasTotp :: bool
  ep_IsFavorite :: bool

definition repo_CreateEntry :: "EntryParams \<Rightarrow> Entry act" where
  "repo_CreateEntry a = dml (\<lambda>w.
     if \<not> rls_visible w (ep_UserID a) then Inl (PgError ''42501'')
     else if (\<exists>r \<in> set (entries (w_db w)). en_id r = ep_ID a) then Inl (PgError ''23505'')
     else if \<not> fk_user (w_db w) (ep_UserID a) \<or> \<not> fk_project (w_db w) (ep_ProjectID a) then Inl (PgError ''23503'')
     else let r = \<lparr>en_id = ep_ID a, en_user_id = ep_UserID a, en_project_id = ep_ProjectID a, en_kind = ep_Kind a,
                   en_encrypted_blob = ep_EncryptedBlob a, en_wrapped_item_key = ep_WrappedItemKey a,
                   en_title_hash = ep_TitleHash a, en_domain_hash = ep_DomainHash a,
                   en_has_totp = ep_HasTotp a, en_is_favorite = ep_IsFavorite a, en_version = 1,
                   en_created_at = w_now w, en_updated_at = w_now w\<rparr>
          in Inr (r, (w_db w)\<lparr>entries := entries (w_db w) @ [r]\<rparr>))"

definition repo_DeleteEntry :: "uuid \<Rightarrow> uuid \<Rightarrow> nat act" where
  "repo_DeleteEntry i u = dml (\<lambda>w. Inr (count_where (own_entry w i u) (entries (w_db w)),
     (w_db w)\<lparr>entries := del_where (own_entry w i u) (entries (w_db w))\<rparr>))"

definition GetEntriesByIDs :: "uuid \<Rightarrow> uuid list \<Rightarrow> Entry list act" where
  "GetEntriesByIDs u ids = query (\<lambda>w. filter (\<lambda>r. rls_visible w (en_user_id r) \<and> en_user_id r = u
     \<and> en_id r \<in> set ids) (entries (w_db w)))"

definition repo_GetEntry :: "uuid \<Rightarrow> uuid \<Rightarrow> Entry act" where
  "repo_GetEntry i u = queryRow (\<lambda>w. List.find (own_entry w i u) (entries (w_db w)))"

record ListEntriesParams =
  lp_UserID :: uuid
  lp_ProjectID :: "uuid option"
  lp_Kind :: "EntryKind option"
  lp_TitleHashes :: "bytes list option"
  lp_DomainHashes :: "bytes list option"
  lp_FavoritesOnly :: "bool option"
  lp_HasTotpOnly :: "bool option"
  lp_UpdatedAfter :: "time option"
  lp_PageLimit :: int

text \<open>\<open>$n IS NULL OR p\<close>\<close>

definition unless_null :: "'a option \<Rightarrow> ('a \<Rightarrow> bool) \<Rightarrow> bool" where
  "unless_null x p \<longleftrightarrow> (case x of None \<Rightarrow> True | Some v \<Rightarrow> p v)"

definition list_matches :: "ListEntriesParams \<Rightarrow> Entry \<Rightarrow> bool" where
  "list_matches a r \<longleftrightarrow> en_user_id r = lp_UserID a
     \<and> unless_null (lp_ProjectID a) (\<lambda>p. en_project_id r = Some p)
     \<and> unless_null (lp_Kind a) (\<lambda>k. en_kind r = k)
     \<and> unless_null (lp_TitleHashes a) (\<lambda>hs. en_title_hash r \<in> set hs)
     \<and> unless_null (lp_DomainHashes a) (\<lambda>hs. case en_domain_hash r of None \<Rightarrow> False | Some h \<Rightarrow> h \<in> set hs)
     \<and> unless_null (lp_FavoritesOnly a) (\<lambda>b. en_is_favorite r = b)
     \<and> unless_null (lp_HasTotpOnly a) (\<lambda>b. en_has_totp r = b)
     \<and> unless_null (lp_UpdatedAfter a) (\<lambda>t. en_updated_at r > t)"

text \<open>\<open>ORDER BY updated_at DESC, id DESC\<close>\<close>

definition newest_first :: "Entry \<Rightarrow> int \<times> int" where
  "newest_first r = (- en_updated_at r, - int (en_id r))"

definition repo_ListEntries :: "ListEntriesParams \<Rightarrow> Entry list act" where
  "repo_ListEntries a = query (\<lambda>w. take (nat (lp_PageLimit a)) (sort_key newest_first
     (filter (\<lambda>r. rls_visible w (en_user_id r) \<and> list_matches a r) (entries (w_db w)))))"

definition repo_ToggleFavorite :: "uuid \<Rightarrow> uuid \<Rightarrow> bool \<Rightarrow> Entry act" where
  "repo_ToggleFavorite i u b = dml (\<lambda>w.
     let f = (\<lambda>r. r\<lparr>en_is_favorite := b, en_updated_at := w_now w\<rparr>) in
     case List.find (own_entry w i u) (entries (w_db w)) of
       None \<Rightarrow> Inl NoRows
     | Some r \<Rightarrow> Inr (f r, (w_db w)\<lparr>entries := upd_where (own_entry w i u) f (entries (w_db w))\<rparr>))"

definition updated_entry :: "EntryParams \<Rightarrow> time \<Rightarrow> Entry \<Rightarrow> Entry" where
  "updated_entry a t r = r\<lparr>en_project_id := ep_ProjectID a, en_kind := ep_Kind a,
     en_encrypted_blob := ep_EncryptedBlob a, en_wrapped_item_key := ep_WrappedItemKey a,
     en_title_hash := ep_TitleHash a, en_domain_hash := ep_DomainHash a,
     en_has_totp := ep_HasTotp a, en_is_favorite := ep_IsFavorite a,
     en_version := en_version r + 1, en_updated_at := t\<rparr>"

definition repo_UpdateEntry :: "EntryParams \<Rightarrow> int \<Rightarrow> Entry act" where
  "repo_UpdateEntry a expected = dml (\<lambda>w.
     let hit = (\<lambda>r. own_entry w (ep_ID a) (ep_UserID a) r \<and> en_version r = expected) in
     case List.find hit (entries (w_db w)) of
       None \<Rightarrow> Inl NoRows
     | Some r \<Rightarrow>
         if en_version r = int4_max then Inl (PgError ''22003'')
         else if \<not> fk_project (w_db w) (ep_ProjectID a) then Inl (PgError ''23503'')
         else Inr (updated_entry a (w_now w) r,
                (w_db w)\<lparr>entries := upd_where hit (updated_entry a (w_now w)) (entries (w_db w))\<rparr>))"

section \<open>projects\<close>

definition own_project :: "world \<Rightarrow> uuid \<Rightarrow> uuid \<Rightarrow> Project \<Rightarrow> bool" where
  "own_project w i u r \<longleftrightarrow> rls_visible w (pr_user_id r) \<and> pr_id r = i \<and> pr_user_id r = u"

record ProjectParams =
  pp_ID :: uuid
  pp_UserID :: uuid
  pp_EncryptedBlob :: bytes
  pp_WrappedItemKey :: bytes
  pp_NameHash :: bytes

definition repo_CreateProject :: "ProjectParams \<Rightarrow> int \<Rightarrow> Project act" where
  "repo_CreateProject a so = dml (\<lambda>w.
     if \<not> rls_visible w (pp_UserID a) then Inl (PgError ''42501'')
     else if (\<exists>r \<in> set (projects (w_db w)). pr_id r = pp_ID a) then Inl (PgError ''23505'')
     else if \<not> fk_user (w_db w) (pp_UserID a) then Inl (PgError ''23503'')
     else let r = \<lparr>pr_id = pp_ID a, pr_user_id = pp_UserID a, pr_encrypted_blob = pp_EncryptedBlob a,
                   pr_wrapped_item_key = pp_WrappedItemKey a, pr_name_hash = pp_NameHash a, pr_version = 1,
                   pr_sort_order = so, pr_created_at = w_now w, pr_updated_at = w_now w\<rparr>
          in Inr (r, (w_db w)\<lparr>projects := projects (w_db w) @ [r]\<rparr>))"

text \<open>\<open>ON DELETE SET NULL\<close> of the entries that refer to the project, whoever owns them.\<close>

definition repo_DeleteProject :: "uuid \<Rightarrow> uuid \<Rightarrow> int \<Rightarrow> nat act" where
  "repo_DeleteProject i u expected = dml (\<lambda>w.
     let hit = (\<lambda>r. own_project w i u r \<and> pr_version r = expected);
         gone = pr_id ` set (filter hit (projects (w_db w)))
     in Inr (count_where hit (projects (w_db w)), (w_db w)\<lparr>
          entries := upd_where (\<lambda>e. case en_project_id e of None \<Rightarrow> False | Some p \<Rightarrow> p \<in> gone)
            (\<lambda>e. e\<lparr>en_project_id := None\<rparr>) (entries (w_db w)),
          projects := del_where hit (projects (w_db w))\<rparr>))"

definition repo_GetProject :: "uuid \<Rightarrow> uuid \<Rightarrow> Project act" where
  "repo_GetProject i u = queryRow (\<lambda>w. List.find (own_project w i u) (projects (w_db w)))"

definition repo_ListProjects :: "uuid \<Rightarrow> Project list act" where
  "repo_ListProjects u = query (\<lambda>w. sort_key (\<lambda>r. (pr_sort_order r, pr_created_at r))
     (filter (\<lambda>r. rls_visible w (pr_user_id r) \<and> pr_user_id r = u) (projects (w_db w))))"

definition ReorderProject :: "uuid \<Rightarrow> uuid \<Rightarrow> int \<Rightarrow> unit act" where
  "ReorderProject i u so = exec (\<lambda>w. (w_db w)\<lparr>projects := upd_where (own_project w i u)
     (\<lambda>r. r\<lparr>pr_sort_order := so, pr_updated_at := w_now w\<rparr>) (projects (w_db w))\<rparr>)"

definition updated_project :: "ProjectParams \<Rightarrow> time \<Rightarrow> Project \<Rightarrow> Project" where
  "updated_project a t r = r\<lparr>pr_encrypted_blob := pp_EncryptedBlob a, pr_wrapped_item_key := pp_WrappedItemKey a,
     pr_name_hash := pp_NameHash a, pr_version := pr_version r + 1, pr_updated_at := t\<rparr>"

definition repo_UpdateProject :: "ProjectParams \<Rightarrow> int \<Rightarrow> Project act" where
  "repo_UpdateProject a expected = dml (\<lambda>w.
     let hit = (\<lambda>r. own_project w (pp_ID a) (pp_UserID a) r \<and> pr_version r = expected) in
     case List.find hit (projects (w_db w)) of
       None \<Rightarrow> Inl NoRows
     | Some r \<Rightarrow>
         if pr_version r = int4_max then Inl (PgError ''22003'')
         else Inr (updated_project a (w_now w) r,
                (w_db w)\<lparr>projects := upd_where hit (updated_project a (w_now w)) (projects (w_db w))\<rparr>))"

section \<open>idempotency\_keys\<close>

definition DeleteExpiredIdempotencyEntries :: "nat act" where
  "DeleteExpiredIdempotencyEntries = dml (\<lambda>w. let dead = (\<lambda>r. ik_expires_at r \<le> w_now w) in
     Inr (count_where dead (idempotency_keys (w_db w)),
          (w_db w)\<lparr>idempotency_keys := del_where dead (idempotency_keys (w_db w))\<rparr>))"

definition GetIdempotencyEntry :: "uuid \<Rightarrow> string \<Rightarrow> IdempotencyKey act" where
  "GetIdempotencyEntry u k = queryRow (\<lambda>w. List.find (\<lambda>r. ik_user_id r = u \<and> ik_key r = k \<and> ik_expires_at r > w_now w)
     (idempotency_keys (w_db w)))"

definition InsertIdempotencyEntry :: "uuid \<Rightarrow> string \<Rightarrow> string \<Rightarrow> bytes \<Rightarrow> int \<Rightarrow> bytes \<Rightarrow> time \<Rightarrow> unit act" where
  "InsertIdempotencyEntry u k procedure hash status body expires = dml (\<lambda>w.
     if (\<exists>r \<in> set (idempotency_keys (w_db w)). ik_user_id r = u \<and> ik_key r = k) then Inl (PgError ''23505'')
     else if \<not> fk_user (w_db w) u then Inl (PgError ''23503'')
     else Inr ((), (w_db w)\<lparr>idempotency_keys := idempotency_keys (w_db w) @
       [\<lparr>ik_key = k, ik_user_id = u, ik_procedure = procedure, ik_request_hash = hash, ik_response_status = status,
         ik_response_body = body, ik_created_at = w_now w, ik_expires_at = expires\<rparr>]\<rparr>))"

section \<open>user\_webauthn\_credentials\<close>

definition own_credential :: "world \<Rightarrow> uuid \<Rightarrow> uuid \<Rightarrow> UserWebauthnCredential \<Rightarrow> bool" where
  "own_credential w i u r \<longleftrightarrow> rls_visible w (wc_user_id r) \<and> wc_id r = i \<and> wc_user_id r = u"

definition upd_credentials :: "(UserWebauthnCredential \<Rightarrow> bool) \<Rightarrow> (UserWebauthnCredential \<Rightarrow> UserWebauthnCredential)
     \<Rightarrow> db \<Rightarrow> db" where
  "upd_credentials p f d = d\<lparr>user_webauthn_credentials := upd_where p f (user_webauthn_credentials d)\<rparr>"

definition ClearAllWebAuthnUnlockBundles :: "uuid \<Rightarrow> unit act" where
  "ClearAllWebAuthnUnlockBundles u = exec (\<lambda>w. upd_credentials
     (\<lambda>r. rls_visible w (wc_user_id r) \<and> wc_user_id r = u
        \<and> (wc_unlock_wrapped_vault_key r \<noteq> None \<or> wc_prf_salt r \<noteq> None))
     (\<lambda>r. r\<lparr>wc_unlock_wrapped_vault_key := None, wc_prf_salt := None\<rparr>) (w_db w))"

definition ClearWebAuthnUnlockBundle :: "uuid \<Rightarrow> uuid \<Rightarrow> unit act" where
  "ClearWebAuthnUnlockBundle i u = exec (\<lambda>w. upd_credentials (own_credential w i u)
     (\<lambda>r. r\<lparr>wc_unlock_wrapped_vault_key := None, wc_prf_salt := None\<rparr>) (w_db w))"

definition CountWebAuthnCredentials :: "uuid \<Rightarrow> nat act" where
  "CountWebAuthnCredentials u = query (\<lambda>w. count_where (\<lambda>r. rls_visible w (wc_user_id r) \<and> wc_user_id r = u)
     (user_webauthn_credentials (w_db w)))"

record CreateWebAuthnCredentialParams =
  cw_UserID :: uuid
  cw_Name :: string
  cw_CredentialID :: bytes
  cw_PublicKey :: bytes
  cw_Aaguid :: "bytes option"
  cw_SignCount :: int
  cw_Transports :: "string list"
  cw_Flags :: int

definition CreateWebAuthnCredential :: "CreateWebAuthnCredentialParams \<Rightarrow> UserWebauthnCredential act" where
  "CreateWebAuthnCredential a = bindE uuidNew (\<lambda>i. dml (\<lambda>w.
     if \<not> rls_visible w (cw_UserID a) then Inl (PgError ''42501'')
     else if (\<exists>r \<in> set (user_webauthn_credentials (w_db w)). wc_id r = i \<or> wc_credential_id r = cw_CredentialID a)
     then Inl (PgError ''23505'')
     else if \<not> fk_user (w_db w) (cw_UserID a) then Inl (PgError ''23503'')
     else let r = \<lparr>wc_id = i, wc_user_id = cw_UserID a, wc_name = cw_Name a, wc_credential_id = cw_CredentialID a,
                   wc_public_key = cw_PublicKey a, wc_aaguid = cw_Aaguid a, wc_sign_count = cw_SignCount a,
                   wc_transports = cw_Transports a, wc_created_at = w_now w, wc_last_used_at = None,
                   wc_flags = cw_Flags a, wc_unlock_wrapped_vault_key = None, wc_prf_salt = None\<rparr>
          in Inr (r, (w_db w)\<lparr>user_webauthn_credentials := user_webauthn_credentials (w_db w) @ [r]\<rparr>)))"

definition DeleteWebAuthnCredential :: "uuid \<Rightarrow> uuid \<Rightarrow> unit act" where
  "DeleteWebAuthnCredential i u = exec (\<lambda>w. (w_db w)\<lparr>user_webauthn_credentials :=
     del_where (own_credential w i u) (user_webauthn_credentials (w_db w))\<rparr>)"

definition GetWebAuthnCredentialByCredID :: "bytes \<Rightarrow> UserWebauthnCredential act" where
  "GetWebAuthnCredentialByCredID c = queryRow (\<lambda>w. List.find (\<lambda>r. rls_visible w (wc_user_id r) \<and> wc_credential_id r = c)
     (user_webauthn_credentials (w_db w)))"

definition GetWebAuthnCredentialByID :: "uuid \<Rightarrow> uuid \<Rightarrow> UserWebauthnCredential act" where
  "GetWebAuthnCredentialByID i u = queryRow (\<lambda>w. List.find (own_credential w i u) (user_webauthn_credentials (w_db w)))"

definition ListWebAuthnCredentials :: "uuid \<Rightarrow> UserWebauthnCredential list act" where
  "ListWebAuthnCredentials u = query (\<lambda>w. sort_key (\<lambda>r. - wc_created_at r)
     (filter (\<lambda>r. rls_visible w (wc_user_id r) \<and> wc_user_id r = u) (user_webauthn_credentials (w_db w))))"

definition SetWebAuthnUnlockBundle :: "uuid \<Rightarrow> uuid \<Rightarrow> bytes option \<Rightarrow> bytes option \<Rightarrow> unit act" where
  "SetWebAuthnUnlockBundle i u k salt = exec (\<lambda>w. upd_credentials (own_credential w i u)
     (\<lambda>r. r\<lparr>wc_unlock_wrapped_vault_key := k, wc_prf_salt := salt\<rparr>) (w_db w))"

definition TouchWebAuthnCredential :: "uuid \<Rightarrow> int \<Rightarrow> int \<Rightarrow> unit act" where
  "TouchWebAuthnCredential i n flags = exec (\<lambda>w. upd_credentials (\<lambda>r. rls_visible w (wc_user_id r) \<and> wc_id r = i)
     (\<lambda>r. r\<lparr>wc_sign_count := n, wc_flags := flags, wc_last_used_at := Some (w_now w)\<rparr>) (w_db w))"

section \<open>audit\_log\<close>

text \<open>A row without a user is visible to the system only.\<close>

definition audit_visible :: "world \<Rightarrow> AuditLog \<Rightarrow> bool" where
  "audit_visible w r \<longleftrightarrow> w_bypass w \<or> (al_user_id r \<noteq> None \<and> w_user w = al_user_id r)"

definition GetAuditByID :: "int \<Rightarrow> AuditLog act" where
  "GetAuditByID i = queryRow (\<lambda>w. List.find (\<lambda>r. audit_visible w r \<and> al_id r = i) (audit_log (w_db w)))"

definition GetAuditChainHead :: "(int \<times> bytes) act" where
  "GetAuditChainHead = queryRow (\<lambda>w. case sort_key (\<lambda>r. - al_id r) (filter (audit_visible w) (audit_log (w_db w))) of
     [] \<Rightarrow> None | r # _ \<Rightarrow> Some (al_id r, al_self_hash r))"

record ListAuditEntriesParams =
  la_UserID :: "uuid option"
  la_ActionFilter :: "AuditAction option"
  la_FromTime :: "time option"
  la_ToTime :: "time option"
  la_CursorID :: "int option"
  la_PageLimit :: int

definition audit_matches :: "ListAuditEntriesParams \<Rightarrow> AuditLog \<Rightarrow> bool" where
  "audit_matches a r \<longleftrightarrow> la_UserID a \<noteq> None \<and> al_user_id r = la_UserID a
     \<and> unless_null (la_ActionFilter a) (\<lambda>x. al_action r = x)
     \<and> unless_null (la_FromTime a) (\<lambda>t. t \<le> al_created_at r)
     \<and> unless_null (la_ToTime a) (\<lambda>t. al_created_at r \<le> t)
     \<and> unless_null (la_CursorID a) (\<lambda>c. al_id r < c)"

definition ListAuditEntries :: "ListAuditEntriesParams \<Rightarrow> AuditLog list act" where
  "ListAuditEntries a = query (\<lambda>w. take (nat (la_PageLimit a)) (sort_key (\<lambda>r. - al_id r)
     (filter (\<lambda>r. audit_visible w r \<and> audit_matches a r) (audit_log (w_db w)))))"

definition ListAuditFromID :: "int \<Rightarrow> int \<Rightarrow> AuditLog list act" where
  "ListAuditFromID i lim = query (\<lambda>w. take (nat lim) (sort_key al_id
     (filter (\<lambda>r. audit_visible w r \<and> i < al_id r) (audit_log (w_db w)))))"

section \<open>system\_state\<close>

definition GetSystemValue :: "string \<Rightarrow> json act" where
  "GetSystemValue k = queryRow (\<lambda>w. map_option ss_value (List.find (\<lambda>r. ss_key r = k) (system_state (w_db w))))"

definition UpsertSystemValue :: "string \<Rightarrow> json \<Rightarrow> unit act" where
  "UpsertSystemValue k v = exec (\<lambda>w. (w_db w)\<lparr>system_state := upsert (\<lambda>r. ss_key r = k)
     (\<lambda>r. r\<lparr>ss_value := v, ss_updated_at := w_now w\<rparr>)
     \<lparr>ss_key = k, ss_value = v, ss_updated_at = w_now w\<rparr> (system_state (w_db w))\<rparr>)"

end
