(* ===== verification/Middleware.thy ===== *)
theory Middleware
  imports Repo_Vault Audit_Chain Auth_Manager
begin

text \<open>
  The interceptors around the handlers (\<open>internal/api/middleware\<close>): bearer authentication
  (\<open>auth.go\<close>), the transaction with row level security of a request (\<open>rls.go\<close>), and the
  audit row of a successful mutation (\<open>audit.go\<close>), composed as in
  \<open>internal/api/server.go\<close>: the audit interceptor runs inside the transaction of the
  request, and its row is written on another connection.
\<close>

section \<open>Authentication\<close>

record UserContext =
  uc_UserID :: uuid
  uc_SessionID :: uuid
  uc_DeviceID :: string
  uc_AccessToken :: string

definition AnonymousProcedures :: "string list" where
  "AnonymousProcedures = map (\<lambda>p. ''/oblivio.v1.AuthService/'' @ p)
     [''Register'', ''GetKDFParams'', ''Authorize'', ''CompleteMFA'', ''RefreshToken'', ''GetRecoveryParams'',
      ''RecoveryStart'', ''RecoveryComplete'', ''VerifyEmail'', ''ResendVerification'']"

definition bearerToken :: "string \<Rightarrow> string" where
  "bearerToken h = (let prefix = ''Bearer '' in
     if length h < length prefix \<or> map to_lower (take (length prefix) h) \<noteq> map to_lower prefix then ''''
     else TrimSpace (drop (length prefix) h))"

text \<open>\<open>None\<close> is an anonymous request.\<close>

definition auth_middleware :: "ext \<Rightarrow> tokenlib \<Rightarrow> Manager \<Rightarrow> string \<Rightarrow> string \<Rightarrow> UserContext option act" where
  "auth_middleware X L am procedure header =
     (if procedure \<in> set AnonymousProcedures then returnE None
      else let token = bearerToken header in
        if token = '''' then raiseE (Connect CodeUnauthenticated (Msg ''missing bearer token''))
        else bindE (mapErr (\<lambda>_. Connect CodeUnauthenticated (Msg ''invalid bearer token'')) (Authenticate X L am token))
          (\<lambda>d. case uuid_Parse X (td_UserID d) of
             None \<Rightarrow> raiseE (Connect CodeUnauthenticated (Msg ''invalid user id in token''))
           | Some u \<Rightarrow> returnE (Some \<lparr>uc_UserID = u, uc_SessionID = sd_SessionID (td_AdditionalData d),
               uc_DeviceID = sd_DeviceID (td_AdditionalData d), uc_AccessToken = token\<rparr>)))"

section \<open>The transaction of a request\<close>

definition internal :: "err \<Rightarrow> err" where
  "internal e = Connect CodeInternal e"

definition rls_interceptor :: "UserContext option \<Rightarrow> 'a act \<Rightarrow> 'a act" where
  "rls_interceptor uc next = (case uc of
     None \<Rightarrow> next
   | Some uc \<Rightarrow>
       thenE (mapErr internal BeginTx)
         (defer_rollback
           (thenE (mapErr internal (set_current_user (uc_UserID uc)))
             (bindE next (\<lambda>resp.
               thenE (mapErr (\<lambda>e. if errors_is e CtxCanceled then Connect CodeCanceled e else internal e) Commit)
                 (returnE resp))))))"

section \<open>Audit rows\<close>

text \<open>What a handler leaves in the audit box: the target, \<open>uuid.Nil\<close> when it sets none, and
  further metadata.\<close>

record auditBox =
  ab_target :: uuid
  ab_extra :: "(string \<times> json) list"

definition no_box :: auditBox where
  "no_box = \<lparr>ab_target = uuid_Nil, ab_extra = []\<rparr>"

definition SetAuditTarget :: "uuid \<Rightarrow> auditBox \<Rightarrow> auditBox" where
  "SetAuditTarget i box = box\<lparr>ab_target := i\<rparr>"

definition SetAuditMetadata :: "(string \<times> json) list \<Rightarrow> auditBox \<Rightarrow> auditBox" where
  "SetAuditMetadata kv box = box\<lparr>ab_extra := assign_all kv (ab_extra box)\<rparr>"

definition asNullUUID :: "uuid \<Rightarrow> uuid option" where
  "asNullUUID v = (if v = uuid_Nil then None else Some v)"

definition DefaultAuditProcedures :: "string \<Rightarrow> AuditAction option" where
  "DefaultAuditProcedures = map_of
     [(''/oblivio.v1.ProjectsService/CreateProject'', AuditActionProjectCreate),
      (''/oblivio.v1.ProjectsService/UpdateProject'', AuditActionProjectUpdate),
      (''/oblivio.v1.ProjectsService/DeleteProject'', AuditActionProjectDelete),
      (''/oblivio.v1.EntriesService/CreateEntry'', AuditActionEntryCreate),
      (''/oblivio.v1.EntriesService/UpdateEntry'', AuditActionEntryUpdate),
      (''/oblivio.v1.EntriesService/DeleteEntry'', AuditActionEntryDelete),
      (''/oblivio.v1.EntriesService/GetEntriesByIds'', AuditActionEntryView),
      (''/oblivio.v1.WebAuthnService/RegisterFinish'', AuditActionWebauthnRegister),
      (''/oblivio.v1.WebAuthnService/RemoveCredential'', AuditActionWebauthnRemove),
      (''/oblivio.v1.LoginTOTPService/Enable'', AuditActionTotpEnable),
      (''/oblivio.v1.LoginTOTPService/Disable'', AuditActionTotpDisable)]"

definition audit_interceptor ::
  "ext \<Rightarrow> string \<Rightarrow> string \<Rightarrow> UserContext option \<Rightarrow> ('a \<times> auditBox) act \<Rightarrow> 'a act" where
  "audit_interceptor X procedure userAgent uc next =
     bindE next (\<lambda>(resp, box).
       case DefaultAuditProcedures procedure of
         None \<Rightarrow> returnE resp
       | Some action \<Rightarrow> (case uc of
           None \<Rightarrow> returnE resp
         | Some uc \<Rightarrow>
             let meta = assign_all (ab_extra box)
                   [(''procedure'', JString procedure), (''device_id'', JString (uc_DeviceID uc))]
             in thenE (on_pool (AppendOrLog X \<lparr>evt_user_id = Some (uc_UserID uc), evt_action = action,
                    evt_target_id = asNullUUID (ab_target box), evt_ip = None, evt_user_agent = userAgent,
                    evt_metadata = meta\<rparr>)) (returnE resp)))"

text \<open>\<open>connect.WithInterceptors(rlsInterceptor, auditInterceptor)\<close>: the first is the outermost.\<close>

definition common_interceptors ::
  "ext \<Rightarrow> string \<Rightarrow> string \<Rightarrow> UserContext option \<Rightarrow> ('a \<times> auditBox) act \<Rightarrow> 'a act" where
  "common_interceptors X procedure userAgent uc handler =
     rls_interceptor uc (audit_interceptor X procedure userAgent uc handler)"

section \<open>Notifications\<close>

text \<open>\<open>pg_notify\<close> changes no table; a failure reaches the caller.\<close>

definition publish :: "unit act" where
  "publish = mapErr (Wrap ''pg_notify'') (stmt (returnE ()))"

section \<open>A request leaves no transaction open\<close>

lemma idle_Commit: "in_tx w \<Longrightarrow> idle (Rollback (snd (Commit w)))"
  by (auto simp: Commit_def stmt_def in_tx_def idle_def split: list.split fault.split)

lemma idle_rls_body:
  assumes m: "keeps in_tx m" and w: "in_tx w"
  shows "idle (snd (defer_rollback (thenE (mapErr f (set_current_user u))
           (bindE m (\<lambda>x. thenE (mapErr g Commit) (returnE x)))) w))"
proof -
  have "keeps in_tx (set_current_user u)"
    unfolding set_current_user_def by (rule tx.keeps_any_stmt) (simp add: keeps_def in_tx_def)
  with w have "in_tx (snd (set_current_user u w))" by (simp add: keeps_def)
  moreover have "in_tx (snd (m v))" if "in_tx v" for v using m that by (simp add: keeps_def)
  ultimately show ?thesis using idle_Commit
    by (fastforce simp: defer_rollback_def thenE_def bindE_def mapErr_def returnE_def
          dest: idle_Rollback split: prod.splits sum.splits)
qed

lemma idle_rls:
  assumes "keeps in_tx m" and "idle w"
  shows "idle (snd (rls_interceptor (Some uc) m w))"
proof -
  have "wp BeginTx (\<lambda>r w'. case r of Inl e \<Rightarrow> idle w' | Inr _ \<Rightarrow> in_tx w') w"
    using assms(2) by (intro wp_BeginTx_any) (simp_all add: tx_start_def in_tx_def)
  then show ?thesis
    using idle_rls_body [OF assms(1)]
    by (auto simp: rls_interceptor_def wp_def thenE_def [of "mapErr internal BeginTx"] bindE_def [of "mapErr internal BeginTx"]
          mapErr_def [of internal BeginTx] split: prod.splits sum.splits)
qed

lemma idle_common_interceptors:
  assumes "keeps in_tx m" and "idle w"
  shows "idle (snd (common_interceptors X procedure ua (Some uc) m w))"
  unfolding common_interceptors_def
proof (rule idle_rls [OF _ assms(2)])
  show "keeps in_tx (audit_interceptor X procedure ua (Some uc) m)"
    unfolding audit_interceptor_def Let_def by (intro tx.keeps_any keeps_in_tx_on_pool assms(1))
qed

section \<open>Invariants of requests\<close>

text \<open>An invariant that does not speak of the audit log or the chain head is kept by a request
  whose handler keeps it, whatever the interceptors do and whichever statement fails.\<close>

locale audit_invariant = db_invariant +
  assumes audit_table: "P us p d \<Longrightarrow> P us p (d\<lparr>audit_log := a\<rparr>)"
    and head_table: "P us p d \<Longrightarrow> P us p (d\<lparr>system_state := s\<rparr>)"
begin

lemma keeps_insert_audit: "keeps (db_inv P) (insert_audit_log row)"
  unfolding insert_audit_log_def
  by (rule keeps_db_stmt) (auto simp: keeps_def db_inv_def Let_def intro: audit_table)

lemma keeps_AppendOrLog: "keeps (db_inv P) (AppendOrLog X ev)"
proof -
  have "keeps (db_inv P) (update_chain_head v)" for v
    unfolding update_chain_head_def by (rule keeps_exec) (rule head_table)
  moreover have "keeps (db_inv P) (liftE r)" for r :: "'b result"
    by (simp add: keeps_def liftE_def)
  ultimately show ?thesis
    unfolding AppendOrLog_def Append_def select_system_value_def Let_def
    by (intro keeps_intros keeps_insert_audit)
qed

end

text \<open>The database without the tables that the audit interceptor writes.\<close>

definition no_audit :: "db \<Rightarrow> db" where
  "no_audit d = d\<lparr>audit_log := [], system_state := []\<rparr>"

lemma no_audit_merge:
  "no_audit b = no_audit t \<Longrightarrow> no_audit (merge_tables b m t) = no_audit m"
  by (cases b, cases m, cases t) (simp add: no_audit_def merge_tables_def)

interpretation rest: audit_invariant "\<lambda>us p d. no_audit d = D"
  by unfold_locales (simp_all add: no_audit_def)

lemma AppendOrLog_frame:
  assumes "w_tx w = None"
  shows "no_audit (w_db (snd (AppendOrLog X ev w))) = no_audit (w_db w)"
proof -
  have "db_inv (\<lambda>us p e. no_audit e = no_audit (w_db w)) w" using assms by (simp add: db_inv_def)
  then have "db_inv (\<lambda>us p e. no_audit e = no_audit (w_db w)) (snd (AppendOrLog X ev w))"
    using rest.keeps_AppendOrLog [where D = "no_audit (w_db w)"] unfolding keeps_def by blast
  then show ?thesis by (simp add: db_inv_def)
qed

lemma on_pool_AppendOrLog:
  assumes "in_tx w" and "on_pool (AppendOrLog X ev) w = (r, w')"
  shows "no_audit (w_db w') = no_audit (w_db w) \<and> map_option no_audit (w_tx w') = map_option no_audit (w_tx w)
     \<and> w_user w' = w_user w \<and> w_bypass w' = w_bypass w"
proof -
  from assms(1) obtain d where d: "w_tx w = Some d" by (auto simp: in_tx_def)
  let ?w = "w\<lparr>w_db := d, w_tx := None, w_bypass := False, w_user := None\<rparr>"
  have "no_audit (w_db (snd (AppendOrLog X ev ?w))) = no_audit d" by (subst AppendOrLog_frame) simp_all
  then show ?thesis using assms(2) d by (auto simp: on_pool_def no_audit_merge split: prod.splits)
qed

locale request_invariant = audit_invariant +
  assumes same_uuids: "P us p d \<Longrightarrow> P us' p' d"
begin

lemma no_audit_cong:
  assumes "P us p d" and "no_audit d' = no_audit d"
  shows "P us' p' d'"
proof -
  have "d' = d\<lparr>audit_log := audit_log d', system_state := system_state d'\<rparr>"
    using assms(2) by (cases d, cases d') (simp add: no_audit_def)
  moreover have "P us' p' (d\<lparr>audit_log := a, system_state := s\<rparr>)" for a s
    by (intro head_table audit_table same_uuids [OF assms(1)])
  ultimately show ?thesis by metis
qed

lemma keeps_pool_audit: "keeps (db_inv P) (on_pool (AppendOrLog X ev))"
  unfolding keeps_def
proof (intro allI impI)
  fix w assume inv: "db_inv P w"
  obtain r w' where run: "on_pool (AppendOrLog X ev) w = (r, w')" by fastforce
  show "db_inv P (snd (on_pool (AppendOrLog X ev) w))"
  proof (cases "w_tx w")
    case None
    with keeps_AppendOrLog inv show ?thesis by (simp add: on_pool_def keeps_def)
  next
    case (Some d)
    from inv Some have mine: "P (w_uuids w) (w_uuid_pos w) (w_db w)" and base: "P (w_uuids w) (w_uuid_pos w) d"
      by (auto simp: db_inv_def)
    show ?thesis using on_pool_AppendOrLog [OF _ run] Some run
      by (auto simp: db_inv_def in_tx_def intro: no_audit_cong [OF mine] no_audit_cong [OF base])
  qed
qed

lemma keeps_rls: "keeps (db_inv P) m \<Longrightarrow> keeps (db_inv P) (rls_interceptor uc m)"
  unfolding rls_interceptor_def by (intro keeps_cases keeps_intros)

lemma keeps_common_interceptors:
  assumes "keeps (db_inv P) m"
  shows "keeps (db_inv P) (common_interceptors X procedure ua uc m)"
  unfolding common_interceptors_def audit_interceptor_def Let_def
  by (intro keeps_rls keeps_cases keeps_intros keeps_pool_audit assms)

lemma keeps_publish: "keeps (db_inv P) publish"
  unfolding publish_def by (intro keeps_intros keeps_db_stmt)

lemma keeps_liftE: "keeps (db_inv P) (liftE r)"
  by (simp add: keeps_def liftE_def)

lemmas keeps_request = keeps_intros keeps_cases keeps_publish keeps_liftE

end

section \<open>What the interceptors add\<close>

text \<open>How a request can end: its handler runs on a fresh transaction of the user, and what it
  did becomes permanent exactly when the commit took effect.\<close>

lemma wp_set_current_user_any:
  assumes "\<And>fs. Q (Inr ()) (w\<lparr>w_faults := fs, w_user := Some u\<rparr>)"
    and "\<And>fs v. Q (Inl Fault) (w\<lparr>w_faults := fs, w_user := v\<rparr>)"
  shows "wp (set_current_user u) Q w"
proof -
  have "Q (Inl Fault) (w\<lparr>w_faults := fs\<rparr>)" for fs
    using assms(2) [where fs = fs and v = "w_user w"] by simp
  with assms show ?thesis
    unfolding set_current_user_def by (intro wp_stmt_any) (simp_all add: wp_def)
qed

lemma wp_user_tx:
  assumes "\<And>fs. wp B (\<lambda>r w'. Q r (Rollback w')) (tx_start False (Some u) fs w)"
    and "\<And>fs e. errors_is e Fault \<Longrightarrow> Q (Inl e) (w\<lparr>w_faults := fs\<rparr>)"
    and "\<And>fs e. errors_is e Fault \<Longrightarrow> Q (Inl e) (tx_end (w_db w) fs w)"
  shows "wp (thenE (mapErr internal BeginTx) (defer_rollback (thenE (mapErr internal (set_current_user u)) B))) Q w"
  unfolding wps using assms
  by (auto intro!: wp_BeginTx_any wp_set_current_user_any simp: internal_def tx_start_def tx_end_def)

lemma wp_rls_any:
  assumes body: "\<And>fs. wp m (\<lambda>r w1. case r of
        Inl e \<Rightarrow> Q (Inl e) (Rollback w1)
      | Inr x \<Rightarrow> \<forall>fs. Q (Inr x) (tx_end (w_db w1) fs w1) \<and> (\<forall>e. errors_is e Fault \<longrightarrow>
          Q (Inl e) (tx_end (w_db w1) fs w1) \<and> Q (Inl e) (Rollback (w1\<lparr>w_faults := fs\<rparr>))))
      (tx_start False (Some (uc_UserID uc)) fs w)"
    and not_started: "\<And>fs e. errors_is e Fault \<Longrightarrow> Q (Inl e) (w\<lparr>w_faults := fs\<rparr>)"
    and not_set: "\<And>fs e. errors_is e Fault \<Longrightarrow> Q (Inl e) (tx_end (w_db w) fs w)"
  shows "wp (rls_interceptor (Some uc) m) Q w"
proof -
  let ?C = "mapErr (\<lambda>e. if errors_is e CtxCanceled then Connect CodeCanceled e else internal e) Commit"
  have "wp (bindE m (\<lambda>x. thenE ?C (returnE x))) (\<lambda>r w'. Q r (Rollback w')) (tx_start False (Some (uc_UserID uc)) fs w)" for fs
    unfolding wps
  proof (rule wp_mono [OF body], goal_cases)
    case (1 r w1)
    show ?case
    proof (cases r)
      case (Inr x)
      with 1 show ?thesis by (auto intro!: wp_Commit_any simp: internal_def wps)
    qed (use 1 in simp)
  qed
  then show ?thesis
    unfolding rls_interceptor_def option.case using not_started not_set by (rule wp_user_tx)
qed

interpretation tx_at: connection_invariant "\<lambda>w. w_tx w = Some d"
  by unfold_locales simp_all

text \<open>The outcome of a request: on success its handler succeeded on a transaction of the user and
  what it left is permanent; on an error other than a failure of the connection nothing happened.\<close>

definition request_outcome :: "('a \<times> auditBox) act \<Rightarrow> uuid \<Rightarrow> world \<Rightarrow> 'a result \<Rightarrow> world \<Rightarrow> bool" where
  "request_outcome m u w r w' \<longleftrightarrow> (case r of
     Inl e \<Rightarrow> errors_is e Fault \<or> (w_db w' = w_db w \<and> (\<exists>fs. fst (m (tx_start False (Some u) fs w)) = Inl e))
   | Inr x \<Rightarrow> (\<exists>fs box w1. m (tx_start False (Some u) fs w) = (Inr (x, box), w1) \<and> no_audit (w_db w') = no_audit (w_db w1)))"

lemma wp_audit_interceptor:
  assumes "in_tx (snd (m w))"
  shows "wp (audit_interceptor X procedure ua (Some uc) m) (\<lambda>r w'.
     case r of Inl e \<Rightarrow> m w = (Inl e, w')
     | Inr x \<Rightarrow> (\<exists>box w1. m w = (Inr (x, box), w1) \<and> no_audit (w_db w') = no_audit (w_db w1))) w"
proof (cases "m w")
  case (Pair r w1)
  have pool: "wp (on_pool (AppendOrLog X ev)) (\<lambda>r w'. r = Inr () \<and> no_audit (w_db w') = no_audit (w_db w1)) w1" for ev
  proof -
    obtain q w' where run: "on_pool (AppendOrLog X ev) w1 = (q, w')" by fastforce
    have "fst (AppendOrLog X ev v) = Inr ()" for v
      by (simp add: AppendOrLog_def bindE_def tryE_def returnE_def split: prod.split)
    then have "q = Inr ()" using run
      by (auto simp: on_pool_def split: option.splits prod.splits dest!: arg_cong [where f = fst])
    with on_pool_AppendOrLog [OF _ run] assms Pair run show ?thesis by (simp add: wp_def)
  qed
  show ?thesis
  proof (cases r)
    case (Inr y)
    obtain x box where "y = (x, box)" by fastforce
    with Inr Pair show ?thesis
      by (auto simp: audit_interceptor_def wp_bindE wp_def [of m] Let_def wps split: option.split
            intro!: wp_mono [OF pool])
  qed (use Pair in \<open>simp add: audit_interceptor_def wp_bindE wp_def [of m]\<close>)
qed

lemma request_outcomeI:
  assumes m: "\<And>d. keeps (\<lambda>w. w_tx w = Some d) m"
    and run: "common_interceptors X procedure ua (Some uc) m w = (r, w')"
  shows "request_outcome m (uc_UserID uc) w r w'"
proof -
  have "wp (common_interceptors X procedure ua (Some uc) m) (request_outcome m (uc_UserID uc) w) w"
    unfolding common_interceptors_def
  proof (rule wp_rls_any, goal_cases)
    case (1 fs)
    let ?t = "tx_start False (Some (uc_UserID uc)) fs w"
    have tx: "w_tx (snd (m ?t)) = Some (w_db w)"
      using m [of "w_db w"] by (simp add: keeps_def tx_start_def)
    then have "in_tx (snd (m ?t))" by (simp add: in_tx_def)
    from wp_audit_interceptor [where m = m, OF this] show ?case
    proof (rule wp_mono, goal_cases)
      case (1 q w1)
      show ?case
      proof (cases q)
        case (Inl e)
        with 1 have "m ?t = (Inl e, w1)" by simp
        with tx Inl show ?thesis by (auto simp: request_outcome_def intro!: exI [of _ fs])
      next
        case (Inr x)
        with 1 show ?thesis by (auto simp: request_outcome_def tx_end_def)
      qed
    qed
  qed (simp_all add: request_outcome_def)
  then show ?thesis using run by (simp add: wp_def)
qed

text \<open>Without failures a request succeeds whenever its handler does.\<close>

lemma keeps_calm_AppendOrLog: "keeps calm (AppendOrLog X ev)"
proof -
  have "keeps calm (insert_audit_log row)" for row
    unfolding insert_audit_log_def by (rule calm.keeps_any_stmt) (auto simp: keeps_def calm_def Let_def)
  moreover have "keeps calm (liftE r)" for r :: "'b result" by (simp add: keeps_def liftE_def)
  ultimately show ?thesis
    unfolding AppendOrLog_def Append_def select_system_value_def update_chain_head_def Let_def
    by (intro calm.keeps_any keeps_calm_tx keeps_calm_rollback)
qed

lemma request_succeeds:
  assumes "calm w" and "keeps calm m" and "keeps in_tx m"
    and m: "m (tx_start False (Some (uc_UserID uc)) [] w) = (Inr (x, box), w1)"
    and run: "common_interceptors X procedure ua (Some uc) m w = (r, w')"
  shows "r = Inr x \<and> calm w' \<and> no_audit (w_db w') = no_audit (w_db w1)"
proof -
  let ?Q = "\<lambda>v. calm v \<and> no_audit (w_db v) = no_audit (w_db w1)"
  have "calm (tx_start False (Some (uc_UserID uc)) [] w)" "in_tx (tx_start False (Some (uc_UserID uc)) [] w)"
    by (simp_all add: calm_def tx_start_def in_tx_def)
  then have w1: "calm w1" "in_tx w1" using keepsD [OF assms(2) _ m] keepsD [OF assms(3) _ m] by simp_all
  have "fst (on_pool (AppendOrLog X ev) v) = Inr ()" for ev v
    by (auto simp: on_pool_def AppendOrLog_def bindE_def tryE_def returnE_def split: prod.split option.split)
  moreover have "calm (snd (on_pool (AppendOrLog X ev) w1))" for ev
    using keeps_calm_on_pool [OF keeps_calm_AppendOrLog] w1 by (simp add: keeps_def)
  moreover have "no_audit (w_db (snd (on_pool (AppendOrLog X ev) w1))) = no_audit (w_db w1)" for ev
    using on_pool_AppendOrLog [OF w1(2)] by (metis prod.collapse)
  ultimately have pool: "wp (on_pool (AppendOrLog X ev)) (\<lambda>r v. r = Inr () \<and> ?Q v) w1" for ev
    by (simp add: wp_iff)
  have "wp (audit_interceptor X procedure ua (Some uc) m) (\<lambda>r v. r = Inr x \<and> ?Q v)
      (tx_start False (Some (uc_UserID uc)) [] w)"
    using m w1 by (auto simp: audit_interceptor_def wp_bindE wp_def [of m] Let_def wps split: option.split
        intro!: wp_mono [OF pool])
  then have body: "wp (audit_interceptor X procedure ua (Some uc) m) (\<lambda>r v. r = Inr x \<and> w_faults v = [] \<and> ?Q v)
      (w\<lparr>w_tx := Some (w_db w), w_bypass := False, w_user := Some (uc_UserID uc)\<rparr>)"
    using assms(1) by (cases w) (simp add: calm_def tx_start_def)
  have "wp (common_interceptors X procedure ua (Some uc) m) (\<lambda>r v. r = Inr x \<and> ?Q v) w"
    unfolding common_interceptors_def rls_interceptor_def option.case
    using assms(1) by (auto simp: wps calm_def intro!: wp_mono [OF body])
  then show ?thesis using run by (simp add: wp_def)
qed

end
