(* ===== verification/Entries_Service.thy ===== *)
theory Entries_Service
  imports Middleware "HOL-Library.Word"
begin

text \<open>
  The entries service (\<open>internal/api/entries/service.go\<close>): the checks of a request, the
  seven handlers on the transaction of the request, and the conversions between rows and
  messages.  Unsigned 32-bit fields of the messages are words; \<open>int32(x)\<close> reads a word
  as a signed number.  A \<open>bytes\<close> field that is empty on the wire is a \<open>nil\<close> slice, which
  the driver stores as NULL.
\<close>

section \<open>Messages\<close>

type_synonym uint32 = "32 word"

definition int32 :: "uint32 \<Rightarrow> int" where
  "int32 x = sint x"

definition nil_bytes :: "bytes \<Rightarrow> bytes option" where
  "nil_bytes b = (if b = [] then None else Some b)"

definition of_nil :: "bytes option \<Rightarrow> bytes" where
  "of_nil b = (case b of None \<Rightarrow> [] | Some x \<Rightarrow> x)"

record pbEntryMeta =
  pm_Id :: string
  pm_ProjectId :: string
  pm_Kind :: int
  pm_TitleHash :: bytes
  pm_DomainHash :: bytes
  pm_HasTotp :: bool
  pm_IsFavorite :: bool
  pm_Version :: uint32
  pm_CreatedAt :: time
  pm_UpdatedAt :: time

record pbEntry = pbEntryMeta +
  pe_EncryptedBlob :: bytes
  pe_WrappedItemKey :: bytes

record ListEntriesRequest =
  lr_ProjectId :: "string option"
  lr_Kind :: "int option"
  lr_TitleHashes :: "bytes list"
  lr_DomainHashes :: "bytes list"
  lr_FavoritesOnly :: "bool option"
  lr_HasTotpOnly :: "bool option"
  lr_UpdatedAfter :: "time option"
  lr_Limit :: uint32

record ListEntriesResponse =
  lrs_Entries :: "pbEntryMeta list"
  lrs_NextUpdatedAfter :: "time option"

record EntryRequest =
  er_Id :: string
  er_ProjectId :: "string option"
  er_Kind :: int
  er_EncryptedBlob :: bytes
  er_WrappedItemKey :: bytes
  er_TitleHash :: bytes
  er_DomainHash :: bytes
  er_HasTotp :: bool
  er_IsFavorite :: bool

section \<open>Conversions and checks\<close>

definition defaultListLimit :: int where "defaultListLimit = 100"
definition maxListLimit :: int where "maxListLimit = 500"
definition maxBatchGet :: nat where "maxBatchGet = 200"
definition maxRepeatedField :: nat where "maxRepeatedField = 500"
definition maxEncryptedBlobBytes :: nat where "maxEncryptedBlobBytes = 1048576"
definition maxWrappedItemKeyBytes :: nat where "maxWrappedItemKeyBytes = 256"

definition toModelKind :: "int \<Rightarrow> EntryKind result" where
  "toModelKind k =
     (if k = 1 then Inr EntryKindLogin else if k = 2 then Inr EntryKindTotp else if k = 3 then Inr EntryKindCard
      else if k = 4 then Inr EntryKindIdentity else if k = 5 then Inr EntryKindSshKey
      else if k = 6 then Inr EntryKindNote else Inl (Msg ''unknown entry kind''))"

fun fromModelKind :: "EntryKind \<Rightarrow> int" where
  "fromModelKind EntryKindLogin = 1"
| "fromModelKind EntryKindTotp = 2"
| "fromModelKind EntryKindCard = 3"
| "fromModelKind EntryKindIdentity = 4"
| "fromModelKind EntryKindSshKey = 5"
| "fromModelKind EntryKindNote = 6"

definition toEntryMeta :: "ext \<Rightarrow> Entry \<Rightarrow> pbEntryMeta" where
  "toEntryMeta X r = \<lparr>pm_Id = uuid_String X (en_id r),
     pm_ProjectId = (case en_project_id r of None \<Rightarrow> '''' | Some p \<Rightarrow> uuid_String X p),
     pm_Kind = fromModelKind (en_kind r), pm_TitleHash = en_title_hash r, pm_DomainHash = of_nil (en_domain_hash r),
     pm_HasTotp = en_has_totp r, pm_IsFavorite = en_is_favorite r, pm_Version = word_of_int (en_version r),
     pm_CreatedAt = en_created_at r, pm_UpdatedAt = en_updated_at r\<rparr>"

definition toEntry :: "ext \<Rightarrow> Entry \<Rightarrow> pbEntry" where
  "toEntry X r = pbEntryMeta.extend (toEntryMeta X r)
     \<lparr>pe_EncryptedBlob = en_encrypted_blob r, pe_WrappedItemKey = en_wrapped_item_key r\<rparr>"

definition validateBlob :: "bytes \<Rightarrow> bytes \<Rightarrow> bytes \<Rightarrow> unit result" where
  "validateBlob blob wrappedKey titleHash =
     (if length blob < 29 then Inl (Msg ''encrypted_blob too short'')
      else if length blob > maxEncryptedBlobBytes then Inl (Msg ''encrypted_blob too large'')
      else if length wrappedKey < 29 then Inl (Msg ''wrapped_item_key too short'')
      else if length wrappedKey > maxWrappedItemKeyBytes then Inl (Msg ''wrapped_item_key too large'')
      else if length titleHash \<noteq> 32 then Inl (Msg ''title_hash must be SHA-256 (32 bytes)'')
      else Inr ())"

fun parseUUIDs :: "ext \<Rightarrow> string list \<Rightarrow> uuid list result" where
  "parseUUIDs X [] = Inr []"
| "parseUUIDs X (r # rs) = (case uuid_Parse X r of
     None \<Rightarrow> Inl (Msg ''invalid id in batch'')
   | Some i \<Rightarrow> (case parseUUIDs X rs of Inl e \<Rightarrow> Inl e | Inr is \<Rightarrow> Inr (i # is)))"

definition optionalUUID :: "ext \<Rightarrow> string option \<Rightarrow> uuid option result" where
  "optionalUUID X s = (case s of
     None \<Rightarrow> Inr None
   | Some t \<Rightarrow> if t = '''' then Inr None
       else case uuid_Parse X t of None \<Rightarrow> Inl (Msg ''invalid project_id'') | Some i \<Rightarrow> Inr (Some i))"

definition clampLimit :: "int \<Rightarrow> int" where
  "clampLimit n = (let n = (if n \<le> 0 then defaultListLimit else n) in if n > maxListLimit then maxListLimit else n)"

definition buildListParams :: "ext \<Rightarrow> uuid \<Rightarrow> ListEntriesRequest \<Rightarrow> ListEntriesParams result" where
  "buildListParams X userID msg =
     (if length (lr_TitleHashes msg) > maxRepeatedField then Inl (Msg ''too many title_hashes'')
      else if length (lr_DomainHashes msg) > maxRepeatedField then Inl (Msg ''too many domain_hashes'')
      else case (case lr_ProjectId msg of None \<Rightarrow> Inr None
                 | Some s \<Rightarrow> (case uuid_Parse X s of None \<Rightarrow> Inl (Msg ''invalid project_id'') | Some p \<Rightarrow> Inr (Some p))) of
        Inl e \<Rightarrow> Inl e
      | Inr pid \<Rightarrow> (case (case lr_Kind msg of None \<Rightarrow> Inr None
                         | Some k \<Rightarrow> (case toModelKind k of Inl e \<Rightarrow> Inl e | Inr m \<Rightarrow> Inr (Some m))) of
          Inl e \<Rightarrow> Inl e
        | Inr kind \<Rightarrow> Inr \<lparr>lp_UserID = userID, lp_ProjectID = pid, lp_Kind = kind,
            lp_TitleHashes = (if lr_TitleHashes msg = [] then None else Some (lr_TitleHashes msg)),
            lp_DomainHashes = (if lr_DomainHashes msg = [] then None else Some (lr_DomainHashes msg)),
            lp_FavoritesOnly = lr_FavoritesOnly msg, lp_HasTotpOnly = lr_HasTotpOnly msg,
            lp_UpdatedAfter = lr_UpdatedAfter msg, lp_PageLimit = clampLimit (int32 (lr_Limit msg))\<rparr>))"

definition isUniqueViolation :: "err \<Rightarrow> bool" where
  "isUniqueViolation e \<longleftrightarrow> pg_code e = Some ''23505''"

definition invalid_argument :: "err \<Rightarrow> err" where
  "invalid_argument e = Connect CodeInvalidArgument e"

definition parse_entry_id :: "ext \<Rightarrow> string \<Rightarrow> uuid act" where
  "parse_entry_id X s = (case uuid_Parse X s of
     None \<Rightarrow> raiseE (invalid_argument (Msg ''invalid entry id'')) | Some i \<Rightarrow> returnE i)"

text \<open>The checks that creating and updating share, and the row parameters they lead to.\<close>

definition check_entry :: "ext \<Rightarrow> UserContext \<Rightarrow> EntryRequest \<Rightarrow> EntryParams act" where
  "check_entry X uc r =
     bindE (parse_entry_id X (er_Id r)) (\<lambda>i.
     thenE (mapErr invalid_argument (liftE (validateBlob (er_EncryptedBlob r) (er_WrappedItemKey r) (er_TitleHash r))))
     (bindE (mapErr invalid_argument (liftE (toModelKind (er_Kind r)))) (\<lambda>kind.
     bindE (mapErr invalid_argument (liftE (optionalUUID X (er_ProjectId r)))) (\<lambda>projectID.
     returnE \<lparr>ep_ID = i, ep_UserID = uc_UserID uc, ep_ProjectID = projectID, ep_Kind = kind,
       ep_EncryptedBlob = er_EncryptedBlob r, ep_WrappedItemKey = er_WrappedItemKey r, ep_TitleHash = er_TitleHash r,
       ep_DomainHash = nil_bytes (er_DomainHash r), ep_HasTotp = er_HasTotp r, ep_IsFavorite = er_IsFavorite r\<rparr>))))"

section \<open>Handlers\<close>

definition ListEntries :: "ext \<Rightarrow> UserContext \<Rightarrow> ListEntriesRequest \<Rightarrow> (ListEntriesResponse \<times> auditBox) act" where
  "ListEntries X uc req =
     bindE (mapErr invalid_argument (liftE (buildListParams X (uc_UserID uc) req))) (\<lambda>params.
     bindE (mapErr internal (repo_ListEntries params)) (\<lambda>rows.
     returnE (\<lparr>lrs_Entries = map (toEntryMeta X) rows,
       lrs_NextUpdatedAfter = (if int (length rows) = lp_PageLimit params \<and> rows \<noteq> []
          then Some (en_updated_at (last rows)) else None)\<rparr>, no_box)))"

definition GetEntriesByIds :: "ext \<Rightarrow> UserContext \<Rightarrow> string list \<Rightarrow> (pbEntry list \<times> auditBox) act" where
  "GetEntriesByIds X uc idents =
     (if idents = [] then returnE ([], no_box)
      else if length idents > maxBatchGet then raiseE (invalid_argument (Msg ''too many ids in one batch''))
      else bindE (mapErr invalid_argument (liftE (parseUUIDs X idents))) (\<lambda>ids.
        bindE (mapErr internal (GetEntriesByIDs (uc_UserID uc) ids)) (\<lambda>rows.
        returnE (map (toEntry X) rows,
          if rows = [] then no_box
          else SetAuditMetadata [(''target_ids'', JArray (map (\<lambda>r. JString (uuid_String X (en_id r))) rows))]
                 (SetAuditTarget (en_id (hd rows)) no_box)))))"

definition not_found_entry :: "err \<Rightarrow> err" where
  "not_found_entry e = (if errors_is e NoRows then Connect CodeNotFound (Msg ''entry not found'') else internal e)"

definition GetEntry :: "ext \<Rightarrow> UserContext \<Rightarrow> string \<Rightarrow> (pbEntry \<times> auditBox) act" where
  "GetEntry X uc ident = bindE (parse_entry_id X ident) (\<lambda>i.
     bindE (mapErr not_found_entry (repo_GetEntry i (uc_UserID uc))) (\<lambda>row. returnE (toEntry X row, no_box)))"

definition CreateEntry :: "ext \<Rightarrow> UserContext \<Rightarrow> EntryRequest \<Rightarrow> (pbEntry \<times> auditBox) act" where
  "CreateEntry X uc req = bindE (check_entry X uc req) (\<lambda>params.
     bindE (mapErr (\<lambda>e. if isUniqueViolation e then Connect CodeAlreadyExists (Msg ''entry id already exists'')
                        else internal e) (repo_CreateEntry params)) (\<lambda>row.
     thenE (mapErr internal publish) (returnE (toEntry X row, SetAuditTarget (en_id row) no_box))))"

definition UpdateEntry :: "ext \<Rightarrow> UserContext \<Rightarrow> EntryRequest \<Rightarrow> uint32 \<Rightarrow> (pbEntry \<times> auditBox) act" where
  "UpdateEntry X uc req expected = bindE (check_entry X uc req) (\<lambda>params.
     bindE (mapErr (\<lambda>e. if errors_is e NoRows
                        then Connect CodeFailedPrecondition (Msg ''entry missing or version mismatch'')
                        else internal e) (repo_UpdateEntry params (int32 expected))) (\<lambda>row.
     thenE (mapErr internal publish) (returnE (toEntry X row, SetAuditTarget (en_id row) no_box))))"

definition DeleteEntry :: "ext \<Rightarrow> UserContext \<Rightarrow> string \<Rightarrow> (unit \<times> auditBox) act" where
  "DeleteEntry X uc ident = bindE (parse_entry_id X ident) (\<lambda>i.
     bindE (mapErr internal (repo_DeleteEntry i (uc_UserID uc))) (\<lambda>rows.
     thenE (rejectIf (rows = 0) (Connect CodeNotFound (Msg ''entry not found'')))
     (thenE (mapErr internal publish) (returnE ((), SetAuditTarget i no_box)))))"

definition ToggleFavorite :: "ext \<Rightarrow> UserContext \<Rightarrow> string \<Rightarrow> bool \<Rightarrow> (pbEntry \<times> auditBox) act" where
  "ToggleFavorite X uc ident b = bindE (parse_entry_id X ident) (\<lambda>i.
     bindE (mapErr not_found_entry (repo_ToggleFavorite i (uc_UserID uc) b)) (\<lambda>row.
     thenE (mapErr internal publish) (returnE (toEntry X row, no_box))))"

end
