(* ===== verification/Projects_Service.thy ===== *)
theory Projects_Service
  imports Entries_Service
begin

text \<open>
  The projects service (\<open>internal/api/projects/service.go\<close>), and the requests of both
  services as they reach the database through the interceptors.
\<close>

section \<open>Messages and checks\<close>

record pbProject =
  pj_Id :: string
  pj_EncryptedBlob :: bytes
  pj_WrappedItemKey :: bytes
  pj_NameHash :: bytes
  pj_Version :: uint32
  pj_SortOrder :: int
  pj_CreatedAt :: time
  pj_UpdatedAt :: time

record ProjectRequest =
  jr_Id :: string
  jr_EncryptedBlob :: bytes
  jr_WrappedItemKey :: bytes
  jr_NameHash :: bytes

definition toProject :: "ext \<Rightarrow> Project \<Rightarrow> pbProject" where
  "toProject X r = \<lparr>pj_Id = uuid_String X (pr_id r), pj_EncryptedBlob = pr_encrypted_blob r,
     pj_WrappedItemKey = pr_wrapped_item_key r, pj_NameHash = pr_name_hash r, pj_Version = word_of_int (pr_version r),
     pj_SortOrder = pr_sort_order r, pj_CreatedAt = pr_created_at r, pj_UpdatedAt = pr_updated_at r\<rparr>"

definition projects_validateBlob :: "bytes \<Rightarrow> bytes \<Rightarrow> bytes \<Rightarrow> unit result" where
  "projects_validateBlob blob wrappedKey nameHash =
     (if length blob < 29 then Inl (Msg ''encrypted_blob too short'')
      else if length wrappedKey < 29 then Inl (Msg ''wrapped_item_key too short'')
      else if length nameHash \<noteq> 32 then Inl (Msg ''name_hash must be SHA-256 (32 bytes)'')
      else Inr ())"

definition parse_project_id :: "ext \<Rightarrow> string \<Rightarrow> uuid act" where
  "parse_project_id X s = (case uuid_Parse X s of
     None \<Rightarrow> raiseE (invalid_argument (Msg ''invalid project id'')) | Some i \<Rightarrow> returnE i)"

definition check_project :: "ext \<Rightarrow> UserContext \<Rightarrow> ProjectRequest \<Rightarrow> ProjectParams act" where
  "check_project X uc r =
     bindE (parse_project_id X (jr_Id r)) (\<lambda>i.
     thenE (mapErr invalid_argument
              (liftE (projects_validateBlob (jr_EncryptedBlob r) (jr_WrappedItemKey r) (jr_NameHash r))))
     (returnE \<lparr>pp_ID = i, pp_UserID = uc_UserID uc, pp_EncryptedBlob = jr_EncryptedBlob r,
       pp_WrappedItemKey = jr_WrappedItemKey r, pp_NameHash = jr_NameHash r\<rparr>))"

definition version_mismatch :: err where
  "version_mismatch = Connect CodeFailedPrecondition (Msg ''project missing or version mismatch'')"

section \<open>Handlers\<close>

definition ListProjects :: "ext \<Rightarrow> UserContext \<Rightarrow> (pbProject list \<times> auditBox) act" where
  "ListProjects X uc = bindE (mapErr internal (repo_ListProjects (uc_UserID uc))) (\<lambda>rows.
     returnE (map (toProject X) rows, no_box))"

definition GetProject :: "ext \<Rightarrow> UserContext \<Rightarrow> string \<Rightarrow> (pbProject \<times> auditBox) act" where
  "GetProject X uc ident = bindE (parse_project_id X ident) (\<lambda>i.
     bindE (mapErr (\<lambda>e. if errors_is e NoRows then Connect CodeNotFound (Msg ''project not found'') else internal e)
              (repo_GetProject i (uc_UserID uc))) (\<lambda>row. returnE (toProject X row, no_box)))"

definition CreateProject :: "ext \<Rightarrow> UserContext \<Rightarrow> ProjectRequest \<Rightarrow> int \<Rightarrow> (pbProject \<times> auditBox) act" where
  "CreateProject X uc req sortOrder = bindE (check_project X uc req) (\<lambda>params.
     bindE (mapErr (\<lambda>e. if isUniqueViolation e then Connect CodeAlreadyExists (Msg ''project id already exists'')
                        else internal e) (repo_CreateProject params sortOrder)) (\<lambda>row.
     thenE (mapErr internal publish) (returnE (toProject X row, SetAuditTarget (pr_id row) no_box))))"

definition UpdateProject :: "ext \<Rightarrow> UserContext \<Rightarrow> ProjectRequest \<Rightarrow> uint32 \<Rightarrow> (pbProject \<times> auditBox) act" where
  "UpdateProject X uc req expected = bindE (check_project X uc req) (\<lambda>params.
     bindE (mapErr (\<lambda>e. if errors_is e NoRows then version_mismatch else internal e)
              (repo_UpdateProject params (int32 expected))) (\<lambda>row.
     thenE (mapErr internal publish) (returnE (toProject X row, SetAuditTarget (pr_id row) no_box))))"

definition DeleteProject :: "ext \<Rightarrow> UserContext \<Rightarrow> string \<Rightarrow> uint32 \<Rightarrow> (unit \<times> auditBox) act" where
  "DeleteProject X uc ident expected = bindE (parse_project_id X ident) (\<lambda>i.
     bindE (mapErr internal (repo_DeleteProject i (uc_UserID uc) (int32 expected))) (\<lambda>rows.
     thenE (rejectIf (rows = 0) version_mismatch)
     (thenE (mapErr internal publish) (returnE ((), SetAuditTarget i no_box)))))"

definition maxReorderBatch :: nat where "maxReorderBatch = 500"

text \<open>The loop: the index becomes the new sort order.\<close>

fun reorder_loop :: "ext \<Rightarrow> uuid \<Rightarrow> int \<Rightarrow> string list \<Rightarrow> unit act" where
  "reorder_loop X u i [] = returnE ()"
| "reorder_loop X u i (raw # raws) =
     bindE (parse_project_id X raw) (\<lambda>p.
     thenE (mapErr internal (ReorderProject p u i)) (reorder_loop X u (i + 1) raws))"

definition ReorderProjects :: "ext \<Rightarrow> UserContext \<Rightarrow> string list \<Rightarrow> (unit \<times> auditBox) act" where
  "ReorderProjects X uc ordered =
     thenE (rejectIf (length ordered > maxReorderBatch) (invalid_argument (Msg ''too many ordered_ids'')))
     (thenE (reorder_loop X (uc_UserID uc) 0 ordered)
     (thenE (mapErr internal publish) (returnE ((), no_box))))"

section \<open>Requests\<close>

datatype vault_request =
    RListEntries ListEntriesRequest | RGetEntriesByIds "string list" | RGetEntry string
  | RCreateEntry EntryRequest | RUpdateEntry EntryRequest uint32 | RDeleteEntry string
  | RToggleFavorite string bool
  | RListProjects | RGetProject string | RCreateProject ProjectRequest int
  | RUpdateProject ProjectRequest uint32 | RDeleteProject string uint32 | RReorderProjects "string list"

datatype vault_response =
    SEntryMetas ListEntriesResponse | SEntries "pbEntry list" | SEntry pbEntry
  | SProjects "pbProject list" | SProject pbProject | SEmpty

definition reply :: "('a \<Rightarrow> 'b) \<Rightarrow> ('a \<times> auditBox) act \<Rightarrow> ('b \<times> auditBox) act" where
  "reply f m = bindE m (\<lambda>(x, box). returnE (f x, box))"

fun vault_procedure :: "vault_request \<Rightarrow> string" where
  "vault_procedure (RListEntries _) = ''/oblivio.v1.EntriesService/ListEntries''"
| "vault_procedure (RGetEntriesByIds _) = ''/oblivio.v1.EntriesService/GetEntriesByIds''"
| "vault_procedure (RGetEntry _) = ''/oblivio.v1.EntriesService/GetEntry''"
| "vault_procedure (RCreateEntry _) = ''/oblivio.v1.EntriesService/CreateEntry''"
| "vault_procedure (RUpdateEntry _ _) = ''/oblivio.v1.EntriesService/UpdateEntry''"
| "vault_procedure (RDeleteEntry _) = ''/oblivio.v1.EntriesService/DeleteEntry''"
| "vault_procedure (RToggleFavorite _ _) = ''/oblivio.v1.EntriesService/ToggleFavorite''"
| "vault_procedure RListProjects = ''/oblivio.v1.ProjectsService/ListProjects''"
| "vault_procedure (RGetProject _) = ''/oblivio.v1.ProjectsService/GetProject''"
| "vault_procedure (RCreateProject _ _) = ''/oblivio.v1.ProjectsService/CreateProject''"
| "vault_procedure (RUpdateProject _ _) = ''/oblivio.v1.ProjectsService/UpdateProject''"
| "vault_procedure (RDeleteProject _ _) = ''/oblivio.v1.ProjectsService/DeleteProject''"
| "vault_procedure (RReorderProjects _) = ''/oblivio.v1.ProjectsService/ReorderProjects''"

fun vault_handler :: "ext \<Rightarrow> UserContext \<Rightarrow> vault_request \<Rightarrow> (vault_response \<times> auditBox) act" where
  "vault_handler X uc (RListEntries r) = reply SEntryMetas (ListEntries X uc r)"
| "vault_handler X uc (RGetEntriesByIds is) = reply SEntries (GetEntriesByIds X uc is)"
| "vault_handler X uc (RGetEntry i) = reply SEntry (GetEntry X uc i)"
| "vault_handler X uc (RCreateEntry r) = reply SEntry (CreateEntry X uc r)"
| "vault_handler X uc (RUpdateEntry r v) = reply SEntry (UpdateEntry X uc r v)"
| "vault_handler X uc (RDeleteEntry i) = reply (\<lambda>_. SEmpty) (DeleteEntry X uc i)"
| "vault_handler X uc (RToggleFavorite i b) = reply SEntry (ToggleFavorite X uc i b)"
| "vault_handler X uc RListProjects = reply SProjects (ListProjects X uc)"
| "vault_handler X uc (RGetProject i) = reply SProject (GetProject X uc i)"
| "vault_handler X uc (RCreateProject r so) = reply SProject (CreateProject X uc r so)"
| "vault_handler X uc (RUpdateProject r v) = reply SProject (UpdateProject X uc r v)"
| "vault_handler X uc (RDeleteProject i v) = reply (\<lambda>_. SEmpty) (DeleteProject X uc i v)"
| "vault_handler X uc (RReorderProjects is) = reply (\<lambda>_. SEmpty) (ReorderProjects X uc is)"

definition vault_serve :: "ext \<Rightarrow> string \<Rightarrow> UserContext \<Rightarrow> vault_request \<Rightarrow> vault_response act" where
  "vault_serve X userAgent uc req =
     common_interceptors X (vault_procedure req) userAgent (Some uc) (vault_handler X uc req)"

end
