(* ===== verification/Vault_Requests.thy ===== *)
theory Vault_Requests
  imports Projects_Service
begin

text \<open>
  Invariants of the requests of the entries and projects services.  The interface
  \<open>vault_invariant\<close> asks for each statement of the two repositories that it keeps a
  predicate on the database, and gives that every request keeps it, through the checks of
  the handlers and the interceptors and whichever statements fail.
\<close>

section \<open>Checked parameters\<close>

definition entry_checked :: "uuid \<Rightarrow> EntryParams \<Rightarrow> bool" where
  "entry_checked u a \<longleftrightarrow> ep_UserID a = u
     \<and> validateBlob (ep_EncryptedBlob a) (ep_WrappedItemKey a) (ep_TitleHash a) = Inr ()"

definition project_checked :: "uuid \<Rightarrow> ProjectParams \<Rightarrow> bool" where
  "project_checked u a \<longleftrightarrow> pp_UserID a = u
     \<and> projects_validateBlob (pp_EncryptedBlob a) (pp_WrappedItemKey a) (pp_NameHash a) = Inr ()"

lemma check_entry_cases:
  "check_entry X uc r w = (res, w') \<Longrightarrow> w' = w \<and> (case res of Inl e \<Rightarrow> True
     | Inr a \<Rightarrow> entry_checked (uc_UserID uc) a \<and> uuid_Parse X (er_Id r) = Some (ep_ID a))"
  by (auto simp: check_entry_def parse_entry_id_def entry_checked_def thenE_def bindE_def mapErr_def liftE_def
        returnE_def raiseE_def split: option.splits sum.splits)

lemma check_project_cases:
  "check_project X uc r w = (res, w') \<Longrightarrow> w' = w \<and> (case res of Inl e \<Rightarrow> True
     | Inr a \<Rightarrow> project_checked (uc_UserID uc) a \<and> uuid_Parse X (jr_Id r) = Some (pp_ID a))"
  by (auto simp: check_project_def parse_project_id_def project_checked_def thenE_def bindE_def mapErr_def liftE_def
        returnE_def raiseE_def split: option.splits sum.splits)

lemma keeps_after_check:
  "(\<And>a. entry_checked (uc_UserID uc) a \<Longrightarrow> keeps I (f a)) \<Longrightarrow> keeps I (bindE (check_entry X uc r) f)"
  "(\<And>a. project_checked (uc_UserID uc) a \<Longrightarrow> keeps I (h a)) \<Longrightarrow> keeps I (bindE (check_project X uc q) h)"
  by (fastforce simp: keeps_def bindE_def dest: check_entry_cases check_project_cases split: prod.splits sum.splits)+

lemma keeps_after_parse:
  "(\<And>i. uuid_Parse X s = Some i \<Longrightarrow> keeps I (f i)) \<Longrightarrow> keeps I (bindE (parse_entry_id X s) f)"
  "(\<And>i. uuid_Parse X s = Some i \<Longrightarrow> keeps I (f i)) \<Longrightarrow> keeps I (bindE (parse_project_id X s) f)"
  by (auto simp: keeps_def bindE_def parse_entry_id_def parse_project_id_def returnE_def raiseE_def split: option.splits)

section \<open>The interface\<close>

locale vault_invariant = request_invariant P
  for P :: "(nat \<Rightarrow> uuid) \<Rightarrow> nat \<Rightarrow> db \<Rightarrow> bool" +
  fixes X :: ext and u :: uuid and allowed :: "vault_request \<Rightarrow> bool"
  assumes create_entry: "entry_checked u a \<Longrightarrow> keeps (db_inv P) (repo_CreateEntry a)"
    and update_entry: "entry_checked u a \<Longrightarrow> keeps (db_inv P) (repo_UpdateEntry a v)"
    and delete_entry: "allowed (RDeleteEntry s) \<Longrightarrow> uuid_Parse X s = Some i \<Longrightarrow> keeps (db_inv P) (repo_DeleteEntry i u)"
    and toggle_favorite: "keeps (db_inv P) (repo_ToggleFavorite i u b)"
    and create_project: "project_checked u q \<Longrightarrow> keeps (db_inv P) (repo_CreateProject q so)"
    and update_project: "project_checked u q \<Longrightarrow> keeps (db_inv P) (repo_UpdateProject q v)"
    and delete_project: "allowed (RDeleteProject s n) \<Longrightarrow> uuid_Parse X s = Some i
      \<Longrightarrow> keeps (db_inv P) (repo_DeleteProject i u (int32 n))"
    and reorder_project: "keeps (db_inv P) (ReorderProject i u so)"
begin

lemma keeps_reads:
  "keeps (db_inv P) (ListEntries X uc r)" "keeps (db_inv P) (GetEntriesByIds X uc ids)"
  "keeps (db_inv P) (GetEntry X uc s)" "keeps (db_inv P) (ListProjects X uc)" "keeps (db_inv P) (GetProject X uc s)"
  unfolding ListEntries_def GetEntriesByIds_def GetEntry_def ListProjects_def GetProject_def
    repo_ListEntries_def GetEntriesByIDs_def repo_GetEntry_def repo_ListProjects_def repo_GetProject_def
    parse_entry_id_def parse_project_id_def
  by (intro keeps_request)+

lemma keeps_reorder_loop: "keeps (db_inv P) (reorder_loop X u n is)"
proof (induction "is" arbitrary: n)
  case (Cons s "is")
  then show ?case by (auto intro!: keeps_after_parse keeps_request reorder_project)
qed (simp add: keeps_returnE)

lemma keeps_writes:
  assumes "uc_UserID uc = u"
  shows "keeps (db_inv P) (CreateEntry X uc r)" and "keeps (db_inv P) (UpdateEntry X uc r v)"
    and "keeps (db_inv P) (ToggleFavorite X uc s b)" and "keeps (db_inv P) (CreateProject X uc q so)"
    and "keeps (db_inv P) (UpdateProject X uc q v)" and "keeps (db_inv P) (ReorderProjects X uc is)"
    and "allowed (RDeleteEntry s) \<Longrightarrow> keeps (db_inv P) (DeleteEntry X uc s)"
    and "allowed (RDeleteProject s v) \<Longrightarrow> keeps (db_inv P) (DeleteProject X uc s v)"
  unfolding CreateEntry_def UpdateEntry_def ToggleFavorite_def CreateProject_def UpdateProject_def
    ReorderProjects_def DeleteEntry_def DeleteProject_def
  by (intro keeps_after_check keeps_after_parse keeps_request, auto simp: assms
        intro: create_entry update_entry toggle_favorite create_project update_project keeps_reorder_loop
          delete_entry delete_project)+

lemma keeps_vault_serve:
  assumes "uc_UserID uc = u" and "allowed req"
  shows "keeps (db_inv P) (vault_serve X ua uc req)"
  unfolding vault_serve_def using assms
  by (intro keeps_common_interceptors, cases req)
     (auto simp: reply_def intro!: keeps_request keeps_reads keeps_writes)

lemma vault_serve_inv:
  assumes "uc_UserID uc = u" and "allowed req" and "idle w" and "P us p (w_db w)"
  shows "P us p (w_db (snd (vault_serve X ua uc req w)))"
proof -
  have "db_inv P w" using assms(3,4) by (auto simp: db_inv_def idle_def intro: same_uuids)
  then have "db_inv P (snd (vault_serve X ua uc req w))"
    using keeps_vault_serve [OF assms(1,2)] by (simp add: keeps_def)
  then show ?thesis by (auto simp: db_inv_def intro: same_uuids)
qed

end

section \<open>The connection of a request\<close>

lemmas repo_vault_defs = repo_CreateEntry_def repo_UpdateEntry_def repo_DeleteEntry_def repo_ToggleFavorite_def
  repo_CreateProject_def repo_UpdateProject_def repo_DeleteProject_def ReorderProject_def repo_ListEntries_def
  GetEntriesByIDs_def repo_GetEntry_def repo_ListProjects_def repo_GetProject_def

lemmas vault_handler_defs = ListEntries_def GetEntriesByIds_def GetEntry_def ListProjects_def GetProject_def
  CreateEntry_def UpdateEntry_def ToggleFavorite_def CreateProject_def UpdateProject_def ReorderProjects_def
  DeleteEntry_def DeleteProject_def

context connection_invariant
begin

lemma keeps_pure: "keeps I (liftE r)" "keeps I publish"
  unfolding publish_def by (simp add: keeps_def liftE_def) (intro keeps_any keeps_any_stmt)

lemma keeps_repo_vault:
  "keeps I (repo_CreateEntry a)" "keeps I (repo_UpdateEntry a v)" "keeps I (repo_DeleteEntry i u)"
  "keeps I (repo_ToggleFavorite i u b)" "keeps I (repo_CreateProject q so)" "keeps I (repo_UpdateProject q v)"
  "keeps I (repo_DeleteProject i u v)" "keeps I (ReorderProject i u so)" "keeps I (repo_ListEntries l)"
  "keeps I (GetEntriesByIDs u ids)" "keeps I (repo_GetEntry i u)" "keeps I (repo_ListProjects u)"
  "keeps I (repo_GetProject i u)"
  unfolding repo_vault_defs by (intro keeps_any_table)+

lemma keeps_any_reorder_loop: "keeps I (reorder_loop X u n is)"
proof (induction "is" arbitrary: n)
  case (Cons s "is")
  then show ?case by (auto intro!: keeps_after_parse keeps_any keeps_repo_vault)
qed (simp add: keeps_returnE)

lemma keeps_vault_handler: "keeps I (vault_handler X uc req)"
  by (cases req)
     (auto simp: reply_def vault_handler_defs
       intro!: keeps_after_check keeps_after_parse keeps_any keeps_pure keeps_repo_vault keeps_any_reorder_loop)

end

lemma vault_serve_idle: "idle w \<Longrightarrow> idle (snd (vault_serve X ua uc req w))"
  unfolding vault_serve_def by (intro idle_common_interceptors tx.keeps_vault_handler)

lemma vault_serve_outcome:
  "vault_serve X ua uc req w = (r, w') \<Longrightarrow> request_outcome (vault_handler X uc req) (uc_UserID uc) w r w'"
  unfolding vault_serve_def by (rule request_outcomeI [OF tx_at.keeps_vault_handler])

lemma vault_serve_calm:
  assumes "calm w" and "vault_handler X uc req (tx_start False (Some (uc_UserID uc)) [] w) = (Inr (x, box), w1)"
  shows "\<exists>w'. vault_serve X ua uc req w = (Inr x, w') \<and> calm w' \<and> no_audit (w_db w') = no_audit (w_db w1)"
  using request_succeeds [OF assms(1) calm.keeps_vault_handler tx.keeps_vault_handler assms(2)]
  unfolding vault_serve_def by (metis prod.collapse)

lemma vault_serve_succeeds:
  "calm w \<Longrightarrow> vault_handler X uc req (tx_start False (Some (uc_UserID uc)) [] w) = (Inr (x, box), w1)
     \<Longrightarrow> fst (vault_serve X ua uc req w) = Inr x"
  using vault_serve_calm by (metis fst_conv)

section \<open>Concrete rows\<close>

definition demo_uc :: "uuid \<Rightarrow> UserContext" where
  "demo_uc u = \<lparr>uc_UserID = u, uc_SessionID = 90, uc_DeviceID = ''dev'', uc_AccessToken = ''t''\<rparr>"

definition demo_entry :: "uuid \<Rightarrow> uuid \<Rightarrow> uuid option \<Rightarrow> Entry" where
  "demo_entry i u p = \<lparr>en_id = i, en_user_id = u, en_project_id = p, en_kind = EntryKindLogin,
     en_encrypted_blob = replicate 30 CHR ''b'', en_wrapped_item_key = replicate 30 CHR ''k'',
     en_title_hash = replicate 32 CHR ''h'', en_domain_hash = None, en_has_totp = False, en_is_favorite = False,
     en_version = 1, en_created_at = 0, en_updated_at = 0\<rparr>"

definition demo_project :: "uuid \<Rightarrow> uuid \<Rightarrow> Project" where
  "demo_project i u = \<lparr>pr_id = i, pr_user_id = u, pr_encrypted_blob = replicate 30 CHR ''b'',
     pr_wrapped_item_key = replicate 30 CHR ''k'', pr_name_hash = replicate 32 CHR ''h'', pr_version = 1,
     pr_sort_order = 0, pr_created_at = 0, pr_updated_at = 0\<rparr>"

text \<open>Users 1 and 2; user 2 has the project 65 and an entry 66 in it, user 1 a project 67.
  The texts \<open>A\<close>, \<open>B\<close>, \<open>C\<close> are the identifiers 65, 66 and 67 of the concrete instance.\<close>

definition demo_vault :: world where
  "demo_vault = demo_world\<lparr>w_db := empty_db\<lparr>users := [demo_user, demo_user\<lparr>us_id := 2, us_email := ''c@d''\<rparr>],
     entries := [demo_entry 66 2 (Some 65)], projects := [demo_project 65 2, demo_project 67 1]\<rparr>\<rparr>"

definition demo_entry_request :: "string \<Rightarrow> string option \<Rightarrow> EntryRequest" where
  "demo_entry_request i p = \<lparr>er_Id = i, er_ProjectId = p, er_Kind = 1, er_EncryptedBlob = replicate 29 CHR ''x'',
     er_WrappedItemKey = replicate 29 CHR ''y'', er_TitleHash = replicate 32 CHR ''z'', er_DomainHash = [],
     er_HasTotp = False, er_IsFavorite = True\<rparr>"

lemma idle_demo_vault: "idle demo_vault"
  by (simp add: demo_vault_def demo_world_def idle_def)

end
