(* ===== verification/Vault_Isolation.thy ===== *)
theory Vault_Isolation
  imports Vault_Requests
begin

text \<open>
  Tenant isolation of the entries and projects services: what a request of one user can do
  to the rows of others, and what it can learn about them.
\<close>

section \<open>Rows of others are not changed\<close>

definition foreign_entries :: "uuid \<Rightarrow> db \<Rightarrow> Entry list" where
  "foreign_entries u d = filter (\<lambda>r. en_user_id r \<noteq> u) (entries d)"

definition foreign_projects :: "uuid \<Rightarrow> db \<Rightarrow> Project list" where
  "foreign_projects u d = filter (\<lambda>r. pr_user_id r \<noteq> u) (projects d)"

text \<open>An entry up to the project it is filed under.\<close>

definition unfiled :: "Entry \<Rightarrow> Entry" where
  "unfiled e = e\<lparr>en_project_id := None\<rparr>"

definition foreign_ok :: "uuid \<Rightarrow> (Entry \<Rightarrow> Entry) \<Rightarrow> Entry list \<Rightarrow> Project list \<Rightarrow> (nat \<Rightarrow> uuid) \<Rightarrow> nat \<Rightarrow> db \<Rightarrow> bool" where
  "foreign_ok u g E J us p d \<longleftrightarrow> map g (foreign_entries u d) = E \<and> foreign_projects u d = J"

lemmas foreign_defs = foreign_ok_def foreign_entries_def foreign_projects_def

interpretation iso_base: request_invariant "foreign_ok u g E J"
  by unfold_locales (simp_all add: foreign_defs)

lemma updated_owner [simp]:
  "en_user_id (updated_entry a t r) = en_user_id r" "pr_user_id (updated_project b t q) = pr_user_id q"
  by (simp_all add: updated_entry_def updated_project_def)

lemma foreign_frame:
  "filter (\<lambda>r. en_user_id r \<noteq> u) (upd_where (\<lambda>r. own_entry w i u r \<and> c r) (updated_entry a t) rows)
     = filter (\<lambda>r. en_user_id r \<noteq> u) rows"
  "filter (\<lambda>r. en_user_id r \<noteq> u) (upd_where (own_entry w i u) (\<lambda>r. r\<lparr>en_is_favorite := b, en_updated_at := t\<rparr>) rows)
     = filter (\<lambda>r. en_user_id r \<noteq> u) rows"
  "filter (\<lambda>r. en_user_id r \<noteq> u) (del_where (own_entry w i u) rows) = filter (\<lambda>r. en_user_id r \<noteq> u) rows"
  "filter (\<lambda>r. pr_user_id r \<noteq> u) (upd_where (\<lambda>r. own_project w i u r \<and> e r) (updated_project a' t) prows)
     = filter (\<lambda>r. pr_user_id r \<noteq> u) prows"
  "filter (\<lambda>r. pr_user_id r \<noteq> u) (upd_where (own_project w i u) (\<lambda>r. r\<lparr>pr_sort_order := so, pr_updated_at := t\<rparr>) prows)
     = filter (\<lambda>r. pr_user_id r \<noteq> u) prows"
  "filter (\<lambda>r. pr_user_id r \<noteq> u) (del_where (\<lambda>r. own_project w i u r \<and> e r) prows)
     = filter (\<lambda>r. pr_user_id r \<noteq> u) prows"
  by (rule filter_upd_where_frame filter_del_where_frame; simp add: own_entry_def own_project_def)+

lemma foreign_entry_writes:
  "entry_checked u a \<Longrightarrow> keeps (db_inv (foreign_ok u g E J)) (repo_CreateEntry a)"
  "entry_checked u a \<Longrightarrow> keeps (db_inv (foreign_ok u g E J)) (repo_UpdateEntry a v)"
  "keeps (db_inv (foreign_ok u g E J)) (repo_DeleteEntry i u)"
  "keeps (db_inv (foreign_ok u g E J)) (repo_ToggleFavorite i u b)"
  unfolding repo_CreateEntry_def repo_UpdateEntry_def repo_DeleteEntry_def repo_ToggleFavorite_def
  by (rule iso_base.keeps_dml;
      auto simp: foreign_defs entry_checked_def Let_def foreign_frame split: if_splits option.splits)+

lemma foreign_project_writes:
  "project_checked u q \<Longrightarrow> keeps (db_inv (foreign_ok u g E J)) (repo_CreateProject q so)"
  "project_checked u q \<Longrightarrow> keeps (db_inv (foreign_ok u g E J)) (repo_UpdateProject q v)"
  unfolding repo_CreateProject_def repo_UpdateProject_def
  by (rule iso_base.keeps_dml;
      auto simp: foreign_defs project_checked_def Let_def foreign_frame split: if_splits option.splits)+

lemma foreign_reorder: "keeps (db_inv (foreign_ok u g E J)) (ReorderProject i u so)"
  unfolding ReorderProject_def by (rule iso_base.keeps_exec) (simp add: foreign_defs foreign_frame)

lemma map_unfiled_upd_where:
  "map unfiled (filter q (upd_where p (\<lambda>e. e\<lparr>en_project_id := None\<rparr>) rows)) = map unfiled (filter q rows)"
  if "\<And>e. q (e\<lparr>en_project_id := None\<rparr>) = q e"
  by (induction rows) (auto simp: upd_where_def unfiled_def that)

lemma foreign_delete_project: "keeps (db_inv (foreign_ok u unfiled E J)) (repo_DeleteProject i u v)"
  unfolding repo_DeleteProject_def
  by (rule iso_base.keeps_dml) (auto simp: foreign_defs Let_def map_unfiled_upd_where foreign_frame)

text \<open>Every request keeps the foreign rows up to the project of foreign entries; every request but
  the deletion of a project keeps them as they are.\<close>

fun deletes_project :: "vault_request \<Rightarrow> bool" where
  "deletes_project (RDeleteProject _ _) = True"
| "deletes_project _ = False"

interpretation iso: vault_invariant "foreign_ok u g E J" X u "\<lambda>req. \<not> deletes_project req"
  by unfold_locales (simp_all add: foreign_entry_writes foreign_project_writes foreign_reorder)

interpretation iso_del: vault_invariant "foreign_ok u unfiled E J" X u "\<lambda>req. True"
  by unfold_locales (simp_all add: foreign_entry_writes foreign_project_writes foreign_reorder foreign_delete_project)

section \<open>Sequences of requests\<close>

type_synonym vault_call = "string \<times> UserContext \<times> vault_request"

definition vault_call :: "ext \<Rightarrow> vault_call \<Rightarrow> vault_response act" where
  "vault_call X q = (case q of (ua, uc, req) \<Rightarrow> vault_serve X ua uc req)"

definition caller :: "vault_call \<Rightarrow> uuid" where
  "caller q = uc_UserID (fst (snd q))"

fun serve_all :: "ext \<Rightarrow> vault_call list \<Rightarrow> world \<Rightarrow> world" where
  "serve_all X [] w = w"
| "serve_all X (q # qs) w = serve_all X qs (snd (vault_call X q w))"

lemma vault_call_idle: "idle w \<Longrightarrow> idle (snd (vault_call X q w))"
  by (simp add: vault_call_def vault_serve_idle split: prod.split)

definition entries_of :: "uuid \<Rightarrow> db \<Rightarrow> Entry list" where
  "entries_of v d = filter (\<lambda>r. en_user_id r = v) (entries d)"

definition projects_of :: "uuid \<Rightarrow> db \<Rightarrow> Project list" where
  "projects_of v d = filter (\<lambda>r. pr_user_id r = v) (projects d)"

lemma filter_foreign:
  "u \<noteq> v \<Longrightarrow> projects_of v d = filter (\<lambda>r. pr_user_id r = v) (foreign_projects u d)"
  "u \<noteq> v \<Longrightarrow> entries_of v d = filter (\<lambda>r. en_user_id r = v) (foreign_entries u d)"
  "u \<noteq> v \<Longrightarrow> map unfiled (entries_of v d) = filter (\<lambda>r. en_user_id r = v) (map unfiled (foreign_entries u d))"
  by (auto simp: projects_of_def foreign_projects_def entries_of_def foreign_entries_def unfiled_def filter_map comp_def
        intro!: filter_cong arg_cong [where f = "map _"])

lemma call_isolated:
  assumes "idle w" and "caller q \<noteq> v" and w'_def: "w' = snd (vault_call X q w)"
  shows "projects_of v (w_db w') = projects_of v (w_db w)"
    and "map unfiled (entries_of v (w_db w')) = map unfiled (entries_of v (w_db w))"
    and "\<not> deletes_project (snd (snd q)) \<Longrightarrow> entries_of v (w_db w') = entries_of v (w_db w)"
proof -
  obtain ua uc req where q: "q = (ua, uc, req)" by (cases q)
  let ?u = "uc_UserID uc"
  have "foreign_ok ?u unfiled (map unfiled (foreign_entries ?u (w_db w))) (foreign_projects ?u (w_db w)) us p (w_db w')" for us p
    unfolding w'_def q vault_call_def split
    using assms(1) by (intro iso_del.vault_serve_inv) (simp_all add: foreign_ok_def)
  then show "projects_of v (w_db w') = projects_of v (w_db w)"
    and "map unfiled (entries_of v (w_db w')) = map unfiled (entries_of v (w_db w))"
    using assms(2) by (simp_all add: caller_def q filter_foreign(1,3) [of ?u] foreign_ok_def)
  assume "\<not> deletes_project (snd (snd q))"
  then have "foreign_ok ?u id (foreign_entries ?u (w_db w)) (foreign_projects ?u (w_db w)) us p (w_db w')" for us p
    unfolding w'_def q vault_call_def split
    using assms(1) by (intro iso.vault_serve_inv) (simp_all add: foreign_ok_def)
  then show "entries_of v (w_db w') = entries_of v (w_db w)"
    using assms(2) by (simp add: caller_def q filter_foreign(2) [of ?u] foreign_ok_def)
qed

text \<open>C23. Tenant isolation of writes: whatever requests of the entries and projects services other
  users send, and whichever statements fail, the projects of a user stay exactly as they are, and so
  do the entries, except that an entry may lose its reference to a project; that happens only when
  one of the requests deletes a project.\<close>

theorem tenant_isolation:
  assumes "idle w" and "\<forall>q \<in> set qs. caller q \<noteq> v"
  shows "projects_of v (w_db (serve_all X qs w)) = projects_of v (w_db w)
     \<and> map unfiled (entries_of v (w_db (serve_all X qs w))) = map unfiled (entries_of v (w_db w))
     \<and> ((\<forall>q \<in> set qs. \<not> deletes_project (snd (snd q))) \<longrightarrow>
          entries_of v (w_db (serve_all X qs w)) = entries_of v (w_db w))"
  using assms
  by (induction qs arbitrary: w) (auto simp: call_isolated [OF _ _ refl] vault_call_idle)

theorem tenant_isolation_witness:
  "entries_of 2 (w_db (serve_all demo_ext
     [('''', demo_uc 1, RDeleteEntry ''B''), ('''', demo_uc 1, RUpdateEntry (demo_entry_request ''B'' None) 1)] demo_vault))
   = [demo_entry 66 2 (Some 65)]"
  using tenant_isolation [OF idle_demo_vault, where v = 2 and X = demo_ext and
      qs = "[('''', demo_uc 1, RDeleteEntry ''B''), ('''', demo_uc 1, RUpdateEntry (demo_entry_request ''B'' None) 1)]"]
  by (simp add: caller_def demo_uc_def demo_vault_def demo_world_def entries_of_def demo_entry_def)

section \<open>Rows of others are not seen\<close>

definition own_rows :: "uuid \<Rightarrow> db \<Rightarrow> db" where
  "own_rows u d = d\<lparr>entries := entries_of u d, projects := projects_of u d\<rparr>"

definition own_world :: "uuid \<Rightarrow> world \<Rightarrow> world" where
  "own_world u w = w\<lparr>w_db := own_rows u (w_db w), w_tx := map_option (own_rows u) (w_tx w)\<rparr>"

text \<open>An action that behaves the same when the foreign rows are taken away.\<close>

definition sees_own :: "uuid \<Rightarrow> 'a act \<Rightarrow> bool" where
  "sees_own u m \<longleftrightarrow> (\<forall>w. m (own_world u w) = apsnd (own_world u) (m w))"

lemma own_world_simps [simp]:
  "w_faults (own_world u w) = w_faults w" "w_now (own_world u w) = w_now w" "w_user (own_world u w) = w_user w"
  "w_bypass (own_world u w) = w_bypass w" "w_db (own_world u w) = own_rows u (w_db w)"
  "w_tx (own_world u w) = map_option (own_rows u) (w_tx w)"
  "own_world u (w\<lparr>w_faults := fs\<rparr>) = (own_world u w)\<lparr>w_faults := fs\<rparr>"
  "own_world u (w\<lparr>w_user := v\<rparr>) = (own_world u w)\<lparr>w_user := v\<rparr>"
  "own_world u (w\<lparr>w_bypass := b\<rparr>) = (own_world u w)\<lparr>w_bypass := b\<rparr>"
  "own_world u (w\<lparr>w_db := d\<rparr>) = (own_world u w)\<lparr>w_db := own_rows u d\<rparr>"
  "own_world u (w\<lparr>w_tx := t\<rparr>) = (own_world u w)\<lparr>w_tx := map_option (own_rows u) t\<rparr>"
  by (simp_all add: own_world_def)

lemma sees_basic:
  "sees_own u (returnE x)" "sees_own u (raiseE e)" "sees_own u (liftE r)" "sees_own u (rejectIf c e)"
  by (simp_all add: sees_own_def returnE_def raiseE_def liftE_def rejectIf_def)

lemma sees_bindE: "sees_own u m \<Longrightarrow> (\<And>x. sees_own u (f x)) \<Longrightarrow> sees_own u (bindE m f)"
  by (auto simp: sees_own_def bindE_def split: prod.split sum.split)

lemma sees_thenE: "sees_own u m \<Longrightarrow> sees_own u n \<Longrightarrow> sees_own u (thenE m n)"
  by (simp add: thenE_def sees_bindE)

lemma sees_mapErr: "sees_own u m \<Longrightarrow> sees_own u (mapErr h m)"
  by (auto simp: sees_own_def mapErr_def split: prod.split sum.split)

lemma sees_tryE: "sees_own u m \<Longrightarrow> sees_own u (tryE m)"
  by (auto simp: sees_own_def tryE_def split: prod.split)

lemma sees_stmt:
  assumes "sees_own u f"
  shows "sees_own u (stmt f)"
proof -
  have "f ((own_world u w)\<lparr>w_faults := fs\<rparr>) = apsnd (own_world u) (f (w\<lparr>w_faults := fs\<rparr>))" for w fs
    using assms by (metis own_world_simps(7) sees_own_def)
  then show ?thesis using assms by (simp add: sees_own_def stmt_def split: list.split fault.split)
qed

lemma sees_query: "(\<And>w. f (own_world u w) = f w) \<Longrightarrow> sees_own u (query f)"
  unfolding query_def by (rule sees_stmt) (simp add: sees_own_def getsE_def)

lemma sees_queryRow: "(\<And>w. f (own_world u w) = f w) \<Longrightarrow> sees_own u (queryRow f)"
  unfolding queryRow_def by (rule sees_stmt) (simp add: sees_own_def split: option.split)

lemma sees_tx: "sees_own u BeginTx" "sees_own u set_bypass" "sees_own u (set_current_user v)" "sees_own u Commit"
  unfolding BeginTx_def set_bypass_def set_current_user_def Commit_def
  by (intro sees_thenE sees_stmt sees_basic; simp add: sees_own_def)+

lemma sees_defer_rollback: "sees_own u m \<Longrightarrow> sees_own u (defer_rollback m)"
  by (auto simp: sees_own_def defer_rollback_def Rollback_def split: prod.split option.split)

lemma sees_cases:
  "sees_own u m \<Longrightarrow> (\<And>x. sees_own u (f x)) \<Longrightarrow> sees_own u (case y of None \<Rightarrow> m | Some x \<Rightarrow> f x)"
  "(\<And>a b. sees_own u (g a b)) \<Longrightarrow> sees_own u (case z of (a, b) \<Rightarrow> g a b)"
  "sees_own u m \<Longrightarrow> sees_own u n \<Longrightarrow> sees_own u (if c then m else n)"
  by (simp_all split: option.split prod.split)

lemmas sees_intros = sees_basic sees_bindE sees_thenE sees_mapErr sees_tryE sees_tx sees_defer_rollback sees_cases

lemma own_rows_audit:
  "own_rows u (d\<lparr>audit_log := a\<rparr>) = (own_rows u d)\<lparr>audit_log := a\<rparr>"
  "own_rows u (d\<lparr>system_state := s\<rparr>) = (own_rows u d)\<lparr>system_state := s\<rparr>"
  "audit_log (own_rows u d) = audit_log d" "system_state (own_rows u d) = system_state d"
  by (simp_all add: own_rows_def entries_of_def projects_of_def)

lemma sees_AppendOrLog: "sees_own u (AppendOrLog X ev)"
proof -
  have "sees_own u (insert_audit_log row)" for row
    unfolding insert_audit_log_def
    by (rule sees_stmt) (simp add: sees_own_def Let_def own_world_def own_rows_audit)
  moreover have "sees_own u (update_chain_head v)" for v
    unfolding update_chain_head_def exec_def by (rule sees_stmt) (simp add: sees_own_def own_rows_audit)
  moreover have "sees_own u (select_system_value k)" for k
    unfolding select_system_value_def by (rule sees_queryRow) (simp add: own_rows_audit)
  moreover have "sees_own u now" by (simp add: sees_own_def now_def getsE_def)
  ultimately show ?thesis
    unfolding AppendOrLog_def Append_def Let_def by (intro sees_intros)
qed

lemma own_rows_merge:
  "no_audit t = no_audit b \<Longrightarrow> own_rows u (merge_tables b m t) = merge_tables (own_rows u b) (own_rows u m) (own_rows u t)"
  by (cases b, cases m, cases t)
     (simp add: no_audit_def own_rows_def merge_tables_def theirs_or_mine_def entries_of_def projects_of_def)

lemma sees_on_pool_AppendOrLog: "sees_own u (on_pool (AppendOrLog X ev))"
  unfolding sees_own_def
proof
  fix w
  show "on_pool (AppendOrLog X ev) (own_world u w) = apsnd (own_world u) (on_pool (AppendOrLog X ev) w)"
  proof (cases "w_tx w")
    case None
    then show ?thesis using sees_AppendOrLog by (simp add: on_pool_def sees_own_def)
  next
    case (Some d)
    let ?w = "w\<lparr>w_db := d, w_tx := None, w_bypass := False, w_user := None\<rparr>"
    obtain r w1 where run: "AppendOrLog X ev ?w = (r, w1)" by fastforce
    have "AppendOrLog X ev (own_world u ?w) = (r, own_world u w1)"
      using sees_AppendOrLog [of u X ev] run by (simp add: sees_own_def del: own_world_simps)
    moreover have "no_audit (w_db w1) = no_audit d"
      using AppendOrLog_frame [of ?w X ev] run by simp
    ultimately show ?thesis using Some run by (simp add: on_pool_def own_rows_merge)
  qed
qed

text \<open>The requests that only read.\<close>

fun reads_only :: "vault_request \<Rightarrow> bool" where
  "reads_only (RListEntries _) = True"
| "reads_only (RGetEntriesByIds _) = True"
| "reads_only (RGetEntry _) = True"
| "reads_only RListProjects = True"
| "reads_only (RGetProject _) = True"
| "reads_only _ = False"

lemma find_filter_absorb:
  "(\<And>x. p x \<Longrightarrow> q x) \<Longrightarrow> List.find p (filter q xs) = List.find p xs"
  by (induction xs) auto

lemma filter_filter_absorb:
  "(\<And>x. p x \<Longrightarrow> q x) \<Longrightarrow> filter p (filter q xs) = filter p xs"
  by (induction xs) auto

lemma own_rows_tables:
  "entries (own_rows u d) = filter (\<lambda>r. en_user_id r = u) (entries d)"
  "projects (own_rows u d) = filter (\<lambda>r. pr_user_id r = u) (projects d)"
  by (simp_all add: own_rows_def entries_of_def projects_of_def)

lemma visible_own [simp]:
  "rls_visible (own_world u w) = rls_visible w" "own_entry (own_world u w) = own_entry w"
  "own_project (own_world u w) = own_project w"
  by (simp_all add: fun_eq_iff rls_visible_def own_entry_def own_project_def)

lemma sees_repo_reads:
  "lp_UserID a = u \<Longrightarrow> sees_own u (repo_ListEntries a)" "sees_own u (GetEntriesByIDs u ids)"
  "sees_own u (repo_GetEntry i u)" "sees_own u (repo_ListProjects u)" "sees_own u (repo_GetProject i u)"
  unfolding repo_ListEntries_def GetEntriesByIDs_def repo_GetEntry_def repo_ListProjects_def repo_GetProject_def
  by (intro sees_query sees_queryRow, subst own_world_simps, subst own_rows_tables,
      (subst filter_filter_absorb | subst find_filter_absorb);
      simp add: list_matches_def own_entry_def own_project_def)+

lemma buildListParams_user: "buildListParams X u msg = Inr a \<Longrightarrow> lp_UserID a = u"
  by (auto simp: buildListParams_def split: if_splits option.splits sum.splits)

lemma sees_ListEntries: "sees_own (uc_UserID uc) (ListEntries X uc r)"
proof (cases "buildListParams X (uc_UserID uc) r")
  case (Inl e)
  then show ?thesis by (simp add: ListEntries_def sees_own_def bindE_def mapErr_def liftE_def)
next
  case (Inr a)
  have "sees_own (uc_UserID uc) (bindE (mapErr internal (repo_ListEntries a)) (\<lambda>rows. returnE (f rows)))" for f
    by (intro sees_intros sees_repo_reads buildListParams_user [OF Inr])
  then show ?thesis using Inr by (simp add: ListEntries_def sees_own_def bindE_def [of "mapErr _ (liftE _)"] mapErr_def [of _ "liftE _"] liftE_def)
qed

lemma sees_vault_handler: "reads_only req \<Longrightarrow> sees_own (uc_UserID uc) (vault_handler X uc req)"
  by (cases req)
     (auto simp: reply_def GetEntriesByIds_def GetEntry_def ListProjects_def GetProject_def parse_entry_id_def
        parse_project_id_def intro!: sees_intros sees_repo_reads sees_ListEntries)

lemma sees_vault_read: "reads_only req \<Longrightarrow> sees_own (uc_UserID uc) (vault_serve X ua uc req)"
  unfolding vault_serve_def common_interceptors_def rls_interceptor_def audit_interceptor_def Let_def
  by (intro sees_intros sees_on_pool_AppendOrLog sees_vault_handler)

text \<open>C24. Tenant isolation of reads: the answer to a reading request depends on no entry and no
  project of another user.  Two servers that differ only in the entries and projects of others
  answer it alike, whichever statements fail.\<close>

theorem reads_see_own_rows:
  assumes "reads_only req" and "own_world (uc_UserID uc) w = own_world (uc_UserID uc) v"
  shows "fst (vault_serve X ua uc req w) = fst (vault_serve X ua uc req v)"
proof -
  have "fst (vault_serve X ua uc req x) = fst (vault_serve X ua uc req (own_world (uc_UserID uc) x))" for x
    using sees_vault_read [OF assms(1)] by (simp add: sees_own_def)
  then show ?thesis using assms(2) by metis
qed

theorem reads_see_own_rows_witness:
  "fst (vault_serve demo_ext '''' (demo_uc 1) (RGetEntry ''B'') demo_vault)
     = fst (vault_serve demo_ext '''' (demo_uc 1) (RGetEntry ''B'') (demo_vault\<lparr>w_db := (w_db demo_vault)\<lparr>entries := []\<rparr>\<rparr>))"
  by (rule reads_see_own_rows)
     (simp_all add: own_world_def own_rows_def entries_of_def projects_of_def demo_vault_def demo_world_def demo_uc_def
        demo_entry_def)

end
