(* ===== verification/Vault_Versions.thy ===== *)
theory Vault_Versions
  imports Vault_Isolation
begin

text \<open>
  The rows of the vault under all requests: a well-formedness invariant, and the optimistic
  concurrency control of entries and projects.
\<close>

section \<open>Well-formed rows\<close>

definition entry_ok :: "Entry \<Rightarrow> bool" where
  "entry_ok e \<longleftrightarrow> validateBlob (en_encrypted_blob e) (en_wrapped_item_key e) (en_title_hash e) = Inr ()
     \<and> 1 \<le> en_version e \<and> en_version e \<le> int4_max"

definition project_ok :: "Project \<Rightarrow> bool" where
  "project_ok p \<longleftrightarrow> projects_validateBlob (pr_encrypted_blob p) (pr_wrapped_item_key p) (pr_name_hash p) = Inr ()
     \<and> 1 \<le> pr_version p \<and> pr_version p \<le> int4_max"

definition vault_ok :: "db \<Rightarrow> bool" where
  "vault_ok d \<longleftrightarrow> distinct (map en_id (entries d)) \<and> distinct (map pr_id (projects d))
     \<and> (\<forall>e \<in> set (entries d). entry_ok e \<and> fk_project d (en_project_id e))
     \<and> (\<forall>p \<in> set (projects d). project_ok p)"

interpretation wf_base: request_invariant "\<lambda>us p. vault_ok"
  by unfold_locales (simp_all add: vault_ok_def fk_project_def split: option.splits)

lemma updated_ok:
  "entry_checked u a \<Longrightarrow> entry_ok r \<Longrightarrow> en_version r \<noteq> int4_max \<Longrightarrow> entry_ok (updated_entry a t r)"
  "project_checked u q \<Longrightarrow> project_ok s \<Longrightarrow> pr_version s \<noteq> int4_max \<Longrightarrow> project_ok (updated_project q t s)"
  by (auto simp: entry_checked_def project_checked_def entry_ok_def project_ok_def updated_entry_def updated_project_def)

lemma updated_id [simp]:
  "en_id (updated_entry a t r) = en_id r" "pr_id (updated_project q t s) = pr_id s"
  "en_project_id (updated_entry a t r) = ep_ProjectID a"
  by (simp_all add: updated_entry_def updated_project_def)

lemma fk_project_iff: "fk_project d p \<longleftrightarrow> p = None \<or> the p \<in> set (map pr_id (projects d))"
  by (cases p) (auto simp: fk_project_def)

lemma vault_ok_entries_updI:
  assumes "vault_ok d" and "\<And>r. r \<in> set (entries d) \<Longrightarrow> hit r \<Longrightarrow> entry_ok (f r) \<and> fk_project d (en_project_id (f r))"
    and "\<And>r. en_id (f r) = en_id r"
  shows "vault_ok (d\<lparr>entries := upd_where hit f (entries d)\<rparr>)"
proof -
  have "fk_project (d\<lparr>entries := x\<rparr>) = fk_project d" for x by (auto simp: fk_project_def fun_eq_iff split: option.split)
  with assms show ?thesis by (auto simp: vault_ok_def map_upd_where tbl)
qed

lemma vault_ok_projects_updI:
  assumes "vault_ok d" and "\<And>r. r \<in> set (projects d) \<Longrightarrow> hit r \<Longrightarrow> project_ok (f r)"
    and "\<And>r. pr_id (f r) = pr_id r"
  shows "vault_ok (d\<lparr>projects := upd_where hit f (projects d)\<rparr>)"
proof -
  have "fk_project (d\<lparr>projects := upd_where hit f (projects d)\<rparr>) = fk_project d"
    using assms(3) by (auto simp: fk_project_iff fun_eq_iff map_upd_where simp del: set_map)
  with assms show ?thesis by (auto simp: vault_ok_def map_upd_where tbl)
qed


lemma wf_entry_writes:
  "entry_checked u a \<Longrightarrow> keeps (db_inv (\<lambda>us p. vault_ok)) (repo_CreateEntry a)"
  "entry_checked u a \<Longrightarrow> keeps (db_inv (\<lambda>us p. vault_ok)) (repo_UpdateEntry a v)"
  "keeps (db_inv (\<lambda>us p. vault_ok)) (repo_DeleteEntry i u)"
  "keeps (db_inv (\<lambda>us p. vault_ok)) (repo_ToggleFavorite i u b)"
proof -
  show "keeps (db_inv (\<lambda>us p. vault_ok)) (repo_DeleteEntry i u)"
    unfolding repo_DeleteEntry_def
    by (rule wf_base.keeps_dml) (auto simp: vault_ok_def distinct_map_del_where tbl fk_project_iff)
  show "keeps (db_inv (\<lambda>us p. vault_ok)) (repo_ToggleFavorite i u b)"
    unfolding repo_ToggleFavorite_def
    by (rule wf_base.keeps_dml)
       (auto simp: Let_def split: option.splits intro!: vault_ok_entries_updI, auto simp: vault_ok_def entry_ok_def)
  assume a: "entry_checked u a"
  show "keeps (db_inv (\<lambda>us p. vault_ok)) (repo_CreateEntry a)"
    unfolding repo_CreateEntry_def using a
    by (intro wf_base.keeps_dml)
       (auto simp: Let_def vault_ok_def entry_checked_def entry_ok_def int4_max_def fk_project_iff split: if_splits)
  show "keeps (db_inv (\<lambda>us p. vault_ok)) (repo_UpdateEntry a v)"
    unfolding repo_UpdateEntry_def
  proof (rule wf_base.keeps_dml, goal_cases)
    case (1 w x d)
    let ?hit = "\<lambda>r. own_entry w (ep_ID a) (ep_UserID a) r \<and> en_version r = v"
    from 1(2) have "v \<noteq> int4_max" and "fk_project (w_db w) (ep_ProjectID a)"
      and d: "d = (w_db w)\<lparr>entries := upd_where ?hit (updated_entry a (w_now w)) (entries (w_db w))\<rparr>"
      by (auto simp: Let_def dest!: find_SomeD split: option.splits if_splits)
    then show ?case unfolding d using 1(1)
      by (intro vault_ok_entries_updI) (auto simp: vault_ok_def intro!: updated_ok(1) [OF a])
  qed
qed

lemma wf_project_writes:
  "project_checked u q \<Longrightarrow> keeps (db_inv (\<lambda>us p. vault_ok)) (repo_CreateProject q so)"
  "project_checked u q \<Longrightarrow> keeps (db_inv (\<lambda>us p. vault_ok)) (repo_UpdateProject q v)"
  "keeps (db_inv (\<lambda>us p. vault_ok)) (repo_DeleteProject i u v)"
  "keeps (db_inv (\<lambda>us p. vault_ok)) (ReorderProject i u so)"
proof -
  show "keeps (db_inv (\<lambda>us p. vault_ok)) (ReorderProject i u so)"
    unfolding ReorderProject_def
    by (intro wf_base.keeps_exec vault_ok_projects_updI) (auto simp: vault_ok_def project_ok_def)
  show "keeps (db_inv (\<lambda>us p. vault_ok)) (repo_DeleteProject i u v)"
    unfolding repo_DeleteProject_def
    by (rule wf_base.keeps_dml)
       (auto simp: Let_def vault_ok_def tbl map_upd_where distinct_map_del_where entry_ok_def fk_project_iff split: option.splits,
        fastforce simp: image_iff)
  assume q: "project_checked u q"
  show "keeps (db_inv (\<lambda>us p. vault_ok)) (repo_CreateProject q so)"
    unfolding repo_CreateProject_def using q
    by (intro wf_base.keeps_dml)
       (auto simp: Let_def vault_ok_def project_checked_def project_ok_def int4_max_def fk_project_iff split: if_splits)
  show "keeps (db_inv (\<lambda>us p. vault_ok)) (repo_UpdateProject q v)"
    unfolding repo_UpdateProject_def
  proof (rule wf_base.keeps_dml, goal_cases)
    case (1 w x d)
    let ?hit = "\<lambda>r. own_project w (pp_ID q) (pp_UserID q) r \<and> pr_version r = v"
    from 1(2) have "v \<noteq> int4_max"
      and d: "d = (w_db w)\<lparr>projects := upd_where ?hit (updated_project q (w_now w)) (projects (w_db w))\<rparr>"
      by (auto simp: Let_def dest!: find_SomeD split: option.splits if_splits)
    then show ?case unfolding d using 1(1)
      by (intro vault_ok_projects_updI) (auto simp: vault_ok_def intro!: updated_ok(2) [OF q])
  qed
qed

interpretation wf: vault_invariant "\<lambda>us p. vault_ok" X u "\<lambda>req. True"
  by unfold_locales (simp_all add: wf_entry_writes wf_project_writes)

text \<open>C27. Every request of the entries and projects services, by whichever user and whichever
  statements fail, keeps the vault tables well formed: identifiers are unique, every project that an
  entry refers to exists, ciphertexts, wrapped keys and hashes have the sizes the services ask for,
  and versions stay between 1 and the largest 32-bit integer.\<close>

theorem vault_well_formed:
  assumes "idle w" and "vault_ok (w_db w)"
  shows "vault_ok (w_db (serve_all X qs w))"
  using assms
proof (induction qs arbitrary: w)
  case (Cons q qs)
  obtain ua uc req where q: "q = (ua, uc, req)" by (cases q)
  from Cons.prems have "vault_ok (w_db (snd (vault_call X q w)))"
    unfolding q vault_call_def split by (intro wf.vault_serve_inv) simp_all
  with Cons show ?case by (simp add: vault_call_idle)
qed simp

lemma vault_ok_demo: "vault_ok (w_db demo_vault)"
  by (simp add: vault_ok_def demo_vault_def demo_world_def empty_db_def demo_entry_def demo_project_def entry_ok_def
        project_ok_def fk_project_def validateBlob_def projects_validateBlob_def int4_max_def
        maxEncryptedBlobBytes_def maxWrappedItemKeyBytes_def)

theorem vault_well_formed_witness:
  "vault_ok (w_db (serve_all demo_ext [('''', demo_uc 2, RDeleteProject ''A'' 1), ('''', demo_uc 2, RDeleteEntry ''B'')] demo_vault))"
  by (rule vault_well_formed [OF idle_demo_vault vault_ok_demo])

section \<open>Optimistic concurrency\<close>

text \<open>A table with versions, given as its pairs of identifier and version: the row \<open>i\<close> exists and has
  moved past the version \<open>v\<close>.\<close>

definition newer :: "(db \<Rightarrow> (uuid \<times> int) list) \<Rightarrow> uuid \<Rightarrow> int \<Rightarrow> db \<Rightarrow> bool" where
  "newer rows i v d \<longleftrightarrow> i \<in> fst ` set (rows d) \<and> (\<forall>x \<in> set (rows d). fst x = i \<longrightarrow> v < snd x)"

locale versioned_table =
  fixes serve :: "'q \<Rightarrow> 'r act" and good :: "db \<Rightarrow> bool" and rows :: "db \<Rightarrow> (uuid \<times> int) list"
    and updates :: "uuid \<Rightarrow> int \<Rightarrow> 'q \<Rightarrow> bool" and removes :: "uuid \<Rightarrow> 'q \<Rightarrow> bool"
  assumes serve_idle: "idle w \<Longrightarrow> idle (snd (serve q w))"
    and serve_good: "idle w \<Longrightarrow> good (w_db w) \<Longrightarrow> good (w_db (snd (serve q w)))"
    and serve_newer: "idle w \<Longrightarrow> newer rows i v (w_db w) \<Longrightarrow> \<not> removes i q \<Longrightarrow> newer rows i v (w_db (snd (serve q w)))"
    and update_hits: "idle w \<Longrightarrow> good (w_db w) \<Longrightarrow> updates i v q \<Longrightarrow> serve q w = (Inr x, w') \<Longrightarrow>
      (i, v) \<in> set (rows (w_db w)) \<and> newer rows i v (w_db w')"
begin

fun runs :: "'q list \<Rightarrow> world \<Rightarrow> world" where
  "runs [] w = w"
| "runs (q # qs) w = runs qs (snd (serve q w))"

lemma runs_newer:
  "idle w \<Longrightarrow> good (w_db w) \<Longrightarrow> newer rows i v (w_db w) \<Longrightarrow> \<forall>q \<in> set qs. \<not> removes i q \<Longrightarrow>
     idle (runs qs w) \<and> good (w_db (runs qs w)) \<and> newer rows i v (w_db (runs qs w))"
  by (induction qs arbitrary: w) (simp_all add: serve_idle serve_good serve_newer)

lemma second_update_refused:
  assumes "idle w" and "good (w_db w)" and "updates i v q" and "serve q w = (Inr x, w')"
    and "\<forall>q \<in> set qs. \<not> removes i q" and "updates i v q'" and "runs qs w' = w''"
  shows "\<exists>e. fst (serve q' w'') = Inl e"
proof -
  from assms(1,2) have "idle w'" "good (w_db w')"
    using serve_idle [of w q] serve_good [of w q] assms(4) by simp_all
  moreover have "newer rows i v (w_db w')" using update_hits assms(1-4) by blast
  ultimately have "idle w''" "good (w_db w'')" "newer rows i v (w_db w'')"
    using runs_newer assms(5,7) by blast+
  moreover have "False" if "newer rows i v (w_db w'')" "(i, v) \<in> set (rows (w_db w''))"
    using that by (auto simp: newer_def)
  ultimately show ?thesis using update_hits [OF _ _ assms(6)] by (cases "serve q' w''"; cases "fst (serve q' w'')") auto
qed

end

subsection \<open>Entries\<close>

definition entry_versions :: "db \<Rightarrow> (uuid \<times> int) list" where
  "entry_versions d = map (\<lambda>e. (en_id e, en_version e)) (entries d)"

definition project_versions :: "db \<Rightarrow> (uuid \<times> int) list" where
  "project_versions d = map (\<lambda>p. (pr_id p, pr_version p)) (projects d)"

lemma newer_entries: "newer entry_versions i v d \<longleftrightarrow>
    i \<in> set (map en_id (entries d)) \<and> (\<forall>e \<in> set (entries d). en_id e = i \<longrightarrow> v < en_version e)"
  by (auto simp: newer_def entry_versions_def image_image)

lemma newer_projects: "newer project_versions i v d \<longleftrightarrow>
    i \<in> set (map pr_id (projects d)) \<and> (\<forall>p \<in> set (projects d). pr_id p = i \<longrightarrow> v < pr_version p)"
  by (auto simp: newer_def project_versions_def image_image)

lemma updated_version [simp]:
  "en_version (updated_entry a t r) = en_version r + 1" "pr_version (updated_project q t s) = pr_version s + 1"
  by (simp_all add: updated_entry_def updated_project_def)

fun removes_entry :: "ext \<Rightarrow> uuid \<Rightarrow> vault_request \<Rightarrow> bool" where
  "removes_entry X i (RDeleteEntry s) = (uuid_Parse X s = Some i)"
| "removes_entry X i _ = False"

fun removes_project :: "ext \<Rightarrow> uuid \<Rightarrow> vault_request \<Rightarrow> bool" where
  "removes_project X i (RDeleteProject s _) = (uuid_Parse X s = Some i)"
| "removes_project X i _ = False"

interpretation ev_base: request_invariant "\<lambda>us p. newer entry_versions i v"
  by unfold_locales (simp_all add: newer_entries)

interpretation pv_base: request_invariant "\<lambda>us p. newer project_versions i v"
  by unfold_locales (simp_all add: newer_projects)

lemma set_map_del_where: "x \<in> set (map k rows) \<Longrightarrow> (\<And>r. k r = x \<Longrightarrow> \<not> p r) \<Longrightarrow> x \<in> set (map k (del_where p rows))"
  by (auto simp: del_where_def)

lemma not_absent: "x \<in> set (map k rows) \<Longrightarrow> \<forall>r \<in> set rows. k r \<noteq> x \<Longrightarrow> Q"
  by auto

lemma own_row_id: "own_entry w i u r \<Longrightarrow> en_id r = i" "own_project w i u q \<Longrightarrow> pr_id q = i"
  by (simp_all add: own_entry_def own_project_def)

interpretation ev: vault_invariant "\<lambda>us p. newer entry_versions i v" X u "\<lambda>req. \<not> removes_entry X i req"
  unfolding vault_invariant_def vault_invariant_axioms_def
  by (intro conjI allI impI ev_base.request_invariant_axioms; unfold repo_vault_defs;
      (rule ev_base.keeps_dml ev_base.keeps_exec)?;
      auto simp: newer_entries Let_def map_upd_where set_upd_where set_del_where simp del: set_map
        intro!: set_map_del_where dest: own_row_id elim: not_absent split: if_splits option.splits)

interpretation pv: vault_invariant "\<lambda>us p. newer project_versions i v" X u "\<lambda>req. \<not> removes_project X i req"
  unfolding vault_invariant_def vault_invariant_axioms_def
  by (intro conjI allI impI pv_base.request_invariant_axioms; unfold repo_vault_defs;
      (rule pv_base.keeps_dml pv_base.keeps_exec)?;
      auto simp: newer_projects Let_def map_upd_where set_upd_where set_del_where simp del: set_map
        intro!: set_map_del_where dest: own_row_id elim: not_absent split: if_splits option.splits)

text \<open>What a successful update has found and done.\<close>

lemma publish_ok: "publish w = (Inr x, w') \<Longrightarrow> w_db w' = w_db w"
  by (auto simp: publish_def runs_ok dest!: stmt_ok)

lemma own_row_faults [simp]:
  "own_entry (w\<lparr>w_faults := fs\<rparr>) = own_entry w" "own_project (w\<lparr>w_faults := fs\<rparr>) = own_project w"
  by (simp_all add: fun_eq_iff own_entry_def own_project_def rls_visible_def)

lemma UpdateEntry_success:
  assumes "UpdateEntry X uc req n w = (Inr y, w')"
  shows "\<exists>a r. entry_checked (uc_UserID uc) a \<and> uuid_Parse X (er_Id req) = Some (ep_ID a)
     \<and> r \<in> set (entries (w_db w)) \<and> own_entry w (ep_ID a) (uc_UserID uc) r \<and> en_version r = int32 n
     \<and> entries (w_db w') = upd_where (\<lambda>r. own_entry w (ep_ID a) (uc_UserID uc) r \<and> en_version r = int32 n)
          (updated_entry a (w_now w)) (entries (w_db w))"
proof -
  from assms obtain a row w1 w2 where a: "check_entry X uc req w = (Inr a, w1)"
    and up: "repo_UpdateEntry a (int32 n) w1 = (Inr row, w2)" and db: "w_db w' = w_db w2"
    by (auto simp: UpdateEntry_def runs_ok dest!: publish_ok)
  from check_entry_cases [OF a] have ok: "w1 = w" "entry_checked (uc_UserID uc) a"
    "uuid_Parse X (er_Id req) = Some (ep_ID a)" by auto
  obtain r where "r \<in> set (entries (w_db w))" "own_entry w (ep_ID a) (uc_UserID uc) r" "en_version r = int32 n"
    and "entries (w_db w2) = upd_where (\<lambda>r. own_entry w (ep_ID a) (uc_UserID uc) r \<and> en_version r = int32 n)
          (updated_entry a (w_now w)) (entries (w_db w))"
    using dml_ok [OF up [unfolded repo_UpdateEntry_def]] ok
    by (elim exE conjE) (auto simp: Let_def entry_checked_def dest: find_SomeD split: option.splits if_splits)
  with ok db show ?thesis by auto
qed

lemma UpdateProject_success:
  assumes "UpdateProject X uc req n w = (Inr y, w')"
  shows "\<exists>a r. project_checked (uc_UserID uc) a \<and> uuid_Parse X (jr_Id req) = Some (pp_ID a)
     \<and> r \<in> set (projects (w_db w)) \<and> own_project w (pp_ID a) (uc_UserID uc) r \<and> pr_version r = int32 n
     \<and> projects (w_db w') = upd_where (\<lambda>r. own_project w (pp_ID a) (uc_UserID uc) r \<and> pr_version r = int32 n)
          (updated_project a (w_now w)) (projects (w_db w))"
proof -
  from assms obtain a row w1 w2 where a: "check_project X uc req w = (Inr a, w1)"
    and up: "repo_UpdateProject a (int32 n) w1 = (Inr row, w2)" and db: "w_db w' = w_db w2"
    by (auto simp: UpdateProject_def runs_ok dest!: publish_ok)
  from check_project_cases [OF a] have ok: "w1 = w" "project_checked (uc_UserID uc) a"
    "uuid_Parse X (jr_Id req) = Some (pp_ID a)" by auto
  obtain r where "r \<in> set (projects (w_db w))" "own_project w (pp_ID a) (uc_UserID uc) r" "pr_version r = int32 n"
    and "projects (w_db w2) = upd_where (\<lambda>r. own_project w (pp_ID a) (uc_UserID uc) r \<and> pr_version r = int32 n)
          (updated_project a (w_now w)) (projects (w_db w))"
    using dml_ok [OF up [unfolded repo_UpdateProject_def]] ok
    by (elim exE conjE) (auto simp: Let_def project_checked_def dest: find_SomeD split: option.splits if_splits)
  with ok db show ?thesis by auto
qed

lemma serve_success:
  assumes "vault_serve X ua uc req w = (Inr x, w')"
  obtains fs box w1 where "vault_handler X uc req (tx_start False (Some (uc_UserID uc)) fs w) = (Inr (x, box), w1)"
    and "entries (w_db w') = entries (w_db w1)" and "projects (w_db w') = projects (w_db w1)"
proof -
  from vault_serve_outcome [OF assms] obtain fs box w1 where
    "vault_handler X uc req (tx_start False (Some (uc_UserID uc)) fs w) = (Inr (x, box), w1)"
    and eq: "no_audit (w_db w') = no_audit (w_db w1)" by (auto simp: request_outcome_def)
  moreover from eq have "entries (w_db w') = entries (w_db w1)" "projects (w_db w') = projects (w_db w1)"
    by (cases "w_db w'", cases "w_db w1", simp add: no_audit_def)+
  ultimately show thesis using that by blast
qed

fun updates_entry :: "ext \<Rightarrow> uuid \<Rightarrow> int \<Rightarrow> vault_request \<Rightarrow> bool" where
  "updates_entry X i v (RUpdateEntry r n) = (uuid_Parse X (er_Id r) = Some i \<and> int32 n = v)"
| "updates_entry X i v _ = False"

fun updates_project :: "ext \<Rightarrow> uuid \<Rightarrow> int \<Rightarrow> vault_request \<Rightarrow> bool" where
  "updates_project X i v (RUpdateProject r n) = (uuid_Parse X (jr_Id r) = Some i \<and> int32 n = v)"
| "updates_project X i v _ = False"

lemma upd_where_newer:
  assumes "distinct (map k rows)" and "r \<in> set rows" and "hit r" and "\<And>r. k (f r) = k r" and "\<And>r. ver (f r) = ver r + 1"
  shows "k r \<in> set (map k (upd_where hit f rows))"
    and "s \<in> set (upd_where hit f rows) \<Longrightarrow> k s = k r \<Longrightarrow> ver s = ver r + (1 :: int)"
proof -
  show "k r \<in> set (map k (upd_where hit f rows))" using assms by (simp add: map_upd_where)
  assume "s \<in> set (upd_where hit f rows)" and "k s = k r"
  then obtain t where "t \<in> set rows" "s = (if hit t then f t else t)" "k t = k r"
    using assms(4) by (auto simp: set_upd_where split: if_splits)
  then show "ver s = ver r + 1" using assms(1-3,5) by (auto dest: distinct_map_eqD)
qed

lemma entry_update_hits:
  assumes "vault_ok (w_db w)" and "updates_entry X i v req" and "vault_serve X ua uc req w = (Inr x, w')"
  shows "(i, v) \<in> set (entry_versions (w_db w)) \<and> newer entry_versions i v (w_db w')"
proof -
  from assms(2) obtain r n where req: "req = RUpdateEntry r n" and i: "uuid_Parse X (er_Id r) = Some i" and v: "int32 n = v"
    by (cases req) auto
  from serve_success [OF assms(3)] obtain fs box w1 where
    run: "vault_handler X uc req (tx_start False (Some (uc_UserID uc)) fs w) = (Inr (x, box), w1)"
    and db: "entries (w_db w') = entries (w_db w1)" by blast
  let ?t = "tx_start False (Some (uc_UserID uc)) fs w"
  let ?hit = "\<lambda>r. own_entry ?t i (uc_UserID uc) r \<and> en_version r = v"
  from run obtain y where "UpdateEntry X uc r n ?t = (Inr y, w1)"
    by (auto simp: req reply_def runs_ok split: prod.splits)
  from UpdateEntry_success [OF this] obtain a e where e: "e \<in> set (entries (w_db w))" "?hit e"
    and w1: "entries (w_db w1) = upd_where ?hit (updated_entry a (w_now ?t)) (entries (w_db w))"
    using i v by (auto simp: tx_start_def)
  have dist: "distinct (map en_id (entries (w_db w)))" using assms(1) by (simp add: vault_ok_def)
  have e_id: "en_id e = i" "en_version e = v" using e(2) own_row_id by auto
  have "i \<in> set (map en_id (entries (w_db w')))"
    using upd_where_newer(1) [where hit = ?hit and f = "updated_entry a (w_now ?t)" and ver = en_version, OF dist e] by (simp add: db w1 e_id del: set_map)
  moreover have "v < en_version s" if "s \<in> set (entries (w_db w'))" "en_id s = i" for s
    using upd_where_newer(2) [where hit = ?hit and f = "updated_entry a (w_now ?t)" and ver = en_version and s = s, OF dist e] that by (simp add: db w1 e_id)
  moreover have "(i, v) \<in> set (entry_versions (w_db w))" using e(1) e_id by (force simp: entry_versions_def)
  ultimately show ?thesis by (simp add: newer_entries del: set_map)
qed

lemma project_update_hits:
  assumes "vault_ok (w_db w)" and "updates_project X i v req" and "vault_serve X ua uc req w = (Inr x, w')"
  shows "(i, v) \<in> set (project_versions (w_db w)) \<and> newer project_versions i v (w_db w')"
proof -
  from assms(2) obtain r n where req: "req = RUpdateProject r n" and i: "uuid_Parse X (jr_Id r) = Some i" and v: "int32 n = v"
    by (cases req) auto
  from serve_success [OF assms(3)] obtain fs box w1 where
    run: "vault_handler X uc req (tx_start False (Some (uc_UserID uc)) fs w) = (Inr (x, box), w1)"
    and db: "projects (w_db w') = projects (w_db w1)" by blast
  let ?t = "tx_start False (Some (uc_UserID uc)) fs w"
  let ?hit = "\<lambda>r. own_project ?t i (uc_UserID uc) r \<and> pr_version r = v"
  from run obtain y where "UpdateProject X uc r n ?t = (Inr y, w1)"
    by (auto simp: req reply_def runs_ok split: prod.splits)
  from UpdateProject_success [OF this] obtain a e where e: "e \<in> set (projects (w_db w))" "?hit e"
    and w1: "projects (w_db w1) = upd_where ?hit (updated_project a (w_now ?t)) (projects (w_db w))"
    using i v by (auto simp: tx_start_def)
  have dist: "distinct (map pr_id (projects (w_db w)))" using assms(1) by (simp add: vault_ok_def)
  have e_id: "pr_id e = i" "pr_version e = v" using e(2) own_row_id by auto
  have "i \<in> set (map pr_id (projects (w_db w')))"
    using upd_where_newer(1) [where hit = ?hit and f = "updated_project a (w_now ?t)" and ver = pr_version, OF dist e] by (simp add: db w1 e_id del: set_map)
  moreover have "v < pr_version s" if "s \<in> set (projects (w_db w'))" "pr_id s = i" for s
    using upd_where_newer(2) [where hit = ?hit and f = "updated_project a (w_now ?t)" and ver = pr_version and s = s, OF dist e] that by (simp add: db w1 e_id)
  moreover have "(i, v) \<in> set (project_versions (w_db w))" using e(1) e_id by (force simp: project_versions_def)
  ultimately show ?thesis by (simp add: newer_projects del: set_map)
qed

interpretation entry_table: versioned_table "vault_call X" vault_ok entry_versions
    "\<lambda>i v q. updates_entry X i v (snd (snd q))" "\<lambda>i q. removes_entry X i (snd (snd q))"
proof unfold_locales
  fix q :: vault_call and w i v x w'
  obtain ua uc req where q: "q = (ua, uc, req)" by (cases q)
  assume idle: "idle w"
  then show "idle (snd (vault_call X q w))" by (rule vault_call_idle)
  show "vault_ok (w_db w) \<Longrightarrow> vault_ok (w_db (snd (vault_call X q w)))"
    unfolding q vault_call_def split using idle by (intro wf.vault_serve_inv) simp_all
  show "newer entry_versions i v (w_db w) \<Longrightarrow> \<not> removes_entry X i (snd (snd q))
      \<Longrightarrow> newer entry_versions i v (w_db (snd (vault_call X q w)))"
    unfolding q vault_call_def split using idle by (intro ev.vault_serve_inv) simp_all
  show "vault_ok (w_db w) \<Longrightarrow> updates_entry X i v (snd (snd q)) \<Longrightarrow> vault_call X q w = (Inr x, w')
      \<Longrightarrow> (i, v) \<in> set (entry_versions (w_db w)) \<and> newer entry_versions i v (w_db w')"
    unfolding q vault_call_def split snd_conv by (rule entry_update_hits)
qed

interpretation project_table: versioned_table "vault_call X" vault_ok project_versions
    "\<lambda>i v q. updates_project X i v (snd (snd q))" "\<lambda>i q. removes_project X i (snd (snd q))"
proof unfold_locales
  fix q :: vault_call and w i v x w'
  obtain ua uc req where q: "q = (ua, uc, req)" by (cases q)
  assume idle: "idle w"
  then show "idle (snd (vault_call X q w))" by (rule vault_call_idle)
  show "vault_ok (w_db w) \<Longrightarrow> vault_ok (w_db (snd (vault_call X q w)))"
    unfolding q vault_call_def split using idle by (intro wf.vault_serve_inv) simp_all
  show "newer project_versions i v (w_db w) \<Longrightarrow> \<not> removes_project X i (snd (snd q))
      \<Longrightarrow> newer project_versions i v (w_db (snd (vault_call X q w)))"
    unfolding q vault_call_def split using idle by (intro pv.vault_serve_inv) simp_all
  show "vault_ok (w_db w) \<Longrightarrow> updates_project X i v (snd (snd q)) \<Longrightarrow> vault_call X q w = (Inr x, w')
      \<Longrightarrow> (i, v) \<in> set (project_versions (w_db w)) \<and> newer project_versions i v (w_db w')"
    unfolding q vault_call_def split snd_conv by (rule project_update_hits)
qed

lemma runs_serve_all [simp]:
  "entry_table.runs X qs w = serve_all X qs w" "project_table.runs X qs w = serve_all X qs w"
  by (induction qs arbitrary: w) simp_all

lemmas demo_defs = demo_vault_def demo_world_def empty_db_def demo_entry_def demo_project_def demo_uc_def demo_ext_def
  demo_entry_request_def tx_start_def demo_user_def

lemma demo_update:
  "\<exists>x box w1. vault_handler demo_ext (demo_uc 2) (RUpdateEntry (demo_entry_request ''B'' None) 1)
     (tx_start False (Some (uc_UserID (demo_uc 2))) [] demo_vault) = (Inr (x, box), w1)"
  by (simp add: reply_def UpdateEntry_def check_entry_def parse_entry_id_def validateBlob_def toModelKind_def
    optionalUUID_def repo_UpdateEntry_def dml_def stmt_def publish_def runs_ok demo_defs own_entry_def rls_visible_def
    int32_def Let_def fk_project_def int4_max_def maxEncryptedBlobBytes_def maxWrappedItemKeyBytes_def returnE_def)

definition demo_project_request :: "string \<Rightarrow> ProjectRequest" where
  "demo_project_request i = \<lparr>jr_Id = i, jr_EncryptedBlob = replicate 29 CHR ''x'',
     jr_WrappedItemKey = replicate 29 CHR ''y'', jr_NameHash = replicate 32 CHR ''z''\<rparr>"

lemma demo_project_update:
  "\<exists>x box w1. vault_handler demo_ext (demo_uc 2) (RUpdateProject (demo_project_request ''A'') 1)
     (tx_start False (Some (uc_UserID (demo_uc 2))) [] demo_vault) = (Inr (x, box), w1)"
  by (simp add: reply_def UpdateProject_def check_project_def parse_project_id_def projects_validateBlob_def
    repo_UpdateProject_def dml_def stmt_def publish_def runs_ok demo_defs demo_project_request_def own_project_def
    rls_visible_def int32_def Let_def int4_max_def returnE_def)

lemma demo_calm: "calm demo_vault"
  by (simp add: calm_def demo_vault_def demo_world_def)

text \<open>C25. No lost update of entries: once an update of an entry that expects version \<open>v\<close> has
  succeeded, no other update of this entry that expects \<open>v\<close> succeeds, whatever requests of whichever
  users are served in between and whichever statements fail, as long as the entry is not deleted.\<close>

theorem no_lost_entry_update:
  assumes "idle w" and "vault_ok (w_db w)"
    and "updates_entry X i v req" and "vault_serve X ua uc req w = (Inr x, w')"
    and "\<forall>q \<in> set qs. \<not> removes_entry X i (snd (snd q))"
    and "updates_entry X i v req'"
  shows "\<exists>e. fst (vault_serve X ua' uc' req' (serve_all X qs w')) = Inl e"
  using entry_table.second_update_refused [where X = X and w = w and i = i and v = v and q = "(ua, uc, req)" and qs = qs and q' = "(ua', uc', req')"] assms
  by (simp add: vault_call_def)

theorem no_lost_entry_update_witness:
  "\<exists>e. fst (vault_serve demo_ext '''' (demo_uc 2) (RUpdateEntry (demo_entry_request ''B'' (Some ''A'')) 1)
     (serve_all demo_ext [('''', demo_uc 1, RDeleteProject ''C'' 1)]
       (snd (vault_serve demo_ext '''' (demo_uc 2) (RUpdateEntry (demo_entry_request ''B'' None) 1) demo_vault)))) = Inl e"
proof -
  obtain x where "fst (vault_serve demo_ext '''' (demo_uc 2) (RUpdateEntry (demo_entry_request ''B'' None) 1) demo_vault) = Inr x"
    using demo_update vault_serve_succeeds [OF demo_calm] by blast
  then show ?thesis
    by (intro no_lost_entry_update [OF idle_demo_vault vault_ok_demo, where i = 66 and v = 1, OF _ prod_eqI])
       (simp_all add: demo_entry_request_def demo_ext_def int32_def)
qed

text \<open>C26. No lost update of projects: once an update of a project that expects version \<open>v\<close> has
  succeeded, no other update of this project that expects \<open>v\<close> succeeds, whatever requests are served
  in between and whichever statements fail, as long as the project is not deleted.\<close>

theorem no_lost_project_update:
  assumes "idle w" and "vault_ok (w_db w)"
    and "updates_project X i v req" and "vault_serve X ua uc req w = (Inr x, w')"
    and "\<forall>q \<in> set qs. \<not> removes_project X i (snd (snd q))"
    and "updates_project X i v req'"
  shows "\<exists>e. fst (vault_serve X ua' uc' req' (serve_all X qs w')) = Inl e"
  using project_table.second_update_refused [where X = X and w = w and i = i and v = v and q = "(ua, uc, req)" and qs = qs and q' = "(ua', uc', req')"] assms
  by (simp add: vault_call_def)

theorem no_lost_project_update_witness:
  "\<exists>e. fst (vault_serve demo_ext '''' (demo_uc 2) (RUpdateProject (demo_project_request ''A'') 1)
     (serve_all demo_ext [('''', demo_uc 2, RReorderProjects [''A''])]
       (snd (vault_serve demo_ext '''' (demo_uc 2) (RUpdateProject (demo_project_request ''A'') 1) demo_vault)))) = Inl e"
proof -
  obtain x where "fst (vault_serve demo_ext '''' (demo_uc 2) (RUpdateProject (demo_project_request ''A'') 1) demo_vault) = Inr x"
    using demo_project_update vault_serve_succeeds [OF demo_calm] by blast
  then show ?thesis
    by (intro no_lost_project_update [OF idle_demo_vault vault_ok_demo, where i = 65 and v = 1, OF _ prod_eqI])
       (simp_all add: demo_project_request_def demo_ext_def int32_def)
qed

end
