(* ===== verification/Vault_Listing.thy ===== *)
theory Vault_Listing
  imports Vault_Versions
begin

text \<open>The pages of \<open>ListEntries\<close>: their bounds, their order, and what the cursor leads to.\<close>

lemma clampLimit_bounds: "1 \<le> clampLimit n" "clampLimit n \<le> 500"
  by (auto simp: clampLimit_def Let_def defaultListLimit_def maxListLimit_def)

lemma buildListParams_limit: "buildListParams X u req = Inr a \<Longrightarrow> 1 \<le> lp_PageLimit a \<and> lp_PageLimit a \<le> 500"
  by (auto simp: buildListParams_def clampLimit_bounds split: if_splits option.splits sum.splits)

definition page :: "world \<Rightarrow> ListEntriesParams \<Rightarrow> Entry list" where
  "page w a = take (nat (lp_PageLimit a)) (sort_key newest_first
     (filter (\<lambda>r. rls_visible w (en_user_id r) \<and> list_matches a r) (entries (w_db w))))"

lemma ListEntries_calm:
  assumes "calm w"
  shows "ListEntries X uc req w = (case buildListParams X (uc_UserID uc) req of
      Inl e \<Rightarrow> (Inl (invalid_argument e), w)
    | Inr a \<Rightarrow> (Inr (\<lparr>lrs_Entries = map (toEntryMeta X) (page w a),
        lrs_NextUpdatedAfter = (if int (length (page w a)) = lp_PageLimit a \<and> page w a \<noteq> []
          then Some (en_updated_at (last (page w a))) else None)\<rparr>, no_box), w))"
  using assms
  by (simp add: ListEntries_def bindE_def mapErr_def liftE_def returnE_def repo_ListEntries_def query_def stmt_def
        getsE_def calm_def page_def split: sum.split)

lemma ListEntries_resp:
  assumes "calm w" and "buildListParams X (uc_UserID uc) req = Inr a" and "ListEntries X uc req w = (Inr (resp, box), w')"
  shows "lrs_Entries resp = map (toEntryMeta X) (page w a)"
    and "lrs_NextUpdatedAfter resp = (if int (length (page w a)) = lp_PageLimit a \<and> page w a \<noteq> []
          then Some (en_updated_at (last (page w a))) else None)"
proof -
  from assms(3) have resp: "resp = \<lparr>lrs_Entries = map (toEntryMeta X) (page w a),
        lrs_NextUpdatedAfter = (if int (length (page w a)) = lp_PageLimit a \<and> page w a \<noteq> []
          then Some (en_updated_at (last (page w a))) else None)\<rparr>"
    unfolding ListEntries_calm [OF assms(1)] assms(2) sum.case prod.inject sum.inject by (elim conjE) (erule sym)
  show "lrs_Entries resp = map (toEntryMeta X) (page w a)" by (simp add: resp)
  show "lrs_NextUpdatedAfter resp = (if int (length (page w a)) = lp_PageLimit a \<and> page w a \<noteq> []
          then Some (en_updated_at (last (page w a))) else None)" by (simp add: resp)
qed

text \<open>A row that is newer than a row of the page, and matches, is on the page.\<close>

lemma take_sort_key_closed:
  assumes "y \<in> set (take n (sort_key k xs))" and "x \<in> set xs" and "k x < k y"
  shows "x \<in> set (take n (sort_key k xs))"
proof -
  let ?s = "sort_key k xs"
  have "x \<in> set (take n ?s) \<union> set (drop n ?s)" using assms(2) by (metis append_take_drop_id set_append set_sort)
  moreover have "k y \<le> k z" if "z \<in> set (drop n ?s)" for z
  proof -
    have "sorted (map k (take n ?s @ drop n ?s))" by simp
    then show ?thesis using assms(1) that unfolding map_append sorted_append by auto
  qed
  ultimately show ?thesis using assms(3) by fastforce
qed

lemma sort_key_eq_Nil: "sort_key k xs = [] \<longleftrightarrow> xs = []"
  by (metis length_0_conv length_sort)

lemma page_closed:
  assumes "y \<in> set (page w a)" and "x \<in> set (entries (w_db w))" and "rls_visible w (en_user_id x)" and "list_matches a x"
    and "en_updated_at y < en_updated_at x"
  shows "x \<in> set (page w a)"
  unfolding page_def
proof (rule take_sort_key_closed)
  show "y \<in> set (take (nat (lp_PageLimit a)) (sort_key newest_first
     (filter (\<lambda>r. rls_visible w (en_user_id r) \<and> list_matches a r) (entries (w_db w)))))"
    using assms(1) by (simp add: page_def)
  show "newest_first x < newest_first y" using assms(5) by (simp add: newest_first_def)
qed (use assms(2-4) in simp)

lemma page_subset: "x \<in> set (page w a) \<Longrightarrow> x \<in> set (entries (w_db w)) \<and> rls_visible w (en_user_id x) \<and> list_matches a x"
  by (auto simp: page_def dest!: in_set_takeD)

text \<open>C29. A page of entries: at most 500 rows come back, newest first, all of them rows of the user
  that match the request; a matching row that is newer than some row of the page is on the page; and a
  page with no cursor is complete.\<close>

theorem list_entries_page:
  assumes "calm w" and "w_user w = Some (uc_UserID uc)"
    and "ListEntries X uc req w = (Inr (resp, box), w')" and "buildListParams X (uc_UserID uc) req = Inr a"
  shows "\<exists>rows. lrs_Entries resp = map (toEntryMeta X) rows \<and> length rows \<le> 500
     \<and> sorted_wrt (\<lambda>r s. en_updated_at r \<ge> en_updated_at s) rows
     \<and> set rows \<subseteq> {r \<in> set (entries (w_db w)). en_user_id r = uc_UserID uc \<and> list_matches a r}
     \<and> (\<forall>s \<in> set rows. \<forall>r \<in> set (entries (w_db w)). list_matches a r \<and> en_updated_at s < en_updated_at r \<longrightarrow> r \<in> set rows)
     \<and> (lrs_NextUpdatedAfter resp = None \<longrightarrow> (\<forall>r \<in> set (entries (w_db w)). list_matches a r \<longrightarrow> r \<in> set rows))"
proof (intro exI [of _ "page w a"] conjI ballI impI)
  let ?all = "filter (\<lambda>r. rls_visible w (en_user_id r) \<and> list_matches a r) (entries (w_db w))"
  have user: "lp_UserID a = uc_UserID uc" by (rule buildListParams_user [OF assms(4)])
  have lim: "1 \<le> lp_PageLimit a" "lp_PageLimit a \<le> 500" using buildListParams_limit [OF assms(4)] by simp_all
  note resp = ListEntries_resp [OF assms(1,4,3)]
  have vis: "rls_visible w (en_user_id r)" if "list_matches a r" for r
    using that user assms(2) by (simp add: list_matches_def rls_visible_def)
  show "lrs_Entries resp = map (toEntryMeta X) (page w a)" by (rule resp(1))
  show "length (page w a) \<le> 500" using lim by (simp add: page_def)
  have "sorted_wrt (\<lambda>r s. newest_first r \<le> newest_first s) (page w a)"
    unfolding page_def using sorted_sort_key [of newest_first ?all] by (intro sorted_wrt_take) (simp add: sorted_map)
  then show "sorted_wrt (\<lambda>r s. en_updated_at r \<ge> en_updated_at s) (page w a)"
    by (rule sorted_wrt_mono_rel [rotated]) (auto simp: newest_first_def)
  show "set (page w a) \<subseteq> {r \<in> set (entries (w_db w)). en_user_id r = uc_UserID uc \<and> list_matches a r}"
    using page_subset user by (auto simp: list_matches_def)
  show "r \<in> set (page w a)" if "s \<in> set (page w a)" "r \<in> set (entries (w_db w))"
    "list_matches a r \<and> en_updated_at s < en_updated_at r" for s r
    using page_closed [OF that(1,2)] that(3) vis by blast
  show "r \<in> set (page w a)" if "lrs_NextUpdatedAfter resp = None" "r \<in> set (entries (w_db w))" "list_matches a r" for r
  proof -
    have "length ?all < nat (lp_PageLimit a) \<or> ?all = []"
      using that(1) resp(2) lim by (auto simp: page_def sort_key_eq_Nil split: if_splits)
    then have "page w a = sort_key newest_first ?all" by (auto simp: page_def)
    with that(2,3) vis show ?thesis by simp
  qed
qed

lemma buildListParams_after:
  "buildListParams X u (req\<lparr>lr_UpdatedAfter := t\<rparr>) = (case buildListParams X u req of
     Inl e \<Rightarrow> Inl e | Inr a \<Rightarrow> Inr (a\<lparr>lp_UpdatedAfter := t\<rparr>))"
  by (simp add: buildListParams_def split: option.split sum.split)

text \<open>C30. The cursor does not reach further rows: the response to the request that follows the
  cursor of a page holds only rows that were on the page.  The rows beyond the limit are not
  returned by any sequence of such requests.\<close>

theorem cursor_repeats_page:
  assumes "calm w" and "ListEntries X uc req w = (Inr (resp, box), w')" and "lrs_NextUpdatedAfter resp = Some c"
    and "ListEntries X uc (req\<lparr>lr_UpdatedAfter := Some c\<rparr>) w = (Inr (resp', box'), w'')"
  shows "set (lrs_Entries resp') \<subset> set (lrs_Entries resp)"
proof -
  from assms(2) obtain a where a: "buildListParams X (uc_UserID uc) req = Inr a"
    unfolding ListEntries_calm [OF assms(1)] by (auto split: sum.splits)
  let ?b = "a\<lparr>lp_UpdatedAfter := Some c\<rparr>"
  note resp = ListEntries_resp(1) [OF assms(1) a assms(2)]
  have "page w a \<noteq> []" and c: "c = en_updated_at (last (page w a))"
    using ListEntries_resp(2) [OF assms(1) a assms(2)] assms(3) by (simp_all split: if_splits)
  then have last: "last (page w a) \<in> set (page w a)" by simp
  have resp': "lrs_Entries resp' = map (toEntryMeta X) (page w ?b)"
    by (rule ListEntries_resp(1) [OF assms(1) _ assms(4)]) (simp add: buildListParams_after a)
  have after: "lp_UpdatedAfter a = Some t \<Longrightarrow> t < c" for t
    using page_subset [OF last] c by (simp add: list_matches_def unless_null_def)
  have match: "list_matches a x \<and> c < en_updated_at x" if "list_matches ?b x" for x
    using that after by (auto simp: list_matches_def unless_null_def split: option.splits)
  have "x \<in> set (page w a) \<and> c < en_updated_at x" if "x \<in> set (page w ?b)" for x
    using page_closed [OF last] page_subset [OF that] match c by blast
  then have "set (lrs_Entries resp') \<subseteq> set (lrs_Entries resp)" and "\<forall>m \<in> set (lrs_Entries resp'). c < pm_UpdatedAt m"
    unfolding resp resp' by (auto simp: toEntryMeta_def)
  moreover have "toEntryMeta X (last (page w a)) \<in> set (lrs_Entries resp)" "pm_UpdatedAt (toEntryMeta X (last (page w a))) = c"
    using last c by (simp_all add: resp toEntryMeta_def)
  ultimately show ?thesis by fastforce
qed

section \<open>A concrete listing\<close>

text \<open>Three entries of user 2, listed one at a time.\<close>

definition demo_list :: world where
  "demo_list = demo_vault\<lparr>w_db := (w_db demo_vault)\<lparr>entries := [(demo_entry 66 2 None)\<lparr>en_updated_at := 5\<rparr>,
     (demo_entry 67 2 None)\<lparr>en_updated_at := 7\<rparr>, (demo_entry 68 2 None)\<lparr>en_updated_at := 6\<rparr>]\<rparr>, w_user := Some 2\<rparr>"

definition demo_list_request :: ListEntriesRequest where
  "demo_list_request = \<lparr>lr_ProjectId = None, lr_Kind = None, lr_TitleHashes = [], lr_DomainHashes = [],
     lr_FavoritesOnly = None, lr_HasTotpOnly = None, lr_UpdatedAfter = None, lr_Limit = 1\<rparr>"

lemma demo_list_calm: "calm demo_list" "w_user demo_list = Some (uc_UserID (demo_uc 2))"
  by (simp_all add: calm_def demo_list_def demo_vault_def demo_world_def demo_uc_def)

definition demo_list_params :: ListEntriesParams where
  "demo_list_params = \<lparr>lp_UserID = 2, lp_ProjectID = None, lp_Kind = None, lp_TitleHashes = None, lp_DomainHashes = None,
     lp_FavoritesOnly = None, lp_HasTotpOnly = None, lp_UpdatedAfter = None, lp_PageLimit = 1\<rparr>"

lemma demo_list_build: "buildListParams demo_ext (uc_UserID (demo_uc 2)) demo_list_request = Inr demo_list_params"
  by (simp add: buildListParams_def demo_list_request_def demo_uc_def demo_list_params_def clampLimit_def int32_def
        maxRepeatedField_def defaultListLimit_def maxListLimit_def)

lemma demo_list_page: "page demo_list demo_list_params = [(demo_entry 67 2 None)\<lparr>en_updated_at := 7\<rparr>]"
  by (simp add: page_def demo_list_def demo_list_params_def list_matches_def unless_null_def rls_visible_def
        demo_vault_def demo_world_def demo_entry_def newest_first_def empty_db_def)

theorem list_entries_page_witness:
  "\<exists>resp box w' rows. ListEntries demo_ext (demo_uc 2) demo_list_request demo_list = (Inr (resp, box), w')
     \<and> lrs_Entries resp = map (toEntryMeta demo_ext) rows \<and> length rows \<le> 500"
  using list_entries_page [OF demo_list_calm _ demo_list_build] ListEntries_calm [OF demo_list_calm(1)]
  by (simp add: demo_list_build) blast

theorem cursor_repeats_page_witness:
  "\<exists>resp box w'. ListEntries demo_ext (demo_uc 2) (demo_list_request\<lparr>lr_UpdatedAfter := Some 7\<rparr>) demo_list = (Inr (resp, box), w')
     \<and> set (lrs_Entries resp) \<subset> {toEntryMeta demo_ext ((demo_entry 67 2 None)\<lparr>en_updated_at := 7\<rparr>)}"
proof -
  have "ListEntries demo_ext (demo_uc 2) demo_list_request demo_list =
      (Inr (\<lparr>lrs_Entries = [toEntryMeta demo_ext ((demo_entry 67 2 None)\<lparr>en_updated_at := 7\<rparr>)], lrs_NextUpdatedAfter = Some 7\<rparr>, no_box), demo_list)"
    by (simp add: ListEntries_calm [OF demo_list_calm(1)] demo_list_build demo_list_page, simp add: demo_list_params_def)
  moreover obtain resp where "ListEntries demo_ext (demo_uc 2) (demo_list_request\<lparr>lr_UpdatedAfter := Some 7\<rparr>) demo_list
      = (Inr (resp, no_box), demo_list)"
    by (simp add: ListEntries_calm [OF demo_list_calm(1)] buildListParams_after demo_list_build)
  ultimately show ?thesis using cursor_repeats_page [OF demo_list_calm(1)] by fastforce
qed

end
