(* ===== verification/Vault_Effects.thy ===== *)
theory Vault_Effects
  imports Vault_Listing
begin

text \<open>What a request of the entries and projects services leaves behind: a refused request leaves
  nothing; and three places where the effect of a request reaches further than its own rows.\<close>

section \<open>Refused requests\<close>



section \<open>References across tenants\<close>






section \<open>Audit rows of undone requests\<close>








end
