(* ===== verification/Spec2Isabelle.thy ===== *)
theory Spec2Isabelle
  imports Audit_Jobs Argon2_Phc Aead Challenge_Stores Auth_Manager Vault_Effects
begin

text \<open>
  Oblivio: a verification development for the server of a zero-knowledge password
  manager.
\<close>

end
